theory Spec2Isabelle
  imports Complex_Main "HOL-Library.AList" "HOL-Library.Log_Nat"
begin

section \<open>Values shared by the extractors and the transform bridge\<close>

text \<open>
  Timestamps and calendar dates are integers (a count of microseconds, a count of days):
  the code only compares them and takes their least and greatest.
  A JSON document is what \<^verbatim>\<open>json.loads\<close> returns in Python and what a \<^verbatim>\<open>jsonb\<close> column
  holds in the database; \<open>JNull\<close> is Python's \<^verbatim>\<open>None\<close>. The pairs of a \<open>JObj\<close> carry
  distinct keys, as a Python dict and a jsonb object do. A number is held by its value; how
  the database prints it is left to \<open>text_of\<close> below.

  An exception is a value: \<open>Inl msg\<close> is a raised exception whose \<^verbatim>\<open>str()\<close> is \<open>msg\<close>,
  \<open>Inr v\<close> is a normal return.
\<close>

type_synonym timestamp = int
type_synonym date = int

datatype json =
    JNull
  | JBool bool
  | JNum rat
  | JStr string
  | JArr "json list"
  | JObj "(string \<times> json) list"

text \<open>Python's truth value of an object (\<^verbatim>\<open>not x\<close>) and \<^verbatim>\<open>len(x)\<close>, which raises
  \<^verbatim>\<open>TypeError\<close> on \<^verbatim>\<open>None\<close>, a bool and a number.\<close>

fun py_truthy :: "json \<Rightarrow> bool" where
  "py_truthy JNull = False"
| "py_truthy (JBool b) = b"
| "py_truthy (JNum q) = (q \<noteq> 0)"
| "py_truthy (JStr s) = (s \<noteq> [])"
| "py_truthy (JArr xs) = (xs \<noteq> [])"
| "py_truthy (JObj kvs) = (kvs \<noteq> [])"

fun py_len :: "json \<Rightarrow> string + nat" where
  "py_len (JStr s) = Inr (length s)"
| "py_len (JArr xs) = Inr (length xs)"
| "py_len (JObj kvs) = Inr (length kvs)"
| "py_len _ = Inl ''TypeError''"

section \<open>Raw landing store\<close>

text \<open>One row of a \<^verbatim>\<open>raw.*\<close> table: a stored API response (the spec's RawSnapshot). The
  \<^verbatim>\<open>coalesce\<close> calls of the transform queries show that \<^verbatim>\<open>tenant_id\<close> and
  \<^verbatim>\<open>application_id\<close> may be NULL.\<close>

record raw_row =
  tenant_id :: "string option"
  application_id :: "string option"
  endpoint :: string
  date_from :: "string option"
  date_to :: "string option"
  loaded_at :: timestamp
  source_data :: json

section \<open>Extractors (scripts/extractors)\<close>

datatype param = PStr string | PInt int

record request =
  req_path :: string
  req_params :: "(string \<times> param) list"
  req_application_id :: string

text \<open>
  What an extractor does is kept as a trace of events, oldest first: a request handed to the
  API client, what the client gave back (a document, or an exception), and a snapshot
  appended to the raw table. The raw landing store at any moment is the list of the
  snapshots stored so far.
\<close>

datatype event =
    Called request
  | Returned json
  | Raised string
  | Stored raw_row

fun is_call :: "event \<Rightarrow> bool" where
  "is_call (Called r) = True"
| "is_call _ = False"

fun is_store :: "event \<Rightarrow> bool" where
  "is_store (Stored s) = True"
| "is_store _ = False"

definition calls :: "event list \<Rightarrow> event list" where
  "calls tr = filter is_call tr"

definition snapshots :: "event list \<Rightarrow> event list" where
  "snapshots tr = filter is_store tr"

text \<open>
  \<^verbatim>\<open>self\<close> of an extractor. The API client (scripts/extractors, not among the sources) is a
  parameter: \<open>client self n req\<close> is the outcome of request \<open>req\<close> when \<open>n\<close> requests were
  issued before it, so the service may answer the same request differently over time.
  \<open>ext_clock self n\<close> is the ingestion time given to the snapshot stored after \<open>n\<close> others.
\<close>

record extractor =
  client :: "nat \<Rightarrow> request \<Rightarrow> string + json"
  ext_tenant_id :: "string option"
  date_from_str :: string
  date_to_str :: string
  ext_clock :: "nat \<Rightarrow> timestamp"

definition client_get :: "extractor \<Rightarrow> request \<Rightarrow> event list \<Rightarrow> event list \<times> (string + json)" where
  "client_get self req tr =
     (let out = client self (length (calls tr)) req
      in (tr @ [Called req, (case out of Inl exc \<Rightarrow> Raised exc | Inr data \<Rightarrow> Returned data)], out))"

text \<open>Modelled from the spec: \<^verbatim>\<open>BaseExtractor._store_raw\<close> is not among the sources. The spec
  has each page "appended verbatim as a RawSnapshot", tagged with the tenant and application,
  the endpoint, the requested date range and an ingestion timestamp.\<close>

definition store_raw :: "extractor \<Rightarrow> string \<Rightarrow> string \<Rightarrow> json \<Rightarrow> event list \<Rightarrow> event list" where
  "store_raw self app_id ep data tr =
     tr @ [Stored \<lparr>tenant_id = ext_tenant_id self, application_id = Some app_id, endpoint = ep,
                   date_from = Some (date_from_str self), date_to = Some (date_to_str self),
                   loaded_at = ext_clock self (length (snapshots tr)), source_data = data\<rparr>]"

definition MAX_PAGES :: nat where
  "MAX_PAGES = 50"

text \<open>\<^verbatim>\<open>page_size = min(cfg.EXTRACTION_MAX_RECORDS, 100)\<close>; the setting comes from the
  environment and is a parameter.\<close>

definition page_size_of :: "int \<Rightarrow> int" where
  "page_size_of EXTRACTION_MAX_RECORDS = min EXTRACTION_MAX_RECORDS 100"

text \<open>\<^verbatim>\<open>data.get("data", []) if isinstance(data, dict) else data\<close>\<close>

definition items_of :: "json \<Rightarrow> json" where
  "items_of data =
     (case data of
        JObj kvs \<Rightarrow> (case map_of kvs ''data'' of Some v \<Rightarrow> v | None \<Rightarrow> JArr [])
      | _ \<Rightarrow> data)"

text \<open>
  A \<^verbatim>\<open>for\<close> loop with \<^verbatim>\<open>break\<close>: the body returns whether it broke out, and the new state.
\<close>

fun for_pages :: "(nat \<Rightarrow> 's \<Rightarrow> bool \<times> 's) \<Rightarrow> nat list \<Rightarrow> 's \<Rightarrow> 's" where
  "for_pages body [] s = s"
| "for_pages body (p # ps) s =
     (case body p s of (True, s') \<Rightarrow> s' | (False, s') \<Rightarrow> for_pages body ps s')"

text \<open>
  The body of the three pagination loops (chat\_extractor.py 44-72, contacts\_extractor.py
  30-55, campaigns\_extractor.py 24-49), which differ in the endpoint and in the cursor
  parameter only. The state is the trace and the running total of records. Every
  exception raised inside \<^verbatim>\<open>try\<close> (by the client, or by \<^verbatim>\<open>len\<close>) ends the loop.
\<close>

definition fetch_page ::
  "extractor \<Rightarrow> string \<Rightarrow> string \<Rightarrow> int \<Rightarrow> string \<times> param \<Rightarrow> event list \<times> nat
     \<Rightarrow> bool \<times> (event list \<times> nat)" where
  "fetch_page self app_id ep page_size cursor st =
     (case st of (tr, n_records) \<Rightarrow>
      (case client_get self
              \<lparr>req_path = ep,
               req_params = [(''applicationId'', PStr app_id), (''limit'', PInt page_size), cursor],
               req_application_id = app_id\<rparr> tr of
         (tr1, Inl exc) \<Rightarrow> (True, (tr1, n_records))
       | (tr1, Inr data) \<Rightarrow>
           if data = JNull then (True, (tr1, n_records))
           else if \<not> py_truthy (items_of data) then (True, (tr1, n_records))
           else
             (let tr2 = store_raw self app_id ep data tr1
              in (case py_len (items_of data) of
                    Inl exc \<Rightarrow> (True, (tr2, n_records))
                  | Inr n \<Rightarrow>
                      if int n < page_size then (True, (tr2, n_records + n))
                      else (False, (tr2, n_records + n))))))"

text \<open>A single, unpaginated call: the snapshot is stored unless the client returned
  \<^verbatim>\<open>None\<close> or raised.\<close>

definition fetch_once :: "extractor \<Rightarrow> string \<Rightarrow> request \<Rightarrow> event list \<Rightarrow> event list" where
  "fetch_once self app_id req tr =
     (case client_get self req tr of
        (tr1, Inl exc) \<Rightarrow> tr1
      | (tr1, Inr data) \<Rightarrow>
          if data \<noteq> JNull then store_raw self app_id (req_path req) data tr1 else tr1)"

definition agent_status :: "extractor \<Rightarrow> string \<Rightarrow> event list \<Rightarrow> event list" where
  "agent_status self app_id tr =
     fetch_once self app_id
       \<lparr>req_path = ''/v1/chat/agent/status'', req_params = [(''applicationId'', PStr app_id)],
        req_application_id = app_id\<rparr> tr"

text \<open>\<^verbatim>\<open>ContactsExtractor._extract_for_app\<close>: pages by \<^verbatim>\<open>limit\<close> and \<^verbatim>\<open>page\<close>, then the
  agent status.\<close>

definition contacts_pages :: "extractor \<Rightarrow> string \<Rightarrow> int \<Rightarrow> event list \<Rightarrow> event list \<times> nat" where
  "contacts_pages self app_id page_size tr =
     for_pages
       (\<lambda>page_num. fetch_page self app_id ''/v1/chat/contacts'' page_size
                      (''page'', PInt (int page_num)))
       [0..<MAX_PAGES] (tr, 0)"

definition ContactsExtractor_extract_for_app ::
  "extractor \<Rightarrow> int \<Rightarrow> string \<Rightarrow> event list \<Rightarrow> event list" where
  "ContactsExtractor_extract_for_app self EXTRACTION_MAX_RECORDS app_id tr =
     agent_status self app_id
       (fst (contacts_pages self app_id (page_size_of EXTRACTION_MAX_RECORDS) tr))"

text \<open>\<^verbatim>\<open>CampaignsExtractor._extract_for_app\<close>: pages of \<^verbatim>\<open>/v1/campaign\<close>, then one
  call for the campaign statistics.\<close>

definition campaigns_pages :: "extractor \<Rightarrow> string \<Rightarrow> int \<Rightarrow> event list \<Rightarrow> event list \<times> nat" where
  "campaigns_pages self app_id page_size tr =
     for_pages
       (\<lambda>page_num. fetch_page self app_id ''/v1/campaign'' page_size
                      (''page'', PInt (int page_num)))
       [0..<MAX_PAGES] (tr, 0)"

definition CampaignsExtractor_extract_for_app ::
  "extractor \<Rightarrow> int \<Rightarrow> string \<Rightarrow> event list \<Rightarrow> event list" where
  "CampaignsExtractor_extract_for_app self EXTRACTION_MAX_RECORDS app_id tr =
     (let page_size = page_size_of EXTRACTION_MAX_RECORDS
      in fetch_once self app_id
           \<lparr>req_path = ''/v1/campaign/stats'',
            req_params = [(''applicationId'', PStr app_id), (''dateFrom'', PStr (date_from_str self)),
                          (''dateTo'', PStr (date_to_str self)), (''limit'', PInt page_size),
                          (''page'', PInt 0)],
            req_application_id = app_id\<rparr>
           (fst (campaigns_pages self app_id page_size tr)))"

text \<open>\<^verbatim>\<open>ChatExtractor._extract_for_app\<close>: the agent status first, then the contacts by
  \<^verbatim>\<open>limit\<close> and \<^verbatim>\<open>offset\<close>; the offset is a third component of the loop state and grows
  by the page size when the loop goes on.\<close>

definition chat_page ::
  "extractor \<Rightarrow> string \<Rightarrow> int \<Rightarrow> nat \<Rightarrow> (event list \<times> nat) \<times> int \<Rightarrow> bool \<times> ((event list \<times> nat) \<times> int)" where
  "chat_page self app_id page_size page_num st =
     (case st of (s, offset) \<Rightarrow>
      (case fetch_page self app_id ''/v1/chat/contacts'' page_size (''offset'', PInt offset) s of
         (True, s') \<Rightarrow> (True, (s', offset))
       | (False, s') \<Rightarrow> (False, (s', offset + page_size))))"

definition chat_pages :: "extractor \<Rightarrow> string \<Rightarrow> int \<Rightarrow> event list \<Rightarrow> (event list \<times> nat) \<times> int" where
  "chat_pages self app_id page_size tr =
     for_pages (chat_page self app_id page_size) [0..<MAX_PAGES] ((tr, 0), 0)"

definition ChatExtractor_extract_for_app ::
  "extractor \<Rightarrow> int \<Rightarrow> string \<Rightarrow> event list \<Rightarrow> event list" where
  "ChatExtractor_extract_for_app self EXTRACTION_MAX_RECORDS app_id tr =
     fst (fst (chat_pages self app_id (page_size_of EXTRACTION_MAX_RECORDS) (agent_status self app_id tr)))"

section \<open>Normalized tables and the database server (scripts/transform\_bridge.py)\<close>

text \<open>
  The rows of the \<^verbatim>\<open>public.*\<close> tables, with the columns the bridge names. A column the
  bridge can write NULL into is an option.
\<close>

record sync_row =
  ss_tenant_id :: string
  ss_entity :: string
  ss_last_sync_at :: timestamp
  ss_records_synced :: int
  ss_status :: string

record contact =
  c_tenant_id :: string
  c_contact_id :: string
  c_contact_name :: "string option"
  c_total_messages :: int
  c_first_contact :: "date option"
  c_last_contact :: "date option"
  c_total_conversations :: int

record toque =
  t_tenant_id :: string
  t_date :: date
  t_canal :: string
  t_proyecto_cuenta :: string
  t_enviados :: int
  t_entregados :: int
  t_clicks :: int
  t_chunks :: int
  t_usuarios_unicos :: int
  t_abiertos :: int
  t_rebotes :: int
  t_bloqueados :: int
  t_spam :: int
  t_desuscritos :: int
  t_conversiones :: int
  t_ctr :: rat
  t_tasa_entrega :: rat
  t_open_rate :: rat
  t_conversion_rate :: rat

record cell =
  h_tenant_id :: string
  h_canal :: string
  h_dia_semana :: string
  h_hora :: int
  h_enviados :: int
  h_clicks :: int
  h_abiertos :: int
  h_conversiones :: int
  h_ctr :: rat
  h_dia_orden :: int

record campaign =
  m_tenant_id :: string
  m_campana_id :: string
  m_campana_nombre :: string
  m_canal :: string
  m_proyecto_cuenta :: string
  m_tipo_campana :: "string option"
  m_total_enviados :: int
  m_total_entregados :: int
  m_total_clicks :: int
  m_total_chunks :: int
  m_fecha_inicio :: "date option"
  m_fecha_fin :: "date option"
  m_total_abiertos :: int
  m_total_rebotes :: int
  m_total_bloqueados :: int
  m_total_spam :: int
  m_total_desuscritos :: int
  m_total_conversiones :: int
  m_ctr :: rat
  m_tasa_entrega :: rat
  m_open_rate :: rat
  m_conversion_rate :: rat

record daily_stat =
  d_tenant_id :: string
  d_date :: date
  d_total_messages :: int
  d_unique_contacts :: int
  d_conversations :: int
  d_fallback_count :: int

text \<open>The rows the staging queries select: the flattened columns and the snapshot's
  \<^verbatim>\<open>loaded_at\<close>, which the final projection drops and the Python loop never reads.\<close>

record flat_contact =
  fc_tenant_id :: string
  fc_contact_id :: string
  fc_contact_name :: "string option"
  fc_first_contact :: "date option"
  fc_last_contact :: "date option"
  fc_loaded_at :: timestamp

record flat_toque =
  ft_tenant_id :: string
  ft_date :: date
  ft_canal :: string
  ft_proyecto_cuenta :: string
  ft_enviados :: int
  ft_entregados :: int
  ft_abiertos :: int
  ft_clicks :: int
  ft_loaded_at :: timestamp

record flat_cell =
  fh_tenant_id :: string
  fh_canal :: string
  fh_dia_semana :: string
  fh_hora :: int
  fh_ctr :: rat
  fh_dia_orden :: int

record flat_campaign =
  fm_tenant_id :: string
  fm_campana_id :: string
  fm_campana_nombre :: string
  fm_canal :: string
  fm_proyecto_cuenta :: string
  fm_tipo_campana :: "string option"
  fm_total_enviados :: int
  fm_total_entregados :: int
  fm_total_clicks :: int
  fm_fecha_inicio :: "date option"
  fm_fecha_fin :: "date option"
  fm_total_abiertos :: int
  fm_total_rebotes :: int
  fm_total_bloqueados :: int
  fm_total_spam :: int
  fm_total_desuscritos :: int
  fm_total_conversiones :: int
  fm_loaded_at :: timestamp

text \<open>
  What the bridge takes from the database server and from the table declarations
  (app/models/schemas.py, not among the sources), as parameters:
  \<^item> \<open>text_of\<close>: the text of a jsonb value that is not a string (\<^verbatim>\<open>->>\<close>, \<^verbatim>\<open>::text\<close>);
  \<^item> the input functions of the casts \<^verbatim>\<open>::int\<close>, \<^verbatim>\<open>::smallint\<close>, \<^verbatim>\<open>::date\<close>,
    \<^verbatim>\<open>::timestamptz::date\<close> and \<^verbatim>\<open>::numeric\<close>, which raise on text they do not accept;
  \<^item> for each table, which proposed rows an INSERT refuses (a NOT NULL column, a column
    length, a CHECK constraint), with the message of the error.
\<close>

record server =
  text_of :: "json \<Rightarrow> string"
  int4_in :: "string \<Rightarrow> string + int"
  int2_in :: "string \<Rightarrow> string + int"
  date_in :: "string \<Rightarrow> string + date"
  timestamptz_date_in :: "string \<Rightarrow> string + date"
  numeric_in :: "string \<Rightarrow> string + rat"
  rejects_sync_row :: "sync_row \<Rightarrow> string option"
  rejects_contact :: "contact \<Rightarrow> string option"
  rejects_toque :: "toque \<Rightarrow> string option"
  rejects_cell :: "cell \<Rightarrow> string option"
  rejects_campaign :: "campaign \<Rightarrow> string option"
  rejects_daily_stat :: "daily_stat \<Rightarrow> string option"

record db =
  raw_contacts_api :: "raw_row list"
  raw_push_stats :: "raw_row list"
  raw_campaigns_api :: "raw_row list"
  contacts :: "contact list"
  toques_daily :: "toque list"
  toques_heatmap :: "cell list"
  campaigns :: "campaign list"
  daily_stats :: "daily_stat list"
  sync_state :: "sync_row list"

definition TENANT_ID :: string where
  "TENANT_ID = ''visionamos''"

definition APP_ID :: string where
  "APP_ID = ''100274''"

subsection \<open>SQL operators\<close>

definition and_then :: "string + 'a \<Rightarrow> ('a \<Rightarrow> string + 'b) \<Rightarrow> string + 'b" where
  "and_then x f = (case x of Inl exc \<Rightarrow> Inl exc | Inr v \<Rightarrow> f v)"

fun traverse :: "('a \<Rightarrow> string + 'b) \<Rightarrow> 'a list \<Rightarrow> string + 'b list" where
  "traverse f [] = Inr []"
| "traverse f (x # xs) = and_then (f x) (\<lambda>y. and_then (traverse f xs) (\<lambda>ys. Inr (y # ys)))"

text \<open>\<^verbatim>\<open>j -> 'k'\<close> and \<^verbatim>\<open>j ->> 'k'\<close>: NULL (\<open>None\<close>) when \<open>j\<close> is not an object or has no
  such key; \<^verbatim>\<open>->>\<close> is also NULL on a JSON null.\<close>

definition arrow :: "json \<Rightarrow> string \<Rightarrow> json option" where
  "arrow j k = (case j of JObj kvs \<Rightarrow> map_of kvs k | _ \<Rightarrow> None)"

definition arrow_text :: "server \<Rightarrow> json \<Rightarrow> string \<Rightarrow> string option" where
  "arrow_text srv j k =
     (case arrow j k of
        None \<Rightarrow> None
      | Some JNull \<Rightarrow> None
      | Some (JStr s) \<Rightarrow> Some s
      | Some v \<Rightarrow> Some (text_of srv v))"

fun jsonb_typeof :: "json \<Rightarrow> string" where
  "jsonb_typeof JNull = ''null''"
| "jsonb_typeof (JBool b) = ''boolean''"
| "jsonb_typeof (JNum q) = ''number''"
| "jsonb_typeof (JStr s) = ''string''"
| "jsonb_typeof (JArr xs) = ''array''"
| "jsonb_typeof (JObj kvs) = ''object''"

text \<open>A cast applied to a nullable text: NULL stays NULL.\<close>

definition cast :: "(string \<Rightarrow> string + 'a) \<Rightarrow> string option \<Rightarrow> string + 'a option" where
  "cast input x =
     (case x of None \<Rightarrow> Inr None | Some s \<Rightarrow> and_then (input s) (\<lambda>v. Inr (Some v)))"

definition coalesce :: "'a option \<Rightarrow> 'a \<Rightarrow> 'a" where
  "coalesce x dflt = (case x of Some v \<Rightarrow> v | None \<Rightarrow> dflt)"

definition coalesce_null :: "'a option \<Rightarrow> 'a option \<Rightarrow> 'a option" where
  "coalesce_null x y = (case x of Some v \<Rightarrow> Some v | None \<Rightarrow> y)"

text \<open>\<^verbatim>\<open>coalesce((elem->>'k')::int, 0)\<close>\<close>

definition int_or_0 :: "server \<Rightarrow> json \<Rightarrow> string \<Rightarrow> string + int" where
  "int_or_0 srv elem k = and_then (cast (int4_in srv) (arrow_text srv elem k)) (\<lambda>v. Inr (coalesce v 0))"

text \<open>\<^verbatim>\<open>LEAST\<close> and \<^verbatim>\<open>GREATEST\<close> skip NULL arguments and are NULL only when both are.\<close>

definition sql_least :: "'a::linorder option \<Rightarrow> 'a option \<Rightarrow> 'a option" where
  "sql_least a b =
     (case a of None \<Rightarrow> b | Some x \<Rightarrow> (case b of None \<Rightarrow> Some x | Some y \<Rightarrow> Some (min x y)))"

definition sql_greatest :: "'a::linorder option \<Rightarrow> 'a option \<Rightarrow> 'a option" where
  "sql_greatest a b =
     (case a of None \<Rightarrow> b | Some x \<Rightarrow> (case b of None \<Rightarrow> Some x | Some y \<Rightarrow> Some (max x y)))"

text \<open>\<^verbatim>\<open>s LIKE '%pat%'\<close> for a pattern without wildcards of its own: \<open>pat\<close> occurs in \<open>s\<close>.\<close>

fun starts_with :: "string \<Rightarrow> string \<Rightarrow> bool" where
  "starts_with [] s = True"
| "starts_with (p # ps) [] = False"
| "starts_with (p # ps) (c # cs) = (p = c \<and> starts_with ps cs)"

fun like_contains :: "string \<Rightarrow> string \<Rightarrow> bool" where
  "like_contains pat [] = (pat = [])"
| "like_contains pat (c # cs) = (starts_with pat (c # cs) \<or> like_contains pat cs)"

text \<open>
  \<^verbatim>\<open>row_number() OVER (PARTITION BY key ORDER BY ...) = 1\<close>: of the rows of each key,
  the one that sorts first. \<open>earlier a b\<close> says that \<open>a\<close> sorts strictly before \<open>b\<close>. The
  database leaves the choice among rows of equal rank open; here the first of them in
  the order of the scan is taken, so that the same rows give the same result.
\<close>

fun first_by :: "('r \<Rightarrow> 'r \<Rightarrow> bool) \<Rightarrow> 'r \<Rightarrow> 'r list \<Rightarrow> 'r" where
  "first_by earlier best [] = best"
| "first_by earlier best (r # rs) = first_by earlier (if earlier r best then r else best) rs"

definition row_number_1 :: "('r \<Rightarrow> 'k) \<Rightarrow> ('r \<Rightarrow> 'r \<Rightarrow> bool) \<Rightarrow> 'r list \<Rightarrow> 'r list" where
  "row_number_1 key earlier rows =
     concat (map (\<lambda>k. case filter (\<lambda>r. key r = k) rows of
                        [] \<Rightarrow> []
                      | r # rs \<Rightarrow> [first_by earlier r rs])
                 (remdups (map key rows)))"

text \<open>\<^verbatim>\<open>ORDER BY x DESC NULLS LAST\<close>: a value sorts before every smaller value and before
  NULL.\<close>

definition desc_nulls_last :: "'a::linorder option \<Rightarrow> 'a option \<Rightarrow> bool" where
  "desc_nulls_last a b =
     (case a of None \<Rightarrow> False | Some x \<Rightarrow> (case b of None \<Rightarrow> True | Some y \<Rightarrow> y < x))"

text \<open>
  \<^verbatim>\<open>INSERT INTO t VALUES x ON CONFLICT (key) DO UPDATE SET ...\<close> on a table with a unique
  constraint on \<open>key\<close>: the statement raises when the table refuses the proposed row;
  otherwise the table becomes \<open>upserted\<close>: the row of the same key, if there is one,
  becomes \<open>do_update old x\<close> (\<open>x\<close> is \<^verbatim>\<open>EXCLUDED\<close>), and else \<open>x\<close> is appended.
\<close>

definition upserted :: "('t \<Rightarrow> 'k) \<Rightarrow> ('t \<Rightarrow> 't \<Rightarrow> 't) \<Rightarrow> 't \<Rightarrow> 't list \<Rightarrow> 't list" where
  "upserted key do_update x tbl =
     (if list_ex (\<lambda>r. key r = key x) tbl
      then map (\<lambda>r. if key r = key x then do_update r x else r) tbl
      else tbl @ [x])"

definition insert_on_conflict ::
  "('t \<Rightarrow> string option) \<Rightarrow> ('t \<Rightarrow> 'k) \<Rightarrow> ('t \<Rightarrow> 't \<Rightarrow> 't) \<Rightarrow> 't \<Rightarrow> 't list \<Rightarrow> string + 't list" where
  "insert_on_conflict rejects key do_update x tbl =
     (case rejects x of
        Some msg \<Rightarrow> Inl msg
      | None \<Rightarrow> Inr (upserted key do_update x tbl))"

text \<open>The Python loop \<^verbatim>\<open>for r in rows: conn.execute(...); count += 1\<close>: it returns the
  table as the statements left it and either the count or the exception that ended it.\<close>

fun for_rows :: "('p \<Rightarrow> 't \<Rightarrow> string + 't) \<Rightarrow> 'p list \<Rightarrow> 't \<Rightarrow> int \<Rightarrow> 't \<times> (string + int)" where
  "for_rows stmt [] tbl count = (tbl, Inr count)"
| "for_rows stmt (r # rs) tbl count =
     (case stmt r tbl of
        Inl exc \<Rightarrow> (tbl, Inl exc)
      | Inr tbl' \<Rightarrow> for_rows stmt rs tbl' (count + 1))"

text \<open>
  Python's \<^verbatim>\<open>float\<close> is an IEEE 754 binary64 number. A float is held by its exact value,
  a rational. \<open>round_half_even\<close> is the integer nearest to a rational, the even one of the
  two when it lies half way; \<open>floor_log2 x\<close> is the exponent of the power of two at or
  below a positive \<open>x\<close>.

  \<open>fl x\<close> is the float nearest to \<open>x\<close>, the one with the even mantissa when two are equally
  near: a mantissa of 53 bits, or fewer below \<open>2 powi (- 1022)\<close>, where the spacing stays
  \<open>2 powi (- 1074)\<close>. Floats end below \<open>2 powi 1024\<close>; \<open>fl\<close> has no such end, and the
  counters the bridge divides are \<^verbatim>\<open>int\<close> columns (32 bits), whose quotients times 100 stay
  below \<open>2 powi 38\<close>.
\<close>

definition round_half_even :: "rat \<Rightarrow> int" where
  "round_half_even y =
     (let f = \<lfloor>y\<rfloor>; d = y - of_int f
      in if d < 1 / 2 then f else if 1 / 2 < d then f + 1 else if even f then f else f + 1)"

definition floor_log2 :: "rat \<Rightarrow> int" where
  "floor_log2 x =
     (case quotient_of x of (p, q) \<Rightarrow>
        (let g = bitlen p - bitlen q in if 2 powi g \<le> x then g else g - 1))"

definition fl :: "rat \<Rightarrow> rat" where
  "fl x =
     (if x = 0 then 0
      else (let e = max (floor_log2 \<bar>x\<bar> - 52) (- 1074)
            in sgn x * of_int (round_half_even (\<bar>x\<bar> / 2 powi e)) * 2 powi e))"

text \<open>\<^verbatim>\<open>a / b\<close> on two Python ints (true division: the float nearest to the quotient) and
  \<^verbatim>\<open>x * y\<close> on two floats.\<close>

definition int_true_div :: "int \<Rightarrow> int \<Rightarrow> rat" where
  "int_true_div a b = fl (of_int a / of_int b)"

definition float_mul :: "rat \<Rightarrow> rat \<Rightarrow> rat" where
  "float_mul x y = fl (x * y)"

text \<open>
  Rounding. Python's \<^verbatim>\<open>round(x, ndigits)\<close> on a float \<open>x\<close> takes the decimal of \<open>ndigits\<close>
  places nearest to the exact value of \<open>x\<close>, half to even, and returns the float nearest to
  that decimal. The database driver sends a float as the shortest decimal that reads back as
  the same float, which for a decimal of two places and up to 15 digits is that decimal:
  \<open>py_round\<close> gives it. The database's \<^verbatim>\<open>round(numeric, 2)\<close> is exact decimal arithmetic and
  rounds half away from zero.
\<close>

definition py_round :: "rat \<Rightarrow> nat \<Rightarrow> rat" where
  "py_round x ndigits = of_int (round_half_even (x * 10 ^ ndigits)) / 10 ^ ndigits"

definition pg_round :: "rat \<Rightarrow> nat \<Rightarrow> rat" where
  "pg_round x ndigits = sgn x * of_int \<lfloor>\<bar>x\<bar> * 10 ^ ndigits + 1 / 2\<rfloor> / 10 ^ ndigits"

text \<open>\<^verbatim>\<open>round(num / den * 100, 2) if den > 0 else 0\<close>, \<open>num\<close> and \<open>den\<close> two ints: the
  division and the product are float operations, each rounded.\<close>

definition ratio :: "int \<Rightarrow> int \<Rightarrow> rat" where
  "ratio num den = (if den > 0 then py_round (float_mul (int_true_div num den) 100) 2 else 0)"

subsection \<open>Sync state\<close>

text \<open>\<^verbatim>\<open>update_sync_state(conn, entity, records, status)\<close>; \<open>ts\<close> is what
  \<^verbatim>\<open>datetime.now(timezone.utc)\<close> returned.\<close>

definition sync_key :: "sync_row \<Rightarrow> string \<times> string" where
  "sync_key r = (ss_tenant_id r, ss_entity r)"

definition sync_set :: "sync_row \<Rightarrow> sync_row \<Rightarrow> sync_row" where
  "sync_set old excluded =
     old\<lparr>ss_last_sync_at := ss_last_sync_at excluded,
         ss_records_synced := ss_records_synced excluded,
         ss_status := ss_status excluded\<rparr>"

definition update_sync_state :: "server \<Rightarrow> timestamp \<Rightarrow> string \<Rightarrow> int \<Rightarrow> string \<Rightarrow> db \<Rightarrow> string + db" where
  "update_sync_state srv ts entity records status conn =
     and_then
       (insert_on_conflict (rejects_sync_row srv) sync_key sync_set
          \<lparr>ss_tenant_id = TENANT_ID, ss_entity = entity, ss_last_sync_at = ts,
           ss_records_synced = records, ss_status = status\<rparr>
          (sync_state conn))
       (\<lambda>tbl. Inr (conn\<lparr>sync_state := tbl\<rparr>))"

subsection \<open>Transform: contacts\<close>

text \<open>The \<^verbatim>\<open>raw_rows\<close> step of the queries: the snapshots whose \<^verbatim>\<open>data\<close> is an array (an
  object, for the heatmap), and what \<^verbatim>\<open>jsonb_array_elements\<close> yields for them.\<close>

definition has_array_data :: "raw_row \<Rightarrow> bool" where
  "has_array_data r = (case arrow (source_data r) ''data'' of Some (JArr xs) \<Rightarrow> True | _ \<Rightarrow> False)"

definition has_object_data :: "raw_row \<Rightarrow> bool" where
  "has_object_data r = (case arrow (source_data r) ''data'' of Some (JObj kvs) \<Rightarrow> True | _ \<Rightarrow> False)"

definition data_elements :: "raw_row \<Rightarrow> json list" where
  "data_elements r = (case arrow (source_data r) ''data'' of Some (JArr xs) \<Rightarrow> xs | _ \<Rightarrow> [])"

definition elements :: "raw_row list \<Rightarrow> (raw_row \<times> json) list" where
  "elements rows = concat (map (\<lambda>r. map (Pair r) (data_elements r)) rows)"

definition contacts_flattened :: "server \<Rightarrow> string \<Rightarrow> raw_row list \<Rightarrow> string + flat_contact list" where
  "contacts_flattened srv tid raw =
     traverse
       (\<lambda>(r, elem, contact_id).
          and_then (cast (timestamptz_date_in srv) (arrow_text srv elem ''createdAt'')) (\<lambda>first_contact.
          and_then (cast (timestamptz_date_in srv) (arrow_text srv elem ''updatedAt'')) (\<lambda>last_contact.
          Inr \<lparr>fc_tenant_id = coalesce (tenant_id r) tid,
               fc_contact_id = contact_id,
               fc_contact_name = arrow_text srv elem ''profileName'',
               fc_first_contact = first_contact,
               fc_last_contact = last_contact,
               fc_loaded_at = loaded_at r\<rparr>)))
       (concat (map (\<lambda>(r, elem). case arrow_text srv elem ''contactId'' of
                                    None \<Rightarrow> []
                                  | Some contact_id \<Rightarrow> [(r, elem, contact_id)])
                    (elements (filter has_array_data raw))))"

text \<open>\<^verbatim>\<open>ORDER BY last_contact DESC NULLS LAST, loaded_at DESC\<close>\<close>

definition contacts_before :: "flat_contact \<Rightarrow> flat_contact \<Rightarrow> bool" where
  "contacts_before a b =
     (desc_nulls_last (fc_last_contact a) (fc_last_contact b)
      \<or> (fc_last_contact a = fc_last_contact b \<and> fc_loaded_at b < fc_loaded_at a))"

definition flat_contact_key :: "flat_contact \<Rightarrow> string \<times> string" where
  "flat_contact_key r = (fc_tenant_id r, fc_contact_id r)"

definition CONTACTS_SQL :: "server \<Rightarrow> string \<Rightarrow> raw_row list \<Rightarrow> string + flat_contact list" where
  "CONTACTS_SQL srv tid raw =
     and_then (contacts_flattened srv tid raw)
       (\<lambda>flattened. Inr (row_number_1 flat_contact_key contacts_before flattened))"

definition contact_key :: "contact \<Rightarrow> string \<times> string" where
  "contact_key r = (c_tenant_id r, c_contact_id r)"

definition contact_set :: "contact \<Rightarrow> contact \<Rightarrow> contact" where
  "contact_set old excluded =
     old\<lparr>c_contact_name := c_contact_name excluded,
         c_first_contact := sql_least (c_first_contact old) (c_first_contact excluded),
         c_last_contact := sql_greatest (c_last_contact old) (c_last_contact excluded)\<rparr>"

definition contact_values :: "flat_contact \<Rightarrow> contact" where
  "contact_values r =
     \<lparr>c_tenant_id = fc_tenant_id r, c_contact_id = fc_contact_id r,
      c_contact_name = fc_contact_name r, c_total_messages = 0,
      c_first_contact = fc_first_contact r, c_last_contact = fc_last_contact r,
      c_total_conversations = 0\<rparr>"

definition CONTACTS_UPSERT :: "server \<Rightarrow> flat_contact \<Rightarrow> contact list \<Rightarrow> string + contact list" where
  "CONTACTS_UPSERT srv r tbl =
     insert_on_conflict (rejects_contact srv) contact_key contact_set (contact_values r) tbl"

definition transform_contacts :: "server \<Rightarrow> db \<Rightarrow> db \<times> (string + int)" where
  "transform_contacts srv conn =
     (case CONTACTS_SQL srv TENANT_ID (raw_contacts_api conn) of
        Inl exc \<Rightarrow> (conn, Inl exc)
      | Inr rows \<Rightarrow>
          (case for_rows (CONTACTS_UPSERT srv) rows (contacts conn) 0 of
             (tbl, out) \<Rightarrow> (conn\<lparr>contacts := tbl\<rparr>, out)))"

subsection \<open>Transform: toques\_daily\<close>

definition toques_flattened :: "server \<Rightarrow> string \<Rightarrow> string \<Rightarrow> raw_row list \<Rightarrow> string + flat_toque list" where
  "toques_flattened srv tid app_id raw =
     traverse
       (\<lambda>(r, elem, canal, stats_date).
          and_then (date_in srv stats_date) (\<lambda>dt.
          and_then (int_or_0 srv elem ''numDevicesSent'') (\<lambda>enviados.
          and_then (int_or_0 srv elem ''numDevicesSuccess'') (\<lambda>entregados.
          and_then (int_or_0 srv elem ''numDevicesReceived'') (\<lambda>abiertos.
          and_then (int_or_0 srv elem ''numDevicesClicked'') (\<lambda>clicks.
          Inr \<lparr>ft_tenant_id = coalesce (tenant_id r) tid,
               ft_date = dt,
               ft_canal = canal,
               ft_proyecto_cuenta = coalesce (application_id r) app_id,
               ft_enviados = enviados,
               ft_entregados = entregados,
               ft_abiertos = abiertos,
               ft_clicks = clicks,
               ft_loaded_at = loaded_at r\<rparr>))))))
       (concat (map (\<lambda>(r, elem). case arrow_text srv elem ''platformGroup'' of
                                    None \<Rightarrow> []
                                  | Some canal \<Rightarrow>
                                      (case arrow_text srv elem ''statsDate'' of
                                         None \<Rightarrow> []
                                       | Some stats_date \<Rightarrow> [(r, elem, canal, stats_date)]))
                    (elements (filter (\<lambda>r. like_contains ''/dateStats'' (endpoint r) \<and> has_array_data r) raw))))"

definition flat_toque_key :: "flat_toque \<Rightarrow> string \<times> date \<times> string \<times> string" where
  "flat_toque_key r = (ft_tenant_id r, ft_date r, ft_canal r, ft_proyecto_cuenta r)"

text \<open>\<^verbatim>\<open>ORDER BY loaded_at DESC\<close>\<close>

definition toques_before :: "flat_toque \<Rightarrow> flat_toque \<Rightarrow> bool" where
  "toques_before a b = (ft_loaded_at b < ft_loaded_at a)"

definition TOQUES_DAILY_SQL :: "server \<Rightarrow> string \<Rightarrow> string \<Rightarrow> raw_row list \<Rightarrow> string + flat_toque list" where
  "TOQUES_DAILY_SQL srv tid app_id raw =
     and_then (toques_flattened srv tid app_id raw)
       (\<lambda>flattened. Inr (row_number_1 flat_toque_key toques_before flattened))"

definition toque_key :: "toque \<Rightarrow> string \<times> date \<times> string \<times> string" where
  "toque_key r = (t_tenant_id r, t_date r, t_canal r, t_proyecto_cuenta r)"

definition toque_set :: "toque \<Rightarrow> toque \<Rightarrow> toque" where
  "toque_set old excluded =
     old\<lparr>t_enviados := t_enviados excluded,
         t_entregados := t_entregados excluded,
         t_clicks := t_clicks excluded,
         t_abiertos := t_abiertos excluded,
         t_ctr := t_ctr excluded,
         t_tasa_entrega := t_tasa_entrega excluded,
         t_open_rate := t_open_rate excluded\<rparr>"

definition toque_values :: "flat_toque \<Rightarrow> rat \<Rightarrow> rat \<Rightarrow> rat \<Rightarrow> toque" where
  "toque_values r ctr tasa_entrega open_rate =
     \<lparr>t_tenant_id = ft_tenant_id r, t_date = ft_date r, t_canal = ft_canal r,
      t_proyecto_cuenta = ft_proyecto_cuenta r,
      t_enviados = ft_enviados r, t_entregados = ft_entregados r, t_clicks = ft_clicks r,
      t_chunks = 0, t_usuarios_unicos = 0,
      t_abiertos = ft_abiertos r, t_rebotes = 0, t_bloqueados = 0, t_spam = 0,
      t_desuscritos = 0, t_conversiones = 0,
      t_ctr = ctr, t_tasa_entrega = tasa_entrega, t_open_rate = open_rate,
      t_conversion_rate = 0\<rparr>"

definition TOQUES_DAILY_UPSERT ::
  "server \<Rightarrow> flat_toque \<Rightarrow> rat \<Rightarrow> rat \<Rightarrow> rat \<Rightarrow> toque list \<Rightarrow> string + toque list" where
  "TOQUES_DAILY_UPSERT srv r ctr tasa_entrega open_rate tbl =
     insert_on_conflict (rejects_toque srv) toque_key toque_set
       (toque_values r ctr tasa_entrega open_rate) tbl"

text \<open>The body of the loop of \<^verbatim>\<open>transform_toques_daily\<close>: the three ratios, then the
  statement.\<close>

definition toques_daily_row :: "server \<Rightarrow> flat_toque \<Rightarrow> toque list \<Rightarrow> string + toque list" where
  "toques_daily_row srv r tbl =
     (let enviados = ft_enviados r; entregados = ft_entregados r;
          abiertos = ft_abiertos r; clicks = ft_clicks r;
          ctr = ratio clicks enviados;
          tasa_entrega = ratio entregados enviados;
          open_rate = ratio abiertos entregados
      in TOQUES_DAILY_UPSERT srv r ctr tasa_entrega open_rate tbl)"

definition transform_toques_daily :: "server \<Rightarrow> db \<Rightarrow> db \<times> (string + int)" where
  "transform_toques_daily srv conn =
     (case TOQUES_DAILY_SQL srv TENANT_ID APP_ID (raw_push_stats conn) of
        Inl exc \<Rightarrow> (conn, Inl exc)
      | Inr rows \<Rightarrow>
          (case for_rows (toques_daily_row srv) rows (toques_daily conn) 0 of
             (tbl, out) \<Rightarrow> (conn\<lparr>toques_daily := tbl\<rparr>, out)))"

subsection \<open>Transform: toques\_heatmap\<close>

text \<open>\<^verbatim>\<open>jsonb_each\<close> yields nothing for NULL and raises on a value that is not an object.\<close>

definition jsonb_each :: "json option \<Rightarrow> string + (string \<times> json) list" where
  "jsonb_each j =
     (case j of
        None \<Rightarrow> Inr []
      | Some (JObj kvs) \<Rightarrow> Inr kvs
      | Some v \<Rightarrow> Inl ''cannot call jsonb_each on a non-object'')"

definition heatmap_raw_rows :: "raw_row list \<Rightarrow> raw_row list" where
  "heatmap_raw_rows raw =
     filter (\<lambda>r. like_contains ''/pushHeatmap'' (endpoint r) \<and> has_object_data r) raw"

text \<open>The \<^verbatim>\<open>latest\<close> step: per tenant, the snapshot with \<^verbatim>\<open>_rn = 1\<close> under
  \<^verbatim>\<open>ORDER BY loaded_at DESC\<close>. The later steps read these rows only.\<close>

definition heatmap_latest :: "string \<Rightarrow> raw_row list \<Rightarrow> raw_row list" where
  "heatmap_latest tid raw =
     row_number_1 (\<lambda>r. coalesce (tenant_id r) tid) (\<lambda>a b. loaded_at b < loaded_at a)
       (heatmap_raw_rows raw)"

definition dia_orden_of :: "string \<Rightarrow> int" where
  "dia_orden_of weekday_key =
     (if weekday_key = ''monday'' then 1
      else if weekday_key = ''tuesday'' then 2
      else if weekday_key = ''wednesday'' then 3
      else if weekday_key = ''thursday'' then 4
      else if weekday_key = ''friday'' then 5
      else if weekday_key = ''saturday'' then 6
      else if weekday_key = ''sunday'' then 7
      else 0)"

text \<open>The cells of one weekday entry (\<^verbatim>\<open>flattened\<close>), and those of one latest snapshot
  (\<^verbatim>\<open>weekday_entries\<close>, then \<^verbatim>\<open>flattened\<close>).\<close>

definition weekday_cells :: "server \<Rightarrow> string \<Rightarrow> string \<times> json \<Rightarrow> string + flat_cell list" where
  "weekday_cells srv tenant wd =
     (case wd of (weekday_key, weekday_val) \<Rightarrow>
        traverse
          (\<lambda>(hour_key, hour_val).
             and_then (int2_in srv hour_key) (\<lambda>hora.
             and_then (numeric_in srv (text_of srv hour_val)) (\<lambda>v.
             Inr \<lparr>fh_tenant_id = tenant, fh_canal = ''push'', fh_dia_semana = weekday_key,
                  fh_hora = hora, fh_ctr = pg_round (v * 100) 2,
                  fh_dia_orden = dia_orden_of weekday_key\<rparr>)))
          (case weekday_val of JObj hours \<Rightarrow> hours | _ \<Rightarrow> []))"

definition snapshot_cells :: "server \<Rightarrow> string \<Rightarrow> raw_row \<Rightarrow> string + flat_cell list" where
  "snapshot_cells srv tid l =
     and_then (jsonb_each (case arrow (source_data l) ''data'' of
                             None \<Rightarrow> None
                           | Some data \<Rightarrow> arrow data ''weekday-hour''))
       (\<lambda>weekdays.
          and_then (traverse (weekday_cells srv (coalesce (tenant_id l) tid))
                      (filter (\<lambda>(weekday_key, weekday_val). jsonb_typeof weekday_val = ''object'') weekdays))
            (\<lambda>cells. Inr (concat cells)))"

definition HEATMAP_SQL :: "server \<Rightarrow> string \<Rightarrow> raw_row list \<Rightarrow> string + flat_cell list" where
  "HEATMAP_SQL srv tid raw =
     and_then (traverse (snapshot_cells srv tid) (heatmap_latest tid raw))
       (\<lambda>cells. Inr (concat cells))"

definition cell_key :: "cell \<Rightarrow> string \<times> string \<times> string \<times> int" where
  "cell_key r = (h_tenant_id r, h_canal r, h_dia_semana r, h_hora r)"

definition cell_set :: "cell \<Rightarrow> cell \<Rightarrow> cell" where
  "cell_set old excluded = old\<lparr>h_ctr := h_ctr excluded, h_dia_orden := h_dia_orden excluded\<rparr>"

definition cell_values :: "flat_cell \<Rightarrow> cell" where
  "cell_values r =
     \<lparr>h_tenant_id = fh_tenant_id r, h_canal = fh_canal r, h_dia_semana = fh_dia_semana r,
      h_hora = fh_hora r, h_enviados = 0, h_clicks = 0, h_abiertos = 0, h_conversiones = 0,
      h_ctr = fh_ctr r, h_dia_orden = fh_dia_orden r\<rparr>"

definition HEATMAP_UPSERT :: "server \<Rightarrow> flat_cell \<Rightarrow> cell list \<Rightarrow> string + cell list" where
  "HEATMAP_UPSERT srv r tbl =
     insert_on_conflict (rejects_cell srv) cell_key cell_set (cell_values r) tbl"

definition transform_heatmap :: "server \<Rightarrow> db \<Rightarrow> db \<times> (string + int)" where
  "transform_heatmap srv conn =
     (case HEATMAP_SQL srv TENANT_ID (raw_push_stats conn) of
        Inl exc \<Rightarrow> (conn, Inl exc)
      | Inr rows \<Rightarrow>
          (case for_rows (HEATMAP_UPSERT srv) rows (toques_heatmap conn) 0 of
             (tbl, out) \<Rightarrow> (conn\<lparr>toques_heatmap := tbl\<rparr>, out)))"

subsection \<open>Transform: campaigns\<close>

definition campaigns_flattened :: "server \<Rightarrow> string \<Rightarrow> string \<Rightarrow> raw_row list \<Rightarrow> string + flat_campaign list" where
  "campaigns_flattened srv tid app_id raw =
     traverse
       (\<lambda>(r, elem, campana_id).
          and_then (int_or_0 srv elem ''sent'') (\<lambda>total_enviados.
          and_then (int_or_0 srv elem ''delivered'') (\<lambda>total_entregados.
          and_then (int_or_0 srv elem ''clicked'') (\<lambda>total_clicks.
          and_then (cast (date_in srv) (arrow_text srv elem ''startDate'')) (\<lambda>fecha_inicio.
          and_then (cast (date_in srv) (arrow_text srv elem ''endDate'')) (\<lambda>fecha_fin.
          and_then (int_or_0 srv elem ''opened'') (\<lambda>total_abiertos.
          and_then (int_or_0 srv elem ''bounced'') (\<lambda>total_rebotes.
          and_then (int_or_0 srv elem ''blocked'') (\<lambda>total_bloqueados.
          and_then (int_or_0 srv elem ''spam'') (\<lambda>total_spam.
          and_then (int_or_0 srv elem ''unsubscribed'') (\<lambda>total_desuscritos.
          and_then (int_or_0 srv elem ''converted'') (\<lambda>total_conversiones.
          Inr \<lparr>fm_tenant_id = coalesce (tenant_id r) tid,
               fm_campana_id = campana_id,
               fm_campana_nombre =
                 coalesce (coalesce_null (arrow_text srv elem ''name'') (arrow_text srv elem ''title''))
                   ''Sin nombre'',
               fm_canal =
                 coalesce (coalesce_null (arrow_text srv elem ''channel'') (arrow_text srv elem ''type''))
                   ''push'',
               fm_proyecto_cuenta = coalesce (arrow_text srv elem ''applicationId'') app_id,
               fm_tipo_campana = arrow_text srv elem ''status'',
               fm_total_enviados = total_enviados,
               fm_total_entregados = total_entregados,
               fm_total_clicks = total_clicks,
               fm_fecha_inicio = fecha_inicio,
               fm_fecha_fin = fecha_fin,
               fm_total_abiertos = total_abiertos,
               fm_total_rebotes = total_rebotes,
               fm_total_bloqueados = total_bloqueados,
               fm_total_spam = total_spam,
               fm_total_desuscritos = total_desuscritos,
               fm_total_conversiones = total_conversiones,
               fm_loaded_at = loaded_at r\<rparr>))))))))))))
       (concat (map (\<lambda>(r, elem).
                       case coalesce_null (arrow_text srv elem ''id'') (arrow_text srv elem ''campaignId'') of
                         None \<Rightarrow> []
                       | Some campana_id \<Rightarrow> [(r, elem, campana_id)])
                    (elements (filter has_array_data raw))))"

definition flat_campaign_key :: "flat_campaign \<Rightarrow> string \<times> string" where
  "flat_campaign_key r = (fm_tenant_id r, fm_campana_id r)"

definition campaigns_before :: "flat_campaign \<Rightarrow> flat_campaign \<Rightarrow> bool" where
  "campaigns_before a b = (fm_loaded_at b < fm_loaded_at a)"

definition CAMPAIGNS_SQL :: "server \<Rightarrow> string \<Rightarrow> string \<Rightarrow> raw_row list \<Rightarrow> string + flat_campaign list" where
  "CAMPAIGNS_SQL srv tid app_id raw =
     and_then (campaigns_flattened srv tid app_id raw)
       (\<lambda>flattened. Inr (row_number_1 flat_campaign_key campaigns_before flattened))"

definition campaign_key :: "campaign \<Rightarrow> string \<times> string" where
  "campaign_key r = (m_tenant_id r, m_campana_id r)"

definition campaign_set :: "campaign \<Rightarrow> campaign \<Rightarrow> campaign" where
  "campaign_set old excluded =
     old\<lparr>m_campana_nombre := m_campana_nombre excluded,
         m_canal := m_canal excluded,
         m_proyecto_cuenta := m_proyecto_cuenta excluded,
         m_tipo_campana := m_tipo_campana excluded,
         m_total_enviados := m_total_enviados excluded,
         m_total_entregados := m_total_entregados excluded,
         m_total_clicks := m_total_clicks excluded,
         m_fecha_inicio := m_fecha_inicio excluded,
         m_fecha_fin := m_fecha_fin excluded,
         m_total_abiertos := m_total_abiertos excluded,
         m_total_rebotes := m_total_rebotes excluded,
         m_total_bloqueados := m_total_bloqueados excluded,
         m_total_spam := m_total_spam excluded,
         m_total_desuscritos := m_total_desuscritos excluded,
         m_total_conversiones := m_total_conversiones excluded,
         m_ctr := m_ctr excluded,
         m_tasa_entrega := m_tasa_entrega excluded,
         m_open_rate := m_open_rate excluded,
         m_conversion_rate := m_conversion_rate excluded\<rparr>"

definition campaign_values :: "flat_campaign \<Rightarrow> rat \<Rightarrow> rat \<Rightarrow> rat \<Rightarrow> rat \<Rightarrow> campaign" where
  "campaign_values r ctr tasa_entrega open_rate conversion_rate =
     \<lparr>m_tenant_id = fm_tenant_id r, m_campana_id = fm_campana_id r,
      m_campana_nombre = fm_campana_nombre r, m_canal = fm_canal r,
      m_proyecto_cuenta = fm_proyecto_cuenta r, m_tipo_campana = fm_tipo_campana r,
      m_total_enviados = fm_total_enviados r, m_total_entregados = fm_total_entregados r,
      m_total_clicks = fm_total_clicks r, m_total_chunks = 0,
      m_fecha_inicio = fm_fecha_inicio r, m_fecha_fin = fm_fecha_fin r,
      m_total_abiertos = fm_total_abiertos r, m_total_rebotes = fm_total_rebotes r,
      m_total_bloqueados = fm_total_bloqueados r, m_total_spam = fm_total_spam r,
      m_total_desuscritos = fm_total_desuscritos r,
      m_total_conversiones = fm_total_conversiones r,
      m_ctr = ctr, m_tasa_entrega = tasa_entrega, m_open_rate = open_rate,
      m_conversion_rate = conversion_rate\<rparr>"

definition CAMPAIGNS_UPSERT ::
  "server \<Rightarrow> flat_campaign \<Rightarrow> rat \<Rightarrow> rat \<Rightarrow> rat \<Rightarrow> rat \<Rightarrow> campaign list \<Rightarrow> string + campaign list" where
  "CAMPAIGNS_UPSERT srv r ctr tasa_entrega open_rate conversion_rate tbl =
     insert_on_conflict (rejects_campaign srv) campaign_key campaign_set
       (campaign_values r ctr tasa_entrega open_rate conversion_rate) tbl"

definition campaigns_row :: "server \<Rightarrow> flat_campaign \<Rightarrow> campaign list \<Rightarrow> string + campaign list" where
  "campaigns_row srv r tbl =
     (let enviados = fm_total_enviados r; entregados = fm_total_entregados r;
          clicks = fm_total_clicks r; abiertos = fm_total_abiertos r;
          conversiones = fm_total_conversiones r;
          ctr = ratio clicks enviados;
          tasa_entrega = ratio entregados enviados;
          open_rate = ratio abiertos entregados;
          conversion_rate = ratio conversiones clicks
      in CAMPAIGNS_UPSERT srv r ctr tasa_entrega open_rate conversion_rate tbl)"

definition transform_campaigns :: "server \<Rightarrow> db \<Rightarrow> db \<times> (string + int)" where
  "transform_campaigns srv conn =
     (case CAMPAIGNS_SQL srv TENANT_ID APP_ID (raw_campaigns_api conn) of
        Inl exc \<Rightarrow> (conn, Inl exc)
      | Inr rows \<Rightarrow>
          (case for_rows (campaigns_row srv) rows (campaigns conn) 0 of
             (tbl, out) \<Rightarrow> (conn\<lparr>campaigns := tbl\<rparr>, out)))"

subsection \<open>Transform: daily\_stats\<close>

text \<open>\<^verbatim>\<open>SELECT ... sum(enviados) ... FROM public.toques_daily WHERE tenant_id = :tid
  GROUP BY tenant_id, date\<close>: one row per date of the tenant.\<close>

definition DAILY_STATS_SQL :: "string \<Rightarrow> toque list \<Rightarrow> daily_stat list" where
  "DAILY_STATS_SQL tid tbl =
     (let rows = filter (\<lambda>t. t_tenant_id t = tid) tbl
      in map (\<lambda>(tenant, dt).
                \<lparr>d_tenant_id = tenant, d_date = dt,
                 d_total_messages =
                   sum_list (map t_enviados (filter (\<lambda>t. t_tenant_id t = tenant \<and> t_date t = dt) rows)),
                 d_unique_contacts = 0, d_conversations = 0, d_fallback_count = 0\<rparr>)
             (remdups (map (\<lambda>t. (t_tenant_id t, t_date t)) rows)))"

definition daily_stat_key :: "daily_stat \<Rightarrow> string \<times> date" where
  "daily_stat_key r = (d_tenant_id r, d_date r)"

definition daily_stat_set :: "daily_stat \<Rightarrow> daily_stat \<Rightarrow> daily_stat" where
  "daily_stat_set old excluded =
     old\<lparr>d_total_messages := d_total_messages excluded,
         d_unique_contacts := d_unique_contacts excluded,
         d_conversations := d_conversations excluded,
         d_fallback_count := d_fallback_count excluded\<rparr>"

definition DAILY_STATS_UPSERT :: "server \<Rightarrow> daily_stat \<Rightarrow> daily_stat list \<Rightarrow> string + daily_stat list" where
  "DAILY_STATS_UPSERT srv r tbl =
     insert_on_conflict (rejects_daily_stat srv) daily_stat_key daily_stat_set r tbl"

definition transform_daily_stats :: "server \<Rightarrow> db \<Rightarrow> db \<times> (string + int)" where
  "transform_daily_stats srv conn =
     (case for_rows (DAILY_STATS_UPSERT srv) (DAILY_STATS_SQL TENANT_ID (toques_daily conn))
             (daily_stats conn) 0 of
        (tbl, out) \<Rightarrow> (conn\<lparr>daily_stats := tbl\<rparr>, out))"

subsection \<open>Main\<close>

definition TRANSFORMS :: "server \<Rightarrow> (string \<times> (db \<Rightarrow> db \<times> (string + int))) list" where
  "TRANSFORMS srv =
     [(''contacts'', transform_contacts srv),
      (''toques_daily'', transform_toques_daily srv),
      (''toques_heatmap'', transform_heatmap srv),
      (''campaigns'', transform_campaigns srv),
      (''daily_stats'', transform_daily_stats srv)]"

text \<open>
  \<^verbatim>\<open>with engine.begin() as conn: body\<close>: the body starts from the database as it is and
  its writes are committed when it returns, rolled back when it raises. The clock is read
  through a counter \<open>tick\<close> of the readings so far, which a rollback does not undo.
\<close>

definition engine_begin ::
  "(db \<Rightarrow> nat \<Rightarrow> (db \<times> nat) \<times> (string + 'a)) \<Rightarrow> db \<Rightarrow> nat \<Rightarrow> (db \<times> nat) \<times> (string + 'a)" where
  "engine_begin body d tick =
     (case body d tick of
        ((conn, tick'), Inr v) \<Rightarrow> ((conn, tick'), Inr v)
      | ((conn, tick'), Inl exc) \<Rightarrow> ((d, tick'), Inl exc))"

text \<open>The two transactions of one turn of the loop of \<^verbatim>\<open>main\<close>.\<close>

definition transform_and_record ::
  "server \<Rightarrow> (nat \<Rightarrow> timestamp) \<Rightarrow> string \<Rightarrow> (db \<Rightarrow> db \<times> (string + int)) \<Rightarrow> db \<Rightarrow> nat
     \<Rightarrow> (db \<times> nat) \<times> (string + int)" where
  "transform_and_record srv now entity transform_fn conn tick =
     (case transform_fn conn of
        (conn1, Inl exc) \<Rightarrow> ((conn1, tick), Inl exc)
      | (conn1, Inr count) \<Rightarrow>
          (case update_sync_state srv (now tick) entity count ''success'' conn1 of
             Inl exc \<Rightarrow> ((conn1, Suc tick), Inl exc)
           | Inr conn2 \<Rightarrow> ((conn2, Suc tick), Inr count)))"

definition record_error ::
  "server \<Rightarrow> (nat \<Rightarrow> timestamp) \<Rightarrow> string \<Rightarrow> string \<Rightarrow> db \<Rightarrow> nat \<Rightarrow> (db \<times> nat) \<times> (string + unit)" where
  "record_error srv now entity exc conn tick =
     (case update_sync_state srv (now tick) entity 0 (''error: '' @ take 200 exc) conn of
        Inl exc' \<Rightarrow> ((conn, Suc tick), Inl exc')
      | Inr conn' \<Rightarrow> ((conn', Suc tick), Inr ()))"

text \<open>One turn of the loop: the state is the database, the clock counter and the
  \<^verbatim>\<open>results\<close> dict.\<close>

definition run_entity ::
  "server \<Rightarrow> (nat \<Rightarrow> timestamp) \<Rightarrow> (db \<times> nat) \<times> (string \<times> int) list
     \<Rightarrow> string \<times> (db \<Rightarrow> db \<times> (string + int)) \<Rightarrow> (db \<times> nat) \<times> (string \<times> int) list" where
  "run_entity srv now st et =
     (case st of ((d, tick), results) \<Rightarrow>
      (case et of (entity, transform_fn) \<Rightarrow>
       (case engine_begin (transform_and_record srv now entity transform_fn) d tick of
          ((d1, tick1), Inr count) \<Rightarrow> ((d1, tick1), AList.update entity count results)
        | ((d1, tick1), Inl exc) \<Rightarrow>
            (case engine_begin (record_error srv now entity exc) d1 tick1 of
               (s2, Inr u) \<Rightarrow> (s2, AList.update entity (- 1) results)
             | (s2, Inl exc') \<Rightarrow> (s2, AList.update entity (- 1) results)))))"

definition run_all ::
  "server \<Rightarrow> (nat \<Rightarrow> timestamp) \<Rightarrow> (string \<times> (db \<Rightarrow> db \<times> (string + int))) list
     \<Rightarrow> (db \<times> nat) \<times> (string \<times> int) list \<Rightarrow> (db \<times> nat) \<times> (string \<times> int) list" where
  "run_all srv now transforms st = foldl (run_entity srv now) st transforms"

text \<open>\<^verbatim>\<open>main()\<close>: the database it leaves, the \<^verbatim>\<open>results\<close> dict and the exit code.\<close>

definition main :: "server \<Rightarrow> (nat \<Rightarrow> timestamp) \<Rightarrow> db \<Rightarrow> db \<times> (string \<times> int) list \<times> int" where
  "main srv now d =
     (case run_all srv now (TRANSFORMS srv) ((d, 0), []) of
        ((d', tick), results) \<Rightarrow>
          (let total_err = length (filter (\<lambda>(entity, v). v < 0) results)
           in (d', results, if total_err = 0 then 0 else 1)))"

section \<open>The specification's words, as definitions\<close>

text \<open>
  The documents the client returned and the documents stored, in the order of a trace.
\<close>

fun returned_pages :: "event list \<Rightarrow> json list" where
  "returned_pages [] = []"
| "returned_pages (Returned d # es) = d # returned_pages es"
| "returned_pages (e # es) = returned_pages es"

fun stored_pages :: "event list \<Rightarrow> json list" where
  "stored_pages [] = []"
| "stored_pages (Stored s # es) = source_data s # stored_pages es"
| "stored_pages (e # es) = stored_pages es"

text \<open>
  A response is a page with items when it is not \<^verbatim>\<open>None\<close> and what it lists is not empty
  (the loops go past \<^verbatim>\<open>if data is None: break\<close> and \<^verbatim>\<open>if not contacts: break\<close>).
\<close>

definition has_items :: "json \<Rightarrow> bool" where
  "has_items data = (data \<noteq> JNull \<and> py_truthy (items_of data))"

text \<open>
  The outcomes of a request that end a pagination loop: the client raised; the response
  is not a page with items; the items have no length (\<^verbatim>\<open>len\<close> raises); or there are fewer
  items than the page size.
\<close>

definition ends_loop :: "int \<Rightarrow> string + json \<Rightarrow> bool" where
  "ends_loop page_size out =
     (case out of
        Inl exc \<Rightarrow> True
      | Inr data \<Rightarrow>
          \<not> has_items data
          \<or> (case py_len (items_of data) of Inl exc \<Rightarrow> True | Inr n \<Rightarrow> int n < page_size))"

text \<open>
  The request for one page, and the requests the three loops would make if nothing ended
  them: \<open>MAX_PAGES\<close> pages, numbered from 0 (contacts, campaigns) or at offsets that grow by
  the page size (chat).
\<close>

definition page_request :: "string \<Rightarrow> string \<Rightarrow> int \<Rightarrow> string \<times> param \<Rightarrow> request" where
  "page_request ep app_id page_size cursor =
     \<lparr>req_path = ep,
      req_params = [(''applicationId'', PStr app_id), (''limit'', PInt page_size), cursor],
      req_application_id = app_id\<rparr>"

definition contacts_requests :: "string \<Rightarrow> int \<Rightarrow> request list" where
  "contacts_requests app_id page_size =
     map (\<lambda>p. page_request ''/v1/chat/contacts'' app_id page_size (''page'', PInt (int p)))
       [0..<MAX_PAGES]"

definition campaigns_requests :: "string \<Rightarrow> int \<Rightarrow> request list" where
  "campaigns_requests app_id page_size =
     map (\<lambda>p. page_request ''/v1/campaign'' app_id page_size (''page'', PInt (int p)))
       [0..<MAX_PAGES]"

definition chat_requests :: "string \<Rightarrow> int \<Rightarrow> request list" where
  "chat_requests app_id page_size =
     map (\<lambda>p. page_request ''/v1/chat/contacts'' app_id page_size (''offset'', PInt (int p * page_size)))
       [0..<MAX_PAGES]"

text \<open>
  What the client answers to a sequence of requests sent one after the other, the first
  of them after \<open>c\<close> earlier requests; and the number of them that a loop sends: those up to
  and including the first whose answer ends the loop, all of them when no answer does.
\<close>

definition answers :: "extractor \<Rightarrow> nat \<Rightarrow> request list \<Rightarrow> (string + json) list" where
  "answers self c reqs = map (\<lambda>(j, r). client self j r) (enumerate c reqs)"

definition requests_made :: "int \<Rightarrow> (string + json) list \<Rightarrow> nat" where
  "requests_made page_size outs =
     min (length outs) (Suc (length (takeWhile (\<lambda>out. \<not> ends_loop page_size out) outs)))"

text \<open>The pages with items among a list of answers.\<close>

definition pages_with_items :: "(string + json) list \<Rightarrow> json list" where
  "pages_with_items outs =
     concat (map (\<lambda>out. case out of Inl exc \<Rightarrow> [] | Inr data \<Rightarrow> if has_items data then [data] else []) outs)"

text \<open>
  The events of one turn of a loop: the request, what came back, and, for a page with
  items, the snapshot that holds it, the \<open>k\<close>-th of the raw table.
\<close>

definition page_block :: "extractor \<Rightarrow> string \<Rightarrow> nat \<Rightarrow> request \<Rightarrow> string + json \<Rightarrow> event list" where
  "page_block self app_id k req out =
     Called req #
     (case out of
        Inl exc \<Rightarrow> [Raised exc]
      | Inr data \<Rightarrow>
          Returned data #
          (if has_items data
           then [Stored \<lparr>tenant_id = ext_tenant_id self, application_id = Some app_id,
                         endpoint = req_path req, date_from = Some (date_from_str self),
                         date_to = Some (date_to_str self), loaded_at = ext_clock self k,
                         source_data = data\<rparr>]
           else []))"

text \<open>
  The events of the spec's PageLoop, \<open>Fetching \<rightarrow> Stored \<rightarrow> (Continue | Stop)\<close>, over a sequence
  of requests: the first is sent after \<open>c\<close> earlier requests and finds \<open>k\<close> snapshots stored;
  the loop goes on to the next request unless the answer ends it. An answer that does not
  end the loop is a page with items, so one more snapshot is stored by then.
\<close>

fun loop_events :: "extractor \<Rightarrow> string \<Rightarrow> int \<Rightarrow> nat \<Rightarrow> nat \<Rightarrow> request list \<Rightarrow> event list" where
  "loop_events self app_id page_size c k [] = []"
| "loop_events self app_id page_size c k (r # rs) =
     page_block self app_id k r (client self c r)
     @ (if ends_loop page_size (client self c r) then []
        else loop_events self app_id page_size (Suc c) (Suc k) rs)"



text \<open>The number of requests a trace has for one path, and of snapshots for one endpoint.\<close>

definition calls_to :: "string \<Rightarrow> event list \<Rightarrow> nat" where
  "calls_to p tr = length (filter (\<lambda>e. case e of Called r \<Rightarrow> req_path r = p | _ \<Rightarrow> False) tr)"

definition snapshots_of :: "string \<Rightarrow> event list \<Rightarrow> nat" where
  "snapshots_of p tr = length (filter (\<lambda>e. case e of Stored s \<Rightarrow> endpoint s = p | _ \<Rightarrow> False) tr)"

text \<open>The table that a run of upserts leaves when none of them raises.\<close>

definition upsert_all :: "('t \<Rightarrow> 'k) \<Rightarrow> ('t \<Rightarrow> 't \<Rightarrow> 't) \<Rightarrow> 't list \<Rightarrow> 't list \<Rightarrow> 't list" where
  "upsert_all key do_update xs tbl = foldl (\<lambda>t x. upserted key do_update x t) tbl xs"

text \<open>The values of an \<^verbatim>\<open>int\<close> column: 32 bits. The counters of the selected rows are
  results of \<^verbatim>\<open>::int\<close> casts.\<close>

definition int4 :: "int \<Rightarrow> bool" where
  "int4 n = (- 2147483648 \<le> n \<and> n \<le> 2147483647)"

text \<open>The row that the loop of a transform proposes for a selected row: the selected
  columns, the literals of the \<^verbatim>\<open>VALUES\<close> clause and the ratios computed in Python.\<close>

definition toque_proposed :: "flat_toque \<Rightarrow> toque" where
  "toque_proposed r =
     toque_values r (ratio (ft_clicks r) (ft_enviados r)) (ratio (ft_entregados r) (ft_enviados r))
       (ratio (ft_abiertos r) (ft_entregados r))"

definition campaign_proposed :: "flat_campaign \<Rightarrow> campaign" where
  "campaign_proposed r =
     campaign_values r (ratio (fm_total_clicks r) (fm_total_enviados r))
       (ratio (fm_total_entregados r) (fm_total_enviados r))
       (ratio (fm_total_abiertos r) (fm_total_entregados r))
       (ratio (fm_total_conversiones r) (fm_total_clicks r))"

text \<open>The two rows that \<^verbatim>\<open>main\<close> writes to \<^verbatim>\<open>sync_state\<close>: after a transform that returned
  \<open>records\<close>, and after one that raised \<open>exc\<close>.\<close>

definition success_row :: "timestamp \<Rightarrow> string \<Rightarrow> int \<Rightarrow> sync_row" where
  "success_row ts entity records =
     \<lparr>ss_tenant_id = TENANT_ID, ss_entity = entity, ss_last_sync_at = ts,
      ss_records_synced = records, ss_status = ''success''\<rparr>"

definition error_row :: "timestamp \<Rightarrow> string \<Rightarrow> string \<Rightarrow> sync_row" where
  "error_row ts entity exc =
     \<lparr>ss_tenant_id = TENANT_ID, ss_entity = entity, ss_last_sync_at = ts,
      ss_records_synced = 0, ss_status = ''error: '' @ take 200 exc\<rparr>"

text \<open>The rows of \<^verbatim>\<open>sync_state\<close> for one entity of the tenant.\<close>

definition sync_rows :: "db \<Rightarrow> string \<Rightarrow> sync_row list" where
  "sync_rows d entity = filter (\<lambda>r. sync_key r = (TENANT_ID, entity)) (sync_state d)"

text \<open>
  The five transforms have one shape: run the staging query, then upsert each selected row
  into the entity's table.
\<close>

definition table_transform ::
  "(db \<Rightarrow> string + 'p list) \<Rightarrow> ('p \<Rightarrow> 't list \<Rightarrow> string + 't list) \<Rightarrow> (db \<Rightarrow> 't list)
     \<Rightarrow> ('t list \<Rightarrow> db \<Rightarrow> db) \<Rightarrow> db \<Rightarrow> db \<times> (string + int)" where
  "table_transform sql stmt get put conn =
     (case sql conn of
        Inl exc \<Rightarrow> (conn, Inl exc)
      | Inr rows \<Rightarrow> (case for_rows stmt rows (get conn) 0 of (tbl, out) \<Rightarrow> (put tbl conn, out)))"

text \<open>
  What one turn of the loop of \<^verbatim>\<open>main\<close> leaves for such a transform, given what the staging
  query returned (\<open>sel\<close>), the table and \<^verbatim>\<open>sync_state\<close> before (\<open>tbl0\<close>, \<open>sync0\<close>): the
  result \<open>c\<close> of the entity, the table and \<^verbatim>\<open>sync_state\<close> after. Either the turn failed: the
  result is \<open>- 1\<close>, the table is as it was, and \<^verbatim>\<open>sync_state\<close> has the error row, or is as it
  was when the table refused that row. Or the turn committed: every selected row was upserted
  and the success row, which the table accepted, is written. The turn fails when the query
  raises and when the table refuses a proposed row, and commits when neither happens and
  \<^verbatim>\<open>sync_state\<close> refuses no success row of that count.
\<close>

definition turn_outcome ::
  "server \<Rightarrow> string \<Rightarrow> (string + 'p list) \<Rightarrow> ('t \<Rightarrow> string option) \<Rightarrow> ('p \<Rightarrow> 't) \<Rightarrow> ('t \<Rightarrow> 'k)
     \<Rightarrow> ('t \<Rightarrow> 't \<Rightarrow> 't) \<Rightarrow> 't list \<Rightarrow> sync_row list \<Rightarrow> int \<Rightarrow> 't list \<Rightarrow> sync_row list \<Rightarrow> bool" where
  "turn_outcome srv entity sel rejects vals key do_update tbl0 sync0 c tbl sync =
     (((c = - 1 \<and> tbl = tbl0
        \<and> ((sync = sync0 \<and> (\<exists>ts exc. rejects_sync_row srv (error_row ts entity exc) \<noteq> None))
            \<or> (\<exists>ts exc. rejects_sync_row srv (error_row ts entity exc) = None
                  \<and> sync = upserted sync_key sync_set (error_row ts entity exc) sync0)))
       \<or> (\<exists>rows ts. sel = Inr rows \<and> (\<forall>r\<in>set rows. rejects (vals r) = None)
              \<and> c = int (length rows)
              \<and> tbl = upsert_all key do_update (map vals rows) tbl0
              \<and> rejects_sync_row srv (success_row ts entity c) = None
              \<and> sync = upserted sync_key sync_set (success_row ts entity c) sync0))
      \<and> (\<forall>exc. sel = Inl exc \<longrightarrow> c = - 1)
      \<and> (\<forall>rows. sel = Inr rows \<longrightarrow> \<not> (\<forall>r\<in>set rows. rejects (vals r) = None) \<longrightarrow> c = - 1)
      \<and> (\<forall>rows. sel = Inr rows \<longrightarrow> (\<forall>r\<in>set rows. rejects (vals r) = None) \<longrightarrow>
            (\<forall>ts. rejects_sync_row srv (success_row ts entity (int (length rows))) = None) \<longrightarrow>
            c = int (length rows)))"

text \<open>The database as the transform of an entity reads it in a run of \<^verbatim>\<open>main\<close> that started at
  \<open>d\<close> and ended at \<open>d'\<close>: the raw tables and its own table are those of the start, and
  \<^verbatim>\<open>daily_stats\<close> reads \<^verbatim>\<open>toques_daily\<close> as the run left it.\<close>

definition turn_input :: "string \<Rightarrow> db \<Rightarrow> db \<Rightarrow> db" where
  "turn_input entity d d' =
     (if entity = ''daily_stats'' then d\<lparr>toques_daily := toques_daily d'\<rparr> else d)"

section \<open>Example data\<close>

text \<open>A database with no rows, and two servers for the worked examples: one whose tables
  accept every row, and one whose \<^verbatim>\<open>sync_state.status\<close> column holds twenty characters.
  Their casts know the texts the examples use.\<close>

definition empty_db :: db where
  "empty_db =
     \<lparr>raw_contacts_api = [], raw_push_stats = [], raw_campaigns_api = [],
      contacts = [], toques_daily = [], toques_heatmap = [], campaigns = [],
      daily_stats = [], sync_state = []\<rparr>"

definition example_int_in :: "string \<Rightarrow> string + int" where
  "example_int_in s =
     (case map_of [(''0'', 0), (''1'', 1), (''2'', 2), (''3'', 3), (''4'', 4), (''5'', 5),
                   (''10'', 10), (''11'', 11), (''40'', 40), (''50'', 50), (''100'', 100), (''-5'', - 5)] s of
        Some n \<Rightarrow> Inr n
      | None \<Rightarrow> Inl (''invalid input syntax for type integer: '' @ s))"

definition example_date_in :: "string \<Rightarrow> string + date" where
  "example_date_in s =
     (case map_of [(''2024-05-01'', 19844), (''2024-05-02'', 19845), (''2024-05-03'', 19846),
                   (''2024-05-01T10:00:00Z'', 19844), (''2024-05-02T10:00:00Z'', 19845),
                   (''2024-05-03T10:00:00Z'', 19846)] s of
        Some d \<Rightarrow> Inr d
      | None \<Rightarrow> Inl (''invalid input syntax for type date: '' @ s))"

definition example_text_of :: "json \<Rightarrow> string" where
  "example_text_of v =
     (if v = JNum 0 then ''0'' else if v = JNum 1 then ''1'' else if v = JNum 2 then ''2''
      else if v = JNum 4 then ''4'' else if v = JNum 5 then ''5'' else if v = JNum 10 then ''10''
      else if v = JNum 40 then ''40'' else if v = JNum 50 then ''50''
      else if v = JNum 100 then ''100'' else if v = JNum (- 5) then ''-5''
      else if v = JNum (1 / 8) then ''0.125'' else if v = JNum (1 / 4) then ''0.25''
      else ''null'')"

definition example_numeric_in :: "string \<Rightarrow> string + rat" where
  "example_numeric_in s =
     (if s = ''0.125'' then Inr (1 / 8) else if s = ''0.25'' then Inr (1 / 4)
      else if s = ''0'' then Inr 0 else if s = ''1'' then Inr 1
      else Inl (''invalid input syntax for type numeric: '' @ s))"

definition example_server :: server where
  "example_server =
     \<lparr>text_of = example_text_of, int4_in = example_int_in, int2_in = example_int_in,
      date_in = example_date_in, timestamptz_date_in = example_date_in,
      numeric_in = example_numeric_in,
      rejects_sync_row = (\<lambda>r. None), rejects_contact = (\<lambda>r. None), rejects_toque = (\<lambda>r. None),
      rejects_cell = (\<lambda>r. None), rejects_campaign = (\<lambda>r. None),
      rejects_daily_stat = (\<lambda>r. None)\<rparr>"

definition narrow_server :: server where
  "narrow_server =
     example_server
       \<lparr>rejects_sync_row :=
          (\<lambda>r. if 20 < length (ss_status r)
                then Some ''value too long for type character varying(20)'' else None)\<rparr>"

definition example_sync_row :: sync_row where
  "example_sync_row =
     \<lparr>ss_tenant_id = ''visionamos'', ss_entity = ''contacts'', ss_last_sync_at = 1,
      ss_records_synced = 5, ss_status = ''success''\<rparr>"

definition example_flat_toque :: "int \<Rightarrow> int \<Rightarrow> int \<Rightarrow> int \<Rightarrow> timestamp \<Rightarrow> flat_toque" where
  "example_flat_toque enviados entregados abiertos clicks t =
     \<lparr>ft_tenant_id = ''visionamos'', ft_date = 19844, ft_canal = ''android'',
      ft_proyecto_cuenta = ''100274'', ft_enviados = enviados, ft_entregados = entregados,
      ft_abiertos = abiertos, ft_clicks = clicks, ft_loaded_at = t\<rparr>"

definition example_flat_campaign :: "int \<Rightarrow> int \<Rightarrow> int \<Rightarrow> int \<Rightarrow> int \<Rightarrow> timestamp \<Rightarrow> flat_campaign" where
  "example_flat_campaign enviados entregados clicks abiertos conversiones t =
     \<lparr>fm_tenant_id = ''visionamos'', fm_campana_id = ''c-1'', fm_campana_nombre = ''Sin nombre'',
      fm_canal = ''push'', fm_proyecto_cuenta = ''100274'', fm_tipo_campana = None,
      fm_total_enviados = enviados, fm_total_entregados = entregados, fm_total_clicks = clicks,
      fm_fecha_inicio = None, fm_fecha_fin = None, fm_total_abiertos = abiertos,
      fm_total_rebotes = 0, fm_total_bloqueados = 0, fm_total_spam = 0,
      fm_total_desuscritos = 0, fm_total_conversiones = conversiones, fm_loaded_at = t\<rparr>"

definition example_flat_contact :: "string option \<Rightarrow> date option \<Rightarrow> date option \<Rightarrow> timestamp \<Rightarrow> flat_contact" where
  "example_flat_contact name first_contact last_contact t =
     \<lparr>fc_tenant_id = ''visionamos'', fc_contact_id = ''573054821614'', fc_contact_name = name,
      fc_first_contact = first_contact, fc_last_contact = last_contact, fc_loaded_at = t\<rparr>"

text \<open>A service whose \<open>n\<close>-th answer is a page with \<open>sizes ! n\<close> contacts, and an empty page
  after the last of them.\<close>

definition example_page :: "nat \<Rightarrow> json" where
  "example_page n = JObj [(''data'', JArr (replicate n (JObj [(''contactId'', JStr ''573054821614'')])))]"

definition example_extractor :: "nat list \<Rightarrow> extractor" where
  "example_extractor sizes =
     \<lparr>client = (\<lambda>n req. if n < length sizes then Inr (example_page (sizes ! n)) else Inr (example_page 0)),
      ext_tenant_id = Some ''visionamos'', date_from_str = ''2024-05-01'',
      date_to_str = ''2024-05-02'', ext_clock = (\<lambda>n. int n)\<rparr>"

text \<open>A service that answers the first request with a full page of 50 contacts and
  every later one with \<open>out\<close>.\<close>

definition flaky_extractor :: "string + json \<Rightarrow> extractor" where
  "flaky_extractor out =
     \<lparr>client = (\<lambda>n req. if n = 0 then Inr (example_page 50) else out),
      ext_tenant_id = Some ''visionamos'', date_from_str = ''2024-05-01'',
      date_to_str = ''2024-05-02'', ext_clock = (\<lambda>n. int n)\<rparr>"

definition example_request :: "int \<Rightarrow> nat \<Rightarrow> request" where
  "example_request page_size k =
     \<lparr>req_path = ''/v1/chat/contacts'',
      req_params = [(''applicationId'', PStr ''100274''), (''limit'', PInt page_size),
                    (''page'', PInt (int k))],
      req_application_id = ''100274''\<rparr>"

definition example_snapshot :: "nat \<Rightarrow> nat \<Rightarrow> raw_row" where
  "example_snapshot k n =
     \<lparr>tenant_id = Some ''visionamos'', application_id = Some ''100274'',
      endpoint = ''/v1/chat/contacts'', date_from = Some ''2024-05-01'',
      date_to = Some ''2024-05-02'', loaded_at = int k, source_data = example_page n\<rparr>"

text \<open>A stored page of \<^verbatim>\<open>/v1/chat/contacts\<close> with one contact, loaded at \<open>t\<close>.\<close>

definition contact_snapshot :: "timestamp \<Rightarrow> string \<Rightarrow> string option \<Rightarrow> raw_row" where
  "contact_snapshot t name updated_at =
     \<lparr>tenant_id = Some ''visionamos'', application_id = Some ''100274'',
      endpoint = ''/v1/chat/contacts'', date_from = None, date_to = None, loaded_at = t,
      source_data =
        JObj [(''data'',
               JArr [JObj ([(''contactId'', JStr ''573054821614''), (''profileName'', JStr name)]
                           @ (case updated_at of None \<Rightarrow> [] | Some u \<Rightarrow> [(''updatedAt'', JStr u)]))])]\<rparr>"

text \<open>A stored answer of the daily push statistics with one element, loaded at \<open>t\<close>; a stored
  heatmap; a stored page of campaigns with one campaign.\<close>

definition stats_snapshot :: "timestamp \<Rightarrow> rat \<Rightarrow> raw_row" where
  "stats_snapshot t sent =
     \<lparr>tenant_id = Some ''visionamos'', application_id = Some ''100274'',
      endpoint = ''/v1/application/100274/dateStats'', date_from = Some ''2024-05-01'',
      date_to = Some ''2024-05-02'', loaded_at = t,
      source_data =
        JObj [(''data'',
               JArr [JObj [(''platformGroup'', JStr ''android''), (''statsDate'', JStr ''2024-05-01''),
                           (''numDevicesSent'', JNum sent), (''numDevicesSuccess'', JNum 4),
                           (''numDevicesReceived'', JNum 2), (''numDevicesClicked'', JNum 1)]])]\<rparr>"

definition heatmap_snapshot :: "timestamp \<Rightarrow> (string \<times> json) list \<Rightarrow> raw_row" where
  "heatmap_snapshot t weekdays =
     \<lparr>tenant_id = Some ''visionamos'', application_id = Some ''100274'',
      endpoint = ''/v1/application/100274/pushHeatmap'', date_from = Some ''2024-05-01'',
      date_to = Some ''2024-05-02'', loaded_at = t,
      source_data = JObj [(''data'', JObj [(''weekday-hour'', JObj weekdays)])]\<rparr>"

definition campaign_snapshot :: "timestamp \<Rightarrow> json \<Rightarrow> raw_row" where
  "campaign_snapshot t sent =
     \<lparr>tenant_id = Some ''visionamos'', application_id = Some ''100274'',
      endpoint = ''/v1/campaign'', date_from = None, date_to = None, loaded_at = t,
      source_data =
        JObj [(''data'', JArr [JObj [(''id'', JStr ''c-1''), (''name'', JStr ''Mayo''),
                                     (''sent'', sent), (''delivered'', JNum 4)]])]\<rparr>"

definition example_flat_cell :: "int \<Rightarrow> rat \<Rightarrow> flat_cell" where
  "example_flat_cell hora ctr =
     \<lparr>fh_tenant_id = ''visionamos'', fh_canal = ''push'', fh_dia_semana = ''monday'',
      fh_hora = hora, fh_ctr = ctr, fh_dia_orden = 1\<rparr>"

text \<open>Two stored heatmaps: the older has Monday 10h and 11h, the newer Monday 10h only.\<close>

definition example_heatmaps :: "raw_row list" where
  "example_heatmaps =
     [heatmap_snapshot 1 [(''monday'', JObj [(''10'', JNum (1 / 8)), (''11'', JNum (1 / 4))])],
      heatmap_snapshot 2 [(''monday'', JObj [(''10'', JNum (1 / 4))])]]"

text \<open>A database whose only contact snapshot has an \<^verbatim>\<open>updatedAt\<close> that is not a timestamp, and
  whose \<^verbatim>\<open>sync_state\<close> remembers a run that wrote five contacts.\<close>

definition bad_contacts_db :: db where
  "bad_contacts_db =
     empty_db\<lparr>raw_contacts_api := [contact_snapshot 1 ''Gise'' (Some ''n/a'')],
              sync_state := [example_sync_row]\<rparr>"

text \<open>Stored answers of the push statistics: the two heatmaps above, then, loaded later, an
  answer of another endpoint whose \<^verbatim>\<open>data\<close> is an object. And a heatmap followed by a later
  answer of \<^verbatim>\<open>pushHeatmap\<close> whose \<^verbatim>\<open>data\<close> is an empty array.\<close>

definition heatmaps_and_stats :: "raw_row list" where
  "heatmaps_and_stats =
     example_heatmaps
     @ [(heatmap_snapshot 3 [(''monday'', JObj [(''10'', JNum (1 / 8))])])
          \<lparr>endpoint := ''/v1/application/100274/dateStats''\<rparr>]"

definition heatmap_then_empty :: "raw_row list" where
  "heatmap_then_empty =
     [heatmap_snapshot 1 [(''monday'', JObj [(''10'', JNum (1 / 8))])],
      (heatmap_snapshot 2 [])\<lparr>source_data := JObj [(''data'', JArr [])]\<rparr>]"

text \<open>A database with one stored answer of each kind and empty normalized tables; \<open>sent\<close> is
  the \<^verbatim>\<open>sent\<close> field of its one campaign. And the clock of the worked runs of \<^verbatim>\<open>main\<close>: the
  \<open>n\<close>-th reading is \<open>100 + n\<close>.\<close>

definition run_db :: "json \<Rightarrow> db" where
  "run_db sent =
     empty_db\<lparr>raw_contacts_api := [contact_snapshot 1 ''Gise'' (Some ''2024-05-02T10:00:00Z'')],
              raw_push_stats := stats_snapshot 1 4 # example_heatmaps,
              raw_campaigns_api := [campaign_snapshot 1 sent]\<rparr>"

definition example_now :: "nat \<Rightarrow> timestamp" where
  "example_now n = 100 + int n"

section \<open>Properties of the statements\<close>

subsection \<open>INSERT ... ON CONFLICT\<close>

lemma ioc_Inr:
  "insert_on_conflict rej key upd x tbl = Inr tbl' \<longleftrightarrow>
     rej x = None \<and>
     tbl' = (if key x \<in> key ` set tbl
             then map (\<lambda>r. if key r = key x then upd r x else r) tbl else tbl @ [x])"
  by (auto simp: insert_on_conflict_def upserted_def list_ex_iff image_iff split: option.splits)

lemma ioc_Inl:
  "insert_on_conflict rej key upd x tbl = Inl msg \<longleftrightarrow> rej x = Some msg"
  by (auto simp: insert_on_conflict_def split: option.splits)

lemma map_key_update:
  assumes "\<And>old. key (upd old x) = key old"
  shows "map key (map (\<lambda>r. if key r = key x then upd r x else r) tbl) = map key tbl"
  using assms by (induction tbl) auto

lemma ioc_keys:
  assumes "insert_on_conflict rej key upd x tbl = Inr tbl'"
      and "\<And>old. key (upd old x) = key old"
  shows "map key tbl' = (if key x \<in> key ` set tbl then map key tbl else map key tbl @ [key x])"
proof -
  have "map key (map (\<lambda>r. if key r = key x then upd r x else r) tbl) = map key tbl"
    by (rule map_key_update) (rule assms(2))
  with assms(1) show ?thesis by (auto simp: ioc_Inr)
qed

lemma ioc_distinct:
  assumes "insert_on_conflict rej key upd x tbl = Inr tbl'"
      and "\<And>old. key (upd old x) = key old"
      and "distinct (map key tbl)"
  shows "distinct (map key tbl')"
proof -
  have "map key tbl' = (if key x \<in> key ` set tbl then map key tbl else map key tbl @ [key x])"
    by (rule ioc_keys[where rej=rej and upd=upd]) (rule assms)+
  with assms(3) show ?thesis by (simp split: if_splits)
qed

lemma ioc_others:
  assumes "insert_on_conflict rej key upd x tbl = Inr tbl'"
      and "\<And>old. key (upd old x) = key old"
  shows "filter (\<lambda>r. key r \<noteq> key x) tbl' = filter (\<lambda>r. key r \<noteq> key x) tbl"
proof -
  have "filter (\<lambda>r. key r \<noteq> key x) (map (\<lambda>r. if key r = key x then upd r x else r) tbl)
        = filter (\<lambda>r. key r \<noteq> key x) tbl"
    using assms(2) by (induction tbl) auto
  with assms(1) show ?thesis by (auto simp: ioc_Inr)
qed

lemma ioc_hit:
  assumes "insert_on_conflict rej key upd x tbl = Inr tbl'"
      and "\<And>old. key (upd old x) = key old"
  shows "filter (\<lambda>r. key r = key x) tbl' =
           (if key x \<in> key ` set tbl then map (\<lambda>r. upd r x) (filter (\<lambda>r. key r = key x) tbl) else [x])"
proof -
  have "filter (\<lambda>r. key r = key x) (map (\<lambda>r. if key r = key x then upd r x else r) tbl)
        = map (\<lambda>r. upd r x) (filter (\<lambda>r. key r = key x) tbl)"
    using assms(2) by (induction tbl) auto
  moreover have "key x \<notin> key ` set tbl \<Longrightarrow> filter (\<lambda>r. key r = key x) tbl = []"
    by (induction tbl) auto
  ultimately show ?thesis using assms(1) by (auto simp: ioc_Inr)
qed

lemma distinct_key_filter:
  assumes "distinct (map key tbl)" "k \<in> key ` set tbl"
  shows "\<exists>r. filter (\<lambda>r. key r = k) tbl = [r]"
  using assms
proof (induction tbl)
  case Nil then show ?case by simp
next
  case (Cons a tbl)
  show ?case
  proof (cases "key a = k")
    case True
    with Cons.prems have "k \<notin> key ` set tbl" by auto
    then have "filter (\<lambda>r. key r = k) tbl = []"
      by (auto simp: filter_empty_conv)
    with True show ?thesis by simp
  next
    case False
    with Cons show ?thesis by auto
  qed
qed

lemma sync_set_key: "sync_key (sync_set old x) = sync_key old"
  by (simp add: sync_key_def sync_set_def)

lemma uss_Inr:
  "update_sync_state srv ts entity records status conn = Inr conn' \<longleftrightarrow>
    (\<exists>tbl. insert_on_conflict (rejects_sync_row srv) sync_key sync_set
          \<lparr>ss_tenant_id = TENANT_ID, ss_entity = entity, ss_last_sync_at = ts,
           ss_records_synced = records, ss_status = status\<rparr> (sync_state conn) = Inr tbl
       \<and> conn' = conn\<lparr>sync_state := tbl\<rparr>)"
  by (auto simp: update_sync_state_def and_then_def split: sum.splits)

lemma update_sync_state_upsert:
  assumes "distinct (map sync_key (sync_state conn))"
      and "update_sync_state srv ts entity records status conn = Inr conn'"
  shows "distinct (map sync_key (sync_state conn'))
       \<and> sync_key ` set (sync_state conn') = insert (TENANT_ID, entity) (sync_key ` set (sync_state conn))
       \<and> (\<exists>r. filter (\<lambda>r. sync_key r = (TENANT_ID, entity)) (sync_state conn') = [r]
             \<and> ss_last_sync_at r = ts \<and> ss_records_synced r = records \<and> ss_status r = status)
       \<and> filter (\<lambda>r. sync_key r \<noteq> (TENANT_ID, entity)) (sync_state conn')
           = filter (\<lambda>r. sync_key r \<noteq> (TENANT_ID, entity)) (sync_state conn)
       \<and> length (sync_state conn') =
           (if (TENANT_ID, entity) \<in> sync_key ` set (sync_state conn)
            then length (sync_state conn) else Suc (length (sync_state conn)))
       \<and> conn'\<lparr>sync_state := sync_state conn\<rparr> = conn"
proof -
  define x where "x = \<lparr>ss_tenant_id = TENANT_ID, ss_entity = entity, ss_last_sync_at = ts,
           ss_records_synced = records, ss_status = status\<rparr>"
  from assms(2) obtain tbl where
    ioc: "insert_on_conflict (rejects_sync_row srv) sync_key sync_set x (sync_state conn) = Inr tbl"
    and conn': "conn' = conn\<lparr>sync_state := tbl\<rparr>"
    unfolding uss_Inr x_def by blast
  have kx: "sync_key x = (TENANT_ID, entity)" by (simp add: x_def sync_key_def)
  have keys: "map sync_key tbl = (if sync_key x \<in> sync_key ` set (sync_state conn)
      then map sync_key (sync_state conn) else map sync_key (sync_state conn) @ [sync_key x])"
    by (rule ioc_keys[where rej="rejects_sync_row srv" and upd=sync_set]) (rule ioc, rule sync_set_key)
  have d: "distinct (map sync_key tbl)"
    by (rule ioc_distinct[where rej="rejects_sync_row srv" and upd=sync_set and x=x and tbl="sync_state conn"])
       (rule ioc, rule sync_set_key, rule assms(1))
  have ks: "sync_key ` set tbl = insert (TENANT_ID, entity) (sync_key ` set (sync_state conn))"
  proof -
    have "set (map sync_key tbl) = insert (sync_key x) (set (map sync_key (sync_state conn)))"
      unfolding keys by auto
    then show ?thesis by (simp add: kx)
  qed
  have len: "length tbl = (if (TENANT_ID, entity) \<in> sync_key ` set (sync_state conn)
            then length (sync_state conn) else Suc (length (sync_state conn)))"
  proof -
    have "length (map sync_key tbl) = (if sync_key x \<in> sync_key ` set (sync_state conn)
            then length (sync_state conn) else Suc (length (sync_state conn)))"
      unfolding keys by simp
    then show ?thesis by (simp add: kx)
  qed
  have oth: "filter (\<lambda>r. sync_key r \<noteq> (TENANT_ID, entity)) tbl
           = filter (\<lambda>r. sync_key r \<noteq> (TENANT_ID, entity)) (sync_state conn)"
    using ioc_others[where rej="rejects_sync_row srv" and upd=sync_set and key=sync_key and x=x and tbl="sync_state conn" and tbl'=tbl, OF ioc sync_set_key] by (simp add: kx)
  have hit: "\<exists>r. filter (\<lambda>r. sync_key r = (TENANT_ID, entity)) tbl = [r]
             \<and> ss_last_sync_at r = ts \<and> ss_records_synced r = records \<and> ss_status r = status"
  proof (cases "sync_key x \<in> sync_key ` set (sync_state conn)")
    case True
    from distinct_key_filter[where key=sync_key and tbl="sync_state conn" and k="sync_key x", OF assms(1) True] obtain old where
      "filter (\<lambda>r. sync_key r = sync_key x) (sync_state conn) = [old]" by blast
    with ioc_hit[where rej="rejects_sync_row srv" and upd=sync_set and key=sync_key and x=x and tbl="sync_state conn" and tbl'=tbl, OF ioc sync_set_key] True
    have "filter (\<lambda>r. sync_key r = sync_key x) tbl = [sync_set old x]" by simp
    then have "filter (\<lambda>r. sync_key r = (TENANT_ID, entity)) tbl = [sync_set old x]"
      by (simp only: kx)
    then show ?thesis by (simp add: sync_set_def x_def)
  next
    case False
    with ioc_hit[where rej="rejects_sync_row srv" and upd=sync_set and key=sync_key and x=x and tbl="sync_state conn" and tbl'=tbl, OF ioc sync_set_key]
    have "filter (\<lambda>r. sync_key r = sync_key x) tbl = [x]" by simp
    then have "filter (\<lambda>r. sync_key r = (TENANT_ID, entity)) tbl = [x]"
      by (simp only: kx)
    then show ?thesis by (simp add: x_def)
  qed
  show ?thesis using d ks hit oth len by (simp add: conn')
qed

subsection \<open>Derived ratios\<close>

lemma ioc_row_after:
  assumes "insert_on_conflict rej key upd x tbl = Inr tbl'"
      and "y \<in> set tbl'" and "key y = key x"
  shows "y = x \<or> (\<exists>old\<in>set tbl. y = upd old x)"
  using assms by (auto simp: ioc_Inr image_iff split: if_splits)

lemma ioc_key_present:
  assumes "insert_on_conflict rej key upd x tbl = Inr tbl'"
      and "\<And>old. key (upd old x) = key old"
  shows "key x \<in> key ` set tbl'"
proof -
  have "map key tbl' = (if key x \<in> key ` set tbl then map key tbl else map key tbl @ [key x])"
    by (rule ioc_keys[where rej=rej and upd=upd]) (rule assms)+
  then have "set (map key tbl') = insert (key x) (key ` set tbl)" by (auto split: if_splits)
  then show ?thesis by auto
qed

lemma toque_set_key: "toque_key (toque_set old x) = toque_key old"
  by (simp add: toque_key_def toque_set_def)

lemma campaign_set_key: "campaign_key (campaign_set old x) = campaign_key old"
  by (simp add: campaign_key_def campaign_set_def)

lemma toque_values_key: "toque_key (toque_values r a b c) = flat_toque_key r"
  by (simp add: toque_key_def toque_values_def flat_toque_key_def)

lemma campaign_values_key: "campaign_key (campaign_values r a b c d) = flat_campaign_key r"
  by (simp add: campaign_key_def campaign_values_def flat_campaign_key_def)

lemma toques_daily_row_ratios:
  assumes "toques_daily_row srv r tbl = Inr tbl'"
  shows "flat_toque_key r \<in> toque_key ` set tbl'
       \<and> (\<forall>x\<in>set tbl'. toque_key x = flat_toque_key r \<longrightarrow>
             t_ctr x = ratio (ft_clicks r) (ft_enviados r)
           \<and> t_tasa_entrega x = ratio (ft_entregados r) (ft_enviados r)
           \<and> t_open_rate x = ratio (ft_abiertos r) (ft_entregados r))"
proof -
  let ?v = "toque_values r (ratio (ft_clicks r) (ft_enviados r))
              (ratio (ft_entregados r) (ft_enviados r)) (ratio (ft_abiertos r) (ft_entregados r))"
  from assms have ioc: "insert_on_conflict (rejects_toque srv) toque_key toque_set ?v tbl = Inr tbl'"
    by (simp add: toques_daily_row_def TOQUES_DAILY_UPSERT_def Let_def)
  have "toque_key ?v \<in> toque_key ` set tbl'"
    by (rule ioc_key_present[where rej="rejects_toque srv" and upd=toque_set and tbl=tbl])
       (rule ioc, rule toque_set_key)
  then have p: "flat_toque_key r \<in> toque_key ` set tbl'" by (simp only: toque_values_key)
  have "t_ctr x = ratio (ft_clicks r) (ft_enviados r)
           \<and> t_tasa_entrega x = ratio (ft_entregados r) (ft_enviados r)
           \<and> t_open_rate x = ratio (ft_abiertos r) (ft_entregados r)"
    if "x \<in> set tbl'" "toque_key x = flat_toque_key r" for x
  proof -
    from that(2) have "toque_key x = toque_key ?v" by (simp only: toque_values_key)
    with ioc_row_after[where key=toque_key and upd=toque_set and rej="rejects_toque srv", OF ioc that(1)]
    have "x = ?v \<or> (\<exists>old\<in>set tbl. x = toque_set old ?v)" by blast
    then show ?thesis by (auto simp: toque_values_def toque_set_def)
  qed
  with p show ?thesis by blast
qed

lemma campaigns_row_ratios:
  assumes "campaigns_row srv r tbl = Inr tbl'"
  shows "flat_campaign_key r \<in> campaign_key ` set tbl'
       \<and> (\<forall>x\<in>set tbl'. campaign_key x = flat_campaign_key r \<longrightarrow>
             m_ctr x = ratio (fm_total_clicks r) (fm_total_enviados r)
           \<and> m_tasa_entrega x = ratio (fm_total_entregados r) (fm_total_enviados r)
           \<and> m_open_rate x = ratio (fm_total_abiertos r) (fm_total_entregados r)
           \<and> m_conversion_rate x = ratio (fm_total_conversiones r) (fm_total_clicks r))"
proof -
  let ?v = "campaign_values r (ratio (fm_total_clicks r) (fm_total_enviados r))
              (ratio (fm_total_entregados r) (fm_total_enviados r))
              (ratio (fm_total_abiertos r) (fm_total_entregados r))
              (ratio (fm_total_conversiones r) (fm_total_clicks r))"
  from assms have ioc: "insert_on_conflict (rejects_campaign srv) campaign_key campaign_set ?v tbl = Inr tbl'"
    by (simp add: campaigns_row_def CAMPAIGNS_UPSERT_def Let_def)
  have "campaign_key ?v \<in> campaign_key ` set tbl'"
    by (rule ioc_key_present[where rej="rejects_campaign srv" and upd=campaign_set and tbl=tbl])
       (rule ioc, rule campaign_set_key)
  then have p: "flat_campaign_key r \<in> campaign_key ` set tbl'" by (simp only: campaign_values_key)
  have "m_ctr x = ratio (fm_total_clicks r) (fm_total_enviados r)
           \<and> m_tasa_entrega x = ratio (fm_total_entregados r) (fm_total_enviados r)
           \<and> m_open_rate x = ratio (fm_total_abiertos r) (fm_total_entregados r)
           \<and> m_conversion_rate x = ratio (fm_total_conversiones r) (fm_total_clicks r)"
    if "x \<in> set tbl'" "campaign_key x = flat_campaign_key r" for x
  proof -
    from that(2) have "campaign_key x = campaign_key ?v" by (simp only: campaign_values_key)
    with ioc_row_after[where key=campaign_key and upd=campaign_set and rej="rejects_campaign srv", OF ioc that(1)]
    have "x = ?v \<or> (\<exists>old\<in>set tbl. x = campaign_set old ?v)" by blast
    then show ?thesis by (auto simp: campaign_values_def campaign_set_def)
  qed
  with p show ?thesis by blast
qed

lemma round_half_even_eq:
  "\<exists>d. 0 \<le> d \<and> d < 1 \<and> y = of_int \<lfloor>y\<rfloor> + d
     \<and> round_half_even y
         = (if d < 1 / 2 then \<lfloor>y\<rfloor> else if 1 / 2 < d then \<lfloor>y\<rfloor> + 1
            else if even \<lfloor>y\<rfloor> then \<lfloor>y\<rfloor> else \<lfloor>y\<rfloor> + 1)"
proof -
  define d where "d = y - of_int \<lfloor>y\<rfloor>"
  have d0: "0 \<le> d" and d1: "d < 1" unfolding d_def by linarith+
  have y: "y = of_int \<lfloor>y\<rfloor> + d" by (simp add: d_def)
  have r: "round_half_even y
      = (if d < 1 / 2 then \<lfloor>y\<rfloor> else if 1 / 2 < d then \<lfloor>y\<rfloor> + 1
         else if even \<lfloor>y\<rfloor> then \<lfloor>y\<rfloor> else \<lfloor>y\<rfloor> + 1)"
    unfolding round_half_even_def Let_def d_def by simp
  from d0 d1 y r show ?thesis by blast
qed

lemma round_half_even_close:
  "\<bar>of_int (round_half_even y) - y\<bar> \<le> (1 / 2 :: rat)"
proof -
  define f where "f = \<lfloor>y\<rfloor>"
  define k where "k = round_half_even y"
  from round_half_even_eq[of y] obtain d where d: "0 \<le> d" "d < 1" and y: "y = of_int f + d"
    and k: "k = (if d < 1 / 2 then f else if 1 / 2 < d then f + 1 else if even f then f else f + 1)"
    unfolding f_def k_def by blast
  have "\<bar>of_int k - (of_int f + d)\<bar> \<le> 1 / 2"
    unfolding k using d by (auto simp: abs_if)
  then show ?thesis unfolding k_def[symmetric] y[symmetric] .
qed

lemma round_half_even_tie:
  assumes "\<bar>of_int (round_half_even y) - y\<bar> = (1 / 2 :: rat)"
  shows "even (round_half_even y)"
proof -
  define f where "f = \<lfloor>y\<rfloor>"
  define k where "k = round_half_even y"
  from round_half_even_eq[of y] obtain d where d: "0 \<le> d" "d < 1" and y: "y = of_int f + d"
    and k: "k = (if d < 1 / 2 then f else if 1 / 2 < d then f + 1 else if even f then f else f + 1)"
    unfolding f_def k_def by blast
  from assms have "\<bar>of_int k - (of_int f + d)\<bar> = 1 / 2" unfolding k_def using y by simp
  then have "even k" unfolding k using d by (auto simp: abs_if split: if_splits)
  then show ?thesis by (simp only: k_def)
qed

lemma round_half_even_nearest:
  "\<bar>of_int (round_half_even y) - y\<bar> \<le> \<bar>of_int j - (y :: rat)\<bar>"
proof -
  have c: "\<bar>of_int (round_half_even y) - y\<bar> \<le> 1 / 2" by (rule round_half_even_close)
  show ?thesis
  proof (cases "j = round_half_even y")
    case True
    then show ?thesis by simp
  next
    case False
    then have "1 \<le> \<bar>j - round_half_even y\<bar>" by linarith
    then have "(1 :: rat) \<le> of_int \<bar>j - round_half_even y\<bar>" by linarith
    then have "(1 :: rat) \<le> \<bar>of_int j - of_int (round_half_even y)\<bar>" by simp
    with c show ?thesis by linarith
  qed
qed

lemma py_round_cases:
  "py_round x 2 = of_int (round_half_even (x * 100)) / 100
   \<and> \<bar>of_int (round_half_even (x * 100)) - x * 100\<bar> \<le> 1 / 2"
  using round_half_even_close[of "x * 100"] by (simp add: py_round_def)

lemma py_round_close:
  fixes x :: rat
  shows "\<bar>py_round x 2 - x\<bar> \<le> 1 / 200"
proof -
  define k where "k = round_half_even (x * 100)"
  have r: "py_round x 2 = of_int k / 100" and c: "\<bar>of_int k - x * 100\<bar> \<le> 1 / 2"
    using py_round_cases[of x] by (simp_all add: k_def)
  define e where "e = of_int k - x * 100"
  have "py_round x 2 - x = e / 100" unfolding r e_def by (simp add: diff_divide_distrib)
  then have "\<bar>py_round x 2 - x\<bar> = \<bar>e / 100\<bar>" by (rule arg_cong)
  also have "\<dots> = \<bar>e\<bar> / \<bar>100\<bar>" by (rule abs_divide)
  finally have "\<bar>py_round x 2 - x\<bar> = \<bar>e\<bar> / 100" by simp
  moreover have "\<bar>e\<bar> \<le> 1 / 2" using c by (simp only: e_def)
  ultimately show ?thesis by linarith
qed

lemma py_round_nearest:
  fixes x :: rat
  shows "\<bar>py_round x 2 - x\<bar> \<le> \<bar>of_int j / 100 - x\<bar>"
proof -
  define k where "k = round_half_even (x * 100)"
  have r: "py_round x 2 = of_int k / 100" using py_round_cases[of x] by (simp add: k_def)
  have n: "\<bar>of_int k - x * 100\<bar> \<le> \<bar>of_int j - x * 100\<bar>"
    unfolding k_def by (rule round_half_even_nearest)
  have a: "\<bar>of_int k / 100 - x\<bar> = \<bar>of_int k - x * 100\<bar> / 100"
  proof -
    have "of_int k / 100 - x = (of_int k - x * 100) / 100" by (simp add: diff_divide_distrib)
    then have "\<bar>of_int k / 100 - x\<bar> = \<bar>(of_int k - x * 100) / 100\<bar>" by (rule arg_cong)
    also have "\<dots> = \<bar>of_int k - x * 100\<bar> / \<bar>100\<bar>" by (rule abs_divide)
    finally show ?thesis by simp
  qed
  have b: "\<bar>of_int j / 100 - x\<bar> = \<bar>of_int j - x * 100\<bar> / 100"
  proof -
    have "of_int j / 100 - x = (of_int j - x * 100) / 100" by (simp add: diff_divide_distrib)
    then have "\<bar>of_int j / 100 - x\<bar> = \<bar>(of_int j - x * 100) / 100\<bar>" by (rule arg_cong)
    also have "\<dots> = \<bar>of_int j - x * 100\<bar> / \<bar>100\<bar>" by (rule abs_divide)
    finally show ?thesis by simp
  qed
  show ?thesis unfolding r a b using n by (simp add: divide_right_mono)
qed

lemma bitlen_powi:
  assumes "0 < p"
  shows "(2 :: rat) powi (bitlen p - 1) \<le> of_int p \<and> of_int p < (2 :: rat) powi (bitlen p)"
proof -
  from bitlen_bounds[OF assms] have a: "2 ^ nat (bitlen p - 1) \<le> p" and b: "p < 2 ^ nat (bitlen p)"
    by simp_all
  from assms have b1: "1 \<le> bitlen p" by (auto simp: bitlen_alt_def)
  have "(of_int (2 ^ nat (bitlen p - 1)) :: rat) \<le> of_int p" using a by (simp only: of_int_le_iff)
  then have a': "(2 :: rat) ^ nat (bitlen p - 1) \<le> of_int p" by simp
  have "(of_int p :: rat) < of_int (2 ^ nat (bitlen p))" using b by (simp only: of_int_less_iff)
  then have b': "of_int p < (2 :: rat) ^ nat (bitlen p)" by simp
  have e1: "(2 :: rat) powi (bitlen p - 1) = 2 ^ nat (bitlen p - 1)"
    using b1 by (simp add: power_int_nonneg_exp)
  have e2: "(2 :: rat) powi (bitlen p) = 2 ^ nat (bitlen p)"
    using b1 by (simp add: power_int_nonneg_exp)
  show ?thesis unfolding e1 e2 using a' b' by simp
qed

lemma floor_log2_bounds:
  assumes "0 < x"
  shows "2 powi (floor_log2 x) \<le> x \<and> x < 2 powi (floor_log2 x + 1)"
proof -
  obtain p q where pq: "quotient_of x = (p, q)" by (cases "quotient_of x")
  then have q: "0 < q" by (rule quotient_of_denom_pos)
  from pq have x: "x = of_int p / of_int q" by (rule quotient_of_div)
  from assms x q have p: "0 < p" by (simp add: zero_less_divide_iff)
  define g where "g = bitlen p - bitlen q"
  note bp = bitlen_powi[OF p]
  note bq = bitlen_powi[OF q]
  have q0: "(0 :: rat) < of_int q" using q by simp
  have lo: "2 powi (g - 1) < x"
  proof -
    have "(2 :: rat) powi (g - 1) = 2 powi (bitlen p - 1) / 2 powi (bitlen q)"
      unfolding g_def by (simp add: power_int_diff)
    also have "\<dots> \<le> of_int p / 2 powi (bitlen q)"
      using bp by (simp add: divide_right_mono)
    also have "\<dots> < of_int p / of_int q"
      using bq p q0 by (simp add: divide_strict_left_mono)
    finally show ?thesis by (simp only: x)
  qed
  have hi: "x < 2 powi (g + 1)"
  proof -
    have "x = of_int p / of_int q" by (rule x)
    also have "\<dots> < 2 powi (bitlen p) / of_int q"
      using bp q0 by (simp add: divide_strict_right_mono)
    also have "\<dots> \<le> 2 powi (bitlen p) / 2 powi (bitlen q - 1)"
    proof (rule divide_left_mono)
      show "2 powi (bitlen q - 1) \<le> rat_of_int q" using bq by simp
      show "(0 :: rat) \<le> 2 powi bitlen p" by simp
      show "(0 :: rat) < rat_of_int q * 2 powi (bitlen q - 1)" using q0 by simp
    qed
    also have "\<dots> = (2 :: rat) powi (bitlen p - (bitlen q - 1))"
      by (rule power_int_diff[symmetric]) simp
    also have "bitlen p - (bitlen q - 1) = g + 1" by (simp add: g_def)
    finally show ?thesis .
  qed
  have f: "floor_log2 x = (if 2 powi g \<le> x then g else g - 1)"
    by (simp add: floor_log2_def pq g_def Let_def)
  show ?thesis
  proof (cases "2 powi g \<le> x")
    case True
    with f hi show ?thesis by simp
  next
    case False
    with f lo show ?thesis by simp
  qed
qed


lemma fl_eq:
  assumes "x \<noteq> 0" and "- 1022 \<le> floor_log2 \<bar>x\<bar>"
  shows "fl x = sgn x * of_int (round_half_even (\<bar>x\<bar> / 2 powi (floor_log2 \<bar>x\<bar> - 52)))
                * 2 powi (floor_log2 \<bar>x\<bar> - 52)"
proof -
  from assms(2) have "max (floor_log2 \<bar>x\<bar> - 52) (- 1074) = floor_log2 \<bar>x\<bar> - 52" by simp
  with assms(1) show ?thesis by (simp add: fl_def Let_def)
qed

lemma floor_log2_normal:
  assumes "2 powi (- 1022) \<le> \<bar>x\<bar>"
  shows "- 1022 \<le> floor_log2 \<bar>x\<bar>"
proof (rule ccontr)
  assume "\<not> - 1022 \<le> floor_log2 \<bar>x\<bar>"
  then have l: "floor_log2 \<bar>x\<bar> + 1 \<le> - 1022" by simp
  have p: "(0 :: rat) < 2 powi (- 1022)" by (rule zero_less_power_int) simp
  from p assms have x: "0 < \<bar>x\<bar>" by (rule less_le_trans)
  from floor_log2_bounds[OF x] have "\<bar>x\<bar> < 2 powi (floor_log2 \<bar>x\<bar> + 1)" by blast
  also have "\<dots> \<le> 2 powi (- 1022)" by (rule power_int_increasing) (rule l, simp)
  finally show False using assms by linarith
qed

lemma fl_error:
  assumes "2 powi (- 1022) \<le> \<bar>x\<bar>"
  shows "\<bar>fl x - x\<bar> \<le> \<bar>x\<bar> / 2 ^ 53"
proof -
  have p: "(0 :: rat) < 2 powi (- 1022)" by (rule zero_less_power_int) simp
  from p assms have a0: "0 < \<bar>x\<bar>" by (rule less_le_trans)
  then have x0: "x \<noteq> 0" by simp
  define L where "L = floor_log2 \<bar>x\<bar>"
  define e where "e = L - 52"
  define t where "t = (2 :: rat) powi e"
  define m where "m = round_half_even (\<bar>x\<bar> / t)"
  have t0: "0 < t" unfolding t_def by (rule zero_less_power_int) simp
  have n: "- 1022 \<le> L" unfolding L_def by (rule floor_log2_normal) (rule assms)
  have f: "fl x = sgn x * of_int m * t"
    unfolding m_def t_def e_def L_def by (rule fl_eq) (rule x0, rule n[unfolded L_def])
  have lo: "2 powi L \<le> \<bar>x\<bar>" unfolding L_def using floor_log2_bounds[OF a0] by blast
  have c: "\<bar>of_int m - \<bar>x\<bar> / t\<bar> \<le> 1 / 2" unfolding m_def by (rule round_half_even_close)
  have "fl x - x = sgn x * (of_int m * t - \<bar>x\<bar>)"
    unfolding f by (simp add: algebra_simps mult_sgn_abs abs_mult_sgn sgn_mult_abs)
  then have "\<bar>fl x - x\<bar> = \<bar>sgn x * (of_int m * t - \<bar>x\<bar>)\<bar>" by (rule arg_cong)
  also have "\<dots> = \<bar>of_int m * t - \<bar>x\<bar>\<bar>" using x0 by (simp add: abs_mult abs_sgn_eq)
  also have "of_int m * t - \<bar>x\<bar> = (of_int m - \<bar>x\<bar> / t) * t" using t0 by (simp add: algebra_simps)
  also have "\<bar>(of_int m - \<bar>x\<bar> / t) * t\<bar> = \<bar>of_int m - \<bar>x\<bar> / t\<bar> * t"
    using t0 by (simp add: abs_mult)
  also have "\<dots> \<le> 1 / 2 * t" using c t0 by (rule mult_right_mono[OF _ less_imp_le])
  finally have b: "\<bar>fl x - x\<bar> \<le> t / 2" by simp
  have "t * 2 ^ 52 = 2 powi L"
  proof -
    have "(2 :: rat) powi L = 2 powi (e + 52)" by (simp add: e_def)
    also have "\<dots> = 2 powi e * 2 powi 52" by (rule power_int_add) simp
    finally show ?thesis by (simp add: t_def)
  qed
  then have "t = 2 powi L / 2 ^ 52" by (simp add: field_simps)
  then have "t / 2 = 2 powi L / 2 ^ 53" by simp
  also have "\<dots> \<le> \<bar>x\<bar> / 2 ^ 53" using lo by (rule divide_right_mono) simp
  finally show ?thesis using b by linarith
qed


lemma fl_zero [simp]: "fl 0 = 0"
  by (simp add: fl_def)

lemma float_error_ratio:
  assumes d: "0 < den" and dr: "int4 den" and nr: "int4 num"
  shows "\<bar>float_mul (int_true_div num den) 100 - of_int num / of_int den * 100\<bar>
           \<le> \<bar>of_int num / of_int den * 100\<bar> / 2 ^ 51"
proof (cases "num = 0")
  case True
  then show ?thesis by (simp add: float_mul_def int_true_div_def)
next
  case False
  define q :: rat where "q = of_int num / of_int den"
  define A where "A = \<bar>q\<bar>"
  define f1 where "f1 = fl q"
  define p where "p = f1 * 100"
  have small: "(2 :: rat) powi (- 1022) \<le> 2 powi (- 31)"
    by (rule power_int_increasing) simp_all
  have s31: "(2 :: rat) powi (- 31) = 1 / 2147483648" by (simp add: power_int_minus_divide)
  have den': "(0 :: rat) < of_int den" "(of_int den :: rat) \<le> 2147483648"
    using d dr by (simp_all add: int4_def)
  have num': "(1 :: rat) \<le> \<bar>of_int num\<bar>"
  proof -
    from False have "1 \<le> \<bar>num\<bar>" by linarith
    then have "(1 :: rat) \<le> of_int \<bar>num\<bar>" by linarith
    then show ?thesis by simp
  qed
  have A: "A = \<bar>of_int num\<bar> / of_int den" using den' by (simp add: A_def q_def abs_divide)
  have "1 / 2147483648 \<le> 1 / (of_int den :: rat)"
    using den' by (simp add: divide_left_mono)
  also have "\<dots> \<le> \<bar>of_int num\<bar> / of_int den"
    using num' den'(1) by (simp add: divide_right_mono)
  finally have lowA: "1 / 2147483648 \<le> A" by (simp only: A)
  have nq: "2 powi (- 1022) \<le> \<bar>q\<bar>"
  proof -
    have "(2 :: rat) powi (- 1022) \<le> 2 powi (- 31)" by (rule small)
    also have "\<dots> = 1 / 2147483648" by (rule s31)
    also have "\<dots> \<le> \<bar>q\<bar>" using lowA by (simp only: A_def)
    finally show ?thesis .
  qed
  from fl_error[OF nq] have e1: "\<bar>f1 - q\<bar> \<le> A / 2 ^ 53" by (simp only: f1_def A_def)
  have A0: "0 \<le> A" by (simp add: A_def)
  have f1lo: "A / 2 \<le> \<bar>f1\<bar>"
  proof -
    have "A - \<bar>f1\<bar> \<le> \<bar>f1 - q\<bar>" unfolding A_def by linarith
    with e1 have "A - \<bar>f1\<bar> \<le> A / 2 ^ 53" by linarith
    moreover have "A / 2 ^ 53 \<le> A / 2" using A0 by (simp add: divide_left_mono)
    ultimately show ?thesis by linarith
  qed
  have f1hi: "\<bar>f1\<bar> \<le> 2 * A"
  proof -
    have "\<bar>f1\<bar> - A \<le> \<bar>f1 - q\<bar>" unfolding A_def by linarith
    with e1 have "\<bar>f1\<bar> - A \<le> A / 2 ^ 53" by linarith
    moreover have "A / 2 ^ 53 \<le> A" using A0 by (simp add: field_simps)
    ultimately show ?thesis by linarith
  qed
  have pabs: "\<bar>p\<bar> = \<bar>f1\<bar> * 100" by (simp add: p_def abs_mult)
  have np: "2 powi (- 1022) \<le> \<bar>p\<bar>"
  proof -
    have "(2 :: rat) powi (- 1022) \<le> 2 powi (- 31)" by (rule small)
    also have "\<dots> = 1 / 2147483648" by (rule s31)
    also have "\<dots> \<le> \<bar>p\<bar>" using lowA f1lo pabs by linarith
    finally show ?thesis .
  qed
  from fl_error[OF np] have e2: "\<bar>fl p - p\<bar> \<le> \<bar>p\<bar> / 2 ^ 53" .
  have "\<bar>p\<bar> / 2 ^ 53 \<le> 200 * A / 2 ^ 53"
    using f1hi pabs by (simp add: divide_right_mono)
  with e2 have e2': "\<bar>fl p - p\<bar> \<le> 200 * A / 2 ^ 53" by linarith
  have e3: "\<bar>p - q * 100\<bar> \<le> 100 * A / 2 ^ 53"
  proof -
    have "p - q * 100 = (f1 - q) * 100" by (simp add: p_def algebra_simps)
    then have "\<bar>p - q * 100\<bar> = \<bar>(f1 - q) * 100\<bar>" by (rule arg_cong)
    also have "\<dots> = \<bar>f1 - q\<bar> * \<bar>100\<bar>" by (rule abs_mult)
    finally have "\<bar>p - q * 100\<bar> = \<bar>f1 - q\<bar> * 100" by simp
    with e1 show ?thesis by simp
  qed
  have "\<bar>fl p - q * 100\<bar> \<le> \<bar>fl p - p\<bar> + \<bar>p - q * 100\<bar>" by linarith
  with e2' e3 have "\<bar>fl p - q * 100\<bar> \<le> 300 * A / 2 ^ 53" by linarith
  also have "\<dots> \<le> \<bar>q * 100\<bar> / 2 ^ 51" using A0 by (simp add: A_def abs_mult)
  finally show ?thesis
    by (simp only: float_mul_def int_true_div_def p_def f1_def q_def)
qed

lemma ratio_positive:
  assumes "0 < den"
  shows "ratio num den = py_round (float_mul (int_true_div num den) 100) 2
       \<and> (\<exists>k::int. ratio num den = of_int k / 100)
       \<and> \<bar>ratio num den - float_mul (int_true_div num den) 100\<bar> \<le> 1 / 200
       \<and> (\<forall>j::int. \<bar>ratio num den - float_mul (int_true_div num den) 100\<bar>
                      \<le> \<bar>of_int j / 100 - float_mul (int_true_div num den) 100\<bar>)"
proof -
  let ?y = "float_mul (int_true_div num den) 100"
  have r: "ratio num den = py_round ?y 2" using assms by (simp add: ratio_def)
  have k: "\<exists>k::int. ratio num den = of_int k / 100"
    unfolding r using py_round_cases[of ?y] by blast
  have c: "\<bar>ratio num den - ?y\<bar> \<le> 1 / 200" unfolding r by (rule py_round_close)
  have n: "\<forall>j::int. \<bar>ratio num den - ?y\<bar> \<le> \<bar>of_int j / 100 - ?y\<bar>"
    unfolding r using py_round_nearest[of ?y] by blast
  from r k c n show ?thesis by blast
qed

lemma ratio_int4:
  assumes "0 < den" "int4 den" "int4 num"
  shows "\<bar>float_mul (int_true_div num den) 100 - of_int num / of_int den * 100\<bar>
           \<le> \<bar>of_int num / of_int den * 100\<bar> / 2 ^ 51
       \<and> \<bar>ratio num den - of_int num / of_int den * 100\<bar>
           \<le> 1 / 200 + \<bar>of_int num / of_int den * 100\<bar> / 2 ^ 51"
proof -
  let ?y = "float_mul (int_true_div num den) 100"
  define z :: rat where "z = of_int num / of_int den * 100"
  have a: "\<bar>?y - z\<bar> \<le> \<bar>z\<bar> / 2 ^ 51"
    unfolding z_def by (rule float_error_ratio) (rule assms)+
  from ratio_positive[OF assms(1), of num] have b: "\<bar>ratio num den - ?y\<bar> \<le> 1 / 200" by blast
  have "\<bar>ratio num den - z\<bar> \<le> \<bar>ratio num den - ?y\<bar> + \<bar>?y - z\<bar>" by linarith
  with a b have "\<bar>ratio num den - z\<bar> \<le> 1 / 200 + \<bar>z\<bar> / 2 ^ 51" by linarith
  with a show ?thesis unfolding z_def by blast
qed


text \<open>
  Claim C4, as the code has it. The guard of each ratio is \<^verbatim>\<open>den > 0\<close>: with a denominator
  that is zero or negative the ratio is 0. With a positive one it is
  \<^verbatim>\<open>round(num / den * 100, 2)\<close> as Python computes it on floats: the quotient and the
  product are rounded to floats, and the result is a whole number of hundredths, the
  nearest to the float product (within half a hundredth, and no other hundredth is
  nearer). For counters of 32 bits the float product is within the \<open>2 ^ 51\<close>-th part of the
  exact \<open>num / den * 100\<close>, so the ratio is within half a hundredth and that part of it.
  A \<^verbatim>\<open>toques_daily\<close> row written by the loop carries \<^verbatim>\<open>ctr\<close>, \<^verbatim>\<open>tasa_entrega\<close> and
  \<^verbatim>\<open>open_rate\<close> computed this way from clicks over enviados, entregados over enviados and
  abiertos over entregados; a \<^verbatim>\<open>campaigns\<close> row also carries \<^verbatim>\<open>conversion_rate\<close> from
  conversiones over clicks. Computing a ratio never raises.
\<close>

theorem ratio_guard:
  "(den \<le> 0 \<longrightarrow> ratio num den = 0)
   \<and> (0 < den \<longrightarrow>
        ratio num den = py_round (float_mul (int_true_div num den) 100) 2
        \<and> (\<exists>k::int. ratio num den = of_int k / 100)
        \<and> \<bar>ratio num den - float_mul (int_true_div num den) 100\<bar> \<le> 1 / 200
        \<and> (\<forall>j::int. \<bar>ratio num den - float_mul (int_true_div num den) 100\<bar>
                       \<le> \<bar>of_int j / 100 - float_mul (int_true_div num den) 100\<bar>))
   \<and> (0 < den \<and> int4 den \<and> int4 num \<longrightarrow>
        \<bar>float_mul (int_true_div num den) 100 - of_int num / of_int den * 100\<bar>
           \<le> \<bar>of_int num / of_int den * 100\<bar> / 2 ^ 51
        \<and> \<bar>ratio num den - of_int num / of_int den * 100\<bar>
           \<le> 1 / 200 + \<bar>of_int num / of_int den * 100\<bar> / 2 ^ 51)
   \<and> (toques_daily_row srv r tbl = Inr tbl' \<longrightarrow>
        flat_toque_key r \<in> toque_key ` set tbl'
        \<and> (\<forall>x\<in>set tbl'. toque_key x = flat_toque_key r \<longrightarrow>
               t_ctr x = ratio (ft_clicks r) (ft_enviados r)
             \<and> t_tasa_entrega x = ratio (ft_entregados r) (ft_enviados r)
             \<and> t_open_rate x = ratio (ft_abiertos r) (ft_entregados r)))
   \<and> (campaigns_row srv c ctbl = Inr ctbl' \<longrightarrow>
        flat_campaign_key c \<in> campaign_key ` set ctbl'
        \<and> (\<forall>x\<in>set ctbl'. campaign_key x = flat_campaign_key c \<longrightarrow>
               m_ctr x = ratio (fm_total_clicks c) (fm_total_enviados c)
             \<and> m_tasa_entrega x = ratio (fm_total_entregados c) (fm_total_enviados c)
             \<and> m_open_rate x = ratio (fm_total_abiertos c) (fm_total_entregados c)
             \<and> m_conversion_rate x = ratio (fm_total_conversiones c) (fm_total_clicks c)))"
proof -
  have a: "den \<le> 0 \<longrightarrow> ratio num den = 0" by (simp add: ratio_def)
  have b: "0 < den \<longrightarrow>
        ratio num den = py_round (float_mul (int_true_div num den) 100) 2
        \<and> (\<exists>k::int. ratio num den = of_int k / 100)
        \<and> \<bar>ratio num den - float_mul (int_true_div num den) 100\<bar> \<le> 1 / 200
        \<and> (\<forall>j::int. \<bar>ratio num den - float_mul (int_true_div num den) 100\<bar>
                       \<le> \<bar>of_int j / 100 - float_mul (int_true_div num den) 100\<bar>)"
    using ratio_positive[of den num] by blast
  have c: "0 < den \<and> int4 den \<and> int4 num \<longrightarrow>
        \<bar>float_mul (int_true_div num den) 100 - of_int num / of_int den * 100\<bar>
           \<le> \<bar>of_int num / of_int den * 100\<bar> / 2 ^ 51
        \<and> \<bar>ratio num den - of_int num / of_int den * 100\<bar>
           \<le> 1 / 200 + \<bar>of_int num / of_int den * 100\<bar> / 2 ^ 51"
    using ratio_int4[of den num] by blast
  have d: "toques_daily_row srv r tbl = Inr tbl' \<longrightarrow>
        flat_toque_key r \<in> toque_key ` set tbl'
        \<and> (\<forall>x\<in>set tbl'. toque_key x = flat_toque_key r \<longrightarrow>
               t_ctr x = ratio (ft_clicks r) (ft_enviados r)
             \<and> t_tasa_entrega x = ratio (ft_entregados r) (ft_enviados r)
             \<and> t_open_rate x = ratio (ft_abiertos r) (ft_entregados r))"
    using toques_daily_row_ratios[of srv r tbl tbl'] by blast
  have e: "campaigns_row srv c ctbl = Inr ctbl' \<longrightarrow>
        flat_campaign_key c \<in> campaign_key ` set ctbl'
        \<and> (\<forall>x\<in>set ctbl'. campaign_key x = flat_campaign_key c \<longrightarrow>
               m_ctr x = ratio (fm_total_clicks c) (fm_total_enviados c)
             \<and> m_tasa_entrega x = ratio (fm_total_entregados c) (fm_total_enviados c)
             \<and> m_open_rate x = ratio (fm_total_abiertos c) (fm_total_entregados c)
             \<and> m_conversion_rate x = ratio (fm_total_conversiones c) (fm_total_clicks c))"
    using campaigns_row_ratios[of srv c ctbl ctbl'] by blast
  show ?thesis by (intro conjI) (rule a, rule b, rule c, rule d, rule e)
qed

text \<open>
  The claim as stated gives every row with a non-zero denominator the rounded quotient.
  With 1 click over \<open>- 5\<close> sent the code stores 0, and the rounded quotient is \<open>- 20\<close>. And
  the rounding is that of the float product, not of the exact quotient: where the exact
  quotient lies half way between two hundredths the float decides, to 0.03 for 1 over 4000
  (0.025), to 2.67 for 107 over 4000 (2.675) and to 0.01 for 3 over 20000 (0.015).
\<close>

theorem ratio_guard_counterexample:
  "ratio 1 (- 5) = 0 \<and> py_round (float_mul (int_true_div 1 (- 5)) 100) 2 = - 20
   \<and> ratio 1 (- 5) \<noteq> py_round (float_mul (int_true_div 1 (- 5)) 100) 2
   \<and> toques_daily_row example_server (example_flat_toque (- 5) 0 0 1 1) []
       = Inr [toque_values (example_flat_toque (- 5) 0 0 1 1) 0 0 0]
   \<and> ratio 1 4000 = 3 / 100 \<and> ratio 107 4000 = 267 / 100 \<and> ratio 3 20000 = 1 / 100
   \<and> (of_int 1 / of_int 4000 * 100 :: rat) = 5 / 200
   \<and> (of_int 107 / of_int 4000 * 100 :: rat) = 535 / 200
   \<and> (of_int 3 / of_int 20000 * 100 :: rat) = 3 / 200"
  by code_simp

theorem ratio_guard_witness:
  "ratio 1 0 = 0 \<and> ratio 0 0 = 0 \<and> ratio 1 8 = 25 / 2
   \<and> \<bar>ratio 1 3 - 100 / 3\<bar> \<le> 1 / 200 + (100 / 3) / 2 ^ 51
   \<and> \<bar>ratio 1 4000 - float_mul (int_true_div 1 4000) 100\<bar> \<le> \<bar>of_int 2 / 100 - float_mul (int_true_div 1 4000) 100\<bar>
   \<and> toques_daily_row example_server (example_flat_toque 0 0 0 0 1) []
       = Inr [toque_values (example_flat_toque 0 0 0 0 1) 0 0 0]
   \<and> t_ctr (toque_values (example_flat_toque 0 0 0 0 1) 0 0 0) = ratio 0 0
   \<and> t_tasa_entrega (toque_values (example_flat_toque 0 0 0 0 1) 0 0 0) = ratio 0 0
   \<and> campaigns_row example_server (example_flat_campaign 8 4 1 1 0 1) []
       = Inr [campaign_values (example_flat_campaign 8 4 1 1 0 1) (25 / 2) 50 25 0]
   \<and> m_ctr (campaign_values (example_flat_campaign 8 4 1 1 0 1) (25 / 2) 50 25 0) = ratio 1 8
   \<and> m_conversion_rate (campaign_values (example_flat_campaign 8 4 1 1 0 1) (25 / 2) 50 25 0) = ratio 0 1"
proof -
  let ?r = "example_flat_toque 0 0 0 0 1"
  let ?x = "toque_values ?r 0 0 0"
  let ?c = "example_flat_campaign 8 4 1 1 0 1"
  let ?y = "campaign_values ?c (25 / 2) 50 25 0"
  have t: "toques_daily_row example_server ?r [] = Inr [?x]"
    by (simp add: toques_daily_row_def TOQUES_DAILY_UPSERT_def insert_on_conflict_def upserted_def
        example_server_def ratio_def Let_def example_flat_toque_def)
  have c: "campaigns_row example_server ?c [] = Inr [?y]"
    by code_simp
  note g0 = ratio_guard[where den=0 and num=1 and srv=example_server and r="?r" and tbl="[]"
               and tbl'="[?x]" and c="?c" and ctbl="[]" and ctbl'="[?y]"]
  note g0' = ratio_guard[where den=0 and num=0 and srv=example_server and r="?r" and tbl="[]"
               and tbl'="[?x]" and c="?c" and ctbl="[]" and ctbl'="[?y]"]
  note g8 = ratio_guard[where den=8 and num=1 and srv=example_server and r="?r" and tbl="[]"
               and tbl'="[?x]" and c="?c" and ctbl="[]" and ctbl'="[?y]"]
  note g3 = ratio_guard[where den=3 and num=1 and srv=example_server and r="?r" and tbl="[]"
               and tbl'="[?x]" and c="?c" and ctbl="[]" and ctbl'="[?y]"]
  note g4 = ratio_guard[where den=4000 and num=1 and srv=example_server and r="?r" and tbl="[]"
               and tbl'="[?x]" and c="?c" and ctbl="[]" and ctbl'="[?y]"]
  have a1: "ratio 1 0 = 0" using g0 by simp
  have a2: "ratio 0 0 = 0" using g0' by simp
  have "ratio 1 8 = py_round (float_mul (int_true_div 1 8) 100) 2" using g8 by simp
  also have "\<dots> = 25 / 2" by code_simp
  finally have a3: "ratio 1 8 = 25 / 2" .
  have p3: "(0::int) < 3 \<and> int4 3 \<and> int4 1" by (simp add: int4_def)
  from g3 p3 have "\<bar>ratio 1 3 - of_int 1 / of_int 3 * 100\<bar>
      \<le> 1 / 200 + \<bar>of_int 1 / of_int 3 * 100 :: rat\<bar> / 2 ^ 51" by blast
  then have a4: "\<bar>ratio 1 3 - 100 / 3\<bar> \<le> 1 / 200 + (100 / 3) / 2 ^ 51" by simp
  have p4: "(0::int) < 4000" by simp
  from g4 p4 have "\<forall>j::int. \<bar>ratio 1 4000 - float_mul (int_true_div 1 4000) 100\<bar>
                       \<le> \<bar>of_int j / 100 - float_mul (int_true_div 1 4000) 100\<bar>" by blast
  then have a5: "\<bar>ratio 1 4000 - float_mul (int_true_div 1 4000) 100\<bar>
      \<le> \<bar>of_int 2 / 100 - float_mul (int_true_div 1 4000) 100\<bar>" by (rule spec)
  have kx: "toque_key ?x = flat_toque_key ?r" by (simp add: toque_key_def toque_values_def flat_toque_key_def)
  have ky: "campaign_key ?y = flat_campaign_key ?c"
    by (simp add: campaign_key_def campaign_values_def flat_campaign_key_def)
  from g0 t kx have b1: "t_ctr ?x = ratio (ft_clicks ?r) (ft_enviados ?r)
      \<and> t_tasa_entrega ?x = ratio (ft_entregados ?r) (ft_enviados ?r)" by simp
  have b2: "t_ctr ?x = ratio 0 0 \<and> t_tasa_entrega ?x = ratio 0 0"
    using b1 by (simp add: example_flat_toque_def)
  from g0 c ky have c1: "m_ctr ?y = ratio (fm_total_clicks ?c) (fm_total_enviados ?c)
      \<and> m_conversion_rate ?y = ratio (fm_total_conversiones ?c) (fm_total_clicks ?c)" by simp
  have c2: "m_ctr ?y = ratio 1 8 \<and> m_conversion_rate ?y = ratio 0 1"
    using c1 by (simp add: example_flat_campaign_def)
  show ?thesis using a1 a2 a3 a4 a5 t c b2 c2 by blast
qed

subsection \<open>Merge policy of the upserts\<close>

lemma ioc_in_place:
  assumes "insert_on_conflict rej key upd x tbl = Inr tbl'" and "old \<in> set tbl" and "key old = key x"
  shows "tbl' = map (\<lambda>r. if key r = key x then upd r x else r) tbl"
proof -
  from assms(2,3) have "key x \<in> key ` set tbl" by (metis imageI)
  with assms(1) show ?thesis by (simp add: ioc_Inr)
qed

lemma contact_values_key: "contact_key (contact_values r) = flat_contact_key r"
  by (simp add: contact_key_def contact_values_def flat_contact_key_def)

lemma contact_set_key: "contact_key (contact_set old x) = contact_key old"
  by (simp add: contact_key_def contact_set_def)

lemma contacts_upsert_in_place:
  assumes "CONTACTS_UPSERT srv r tbl = Inr tbl'" "old \<in> set tbl" "contact_key old = flat_contact_key r"
  shows "tbl' = map (\<lambda>x. if contact_key x = flat_contact_key r
                          then contact_set x (contact_values r) else x) tbl"
proof -
  from assms(1) have ioc: "insert_on_conflict (rejects_contact srv) contact_key contact_set
      (contact_values r) tbl = Inr tbl'" by (simp add: CONTACTS_UPSERT_def)
  from assms(3) have k: "contact_key old = contact_key (contact_values r)"
    by (simp only: contact_values_key)
  have "tbl' = map (\<lambda>x. if contact_key x = contact_key (contact_values r)
                          then contact_set x (contact_values r) else x) tbl"
    by (rule ioc_in_place[where rej="rejects_contact srv" and old=old]) (rule ioc, rule assms(2), rule k)
  then show ?thesis by (simp only: contact_values_key)
qed

lemma toques_upsert_in_place:
  assumes "toques_daily_row srv r tbl = Inr tbl'" "old \<in> set tbl" "toque_key old = flat_toque_key r"
  shows "tbl' = map (\<lambda>x. if toque_key x = flat_toque_key r
                          then toque_set x (toque_values r (ratio (ft_clicks r) (ft_enviados r))
                                 (ratio (ft_entregados r) (ft_enviados r))
                                 (ratio (ft_abiertos r) (ft_entregados r))) else x) tbl"
proof -
  let ?v = "toque_values r (ratio (ft_clicks r) (ft_enviados r))
              (ratio (ft_entregados r) (ft_enviados r)) (ratio (ft_abiertos r) (ft_entregados r))"
  from assms(1) have ioc: "insert_on_conflict (rejects_toque srv) toque_key toque_set ?v tbl = Inr tbl'"
    by (simp add: toques_daily_row_def TOQUES_DAILY_UPSERT_def Let_def)
  from assms(3) have k: "toque_key old = toque_key ?v" by (simp only: toque_values_key)
  have "tbl' = map (\<lambda>x. if toque_key x = toque_key ?v then toque_set x ?v else x) tbl"
    by (rule ioc_in_place[where rej="rejects_toque srv" and old=old]) (rule ioc, rule assms(2), rule k)
  then show ?thesis by (simp only: toque_values_key)
qed

lemma campaigns_upsert_in_place:
  assumes "campaigns_row srv r tbl = Inr tbl'" "old \<in> set tbl" "campaign_key old = flat_campaign_key r"
  shows "tbl' = map (\<lambda>x. if campaign_key x = flat_campaign_key r
                          then campaign_set x (campaign_values r
                                 (ratio (fm_total_clicks r) (fm_total_enviados r))
                                 (ratio (fm_total_entregados r) (fm_total_enviados r))
                                 (ratio (fm_total_abiertos r) (fm_total_entregados r))
                                 (ratio (fm_total_conversiones r) (fm_total_clicks r))) else x) tbl"
proof -
  let ?v = "campaign_values r (ratio (fm_total_clicks r) (fm_total_enviados r))
              (ratio (fm_total_entregados r) (fm_total_enviados r))
              (ratio (fm_total_abiertos r) (fm_total_entregados r))
              (ratio (fm_total_conversiones r) (fm_total_clicks r))"
  from assms(1) have ioc: "insert_on_conflict (rejects_campaign srv) campaign_key campaign_set ?v tbl = Inr tbl'"
    by (simp add: campaigns_row_def CAMPAIGNS_UPSERT_def Let_def)
  from assms(3) have k: "campaign_key old = campaign_key ?v" by (simp only: campaign_values_key)
  have "tbl' = map (\<lambda>x. if campaign_key x = campaign_key ?v then campaign_set x ?v else x) tbl"
    by (rule ioc_in_place[where rej="rejects_campaign srv" and old=old]) (rule ioc, rule assms(2), rule k)
  then show ?thesis by (simp only: campaign_values_key)
qed

text \<open>
  Claim C6, as the code has it. A contacts upsert that hits an existing
  \<open>(tenant_id, contact_id)\<close> row (row \<open>i\<close> of the table) stores, in that row, the least of the
  old and the new \<^verbatim>\<open>first_contact\<close> and the greatest of the old and the new \<^verbatim>\<open>last_contact\<close>:
  the minimum and the maximum when both are present, the one that is present otherwise. It
  replaces the name, keeps the other columns of the row and every other row. A
  \<^verbatim>\<open>toques_daily\<close> upsert that hits an existing key stores the new \<^verbatim>\<open>enviados\<close>,
  \<^verbatim>\<open>entregados\<close>, \<^verbatim>\<open>clicks\<close> and \<^verbatim>\<open>abiertos\<close> in that row, whatever the old ones were, and
  keeps the counters the statement does not update. A \<^verbatim>\<open>campaigns\<close> upsert that hits an
  existing key stores the new totals in that row, overwritten and not added to, except
  \<^verbatim>\<open>total_chunks\<close>, which \<^verbatim>\<open>DO UPDATE SET\<close> does not name: it keeps its old value.
\<close>

theorem field_merge_policy:
  "(CONTACTS_UPSERT srv r tbl = Inr tbl' \<and> i < length tbl \<and> contact_key (tbl ! i) = flat_contact_key r \<longrightarrow>
      length tbl' = length tbl
      \<and> c_first_contact (tbl' ! i) = sql_least (c_first_contact (tbl ! i)) (fc_first_contact r)
      \<and> c_last_contact (tbl' ! i) = sql_greatest (c_last_contact (tbl ! i)) (fc_last_contact r)
      \<and> c_contact_name (tbl' ! i) = fc_contact_name r
      \<and> c_total_messages (tbl' ! i) = c_total_messages (tbl ! i)
      \<and> c_total_conversations (tbl' ! i) = c_total_conversations (tbl ! i)
      \<and> (\<forall>j<length tbl. contact_key (tbl ! j) \<noteq> flat_contact_key r \<longrightarrow> tbl' ! j = tbl ! j))
   \<and> sql_least (Some a) (Some b) = Some (min a b)
   \<and> sql_greatest (Some a) (Some b) = Some (max a b)
   \<and> sql_least None (Some b) = Some b \<and> sql_least (Some a) None = Some a
   \<and> sql_greatest None (Some b) = Some b \<and> sql_greatest (Some a) None = Some a
   \<and> (toques_daily_row srv t ttbl = Inr ttbl' \<and> i < length ttbl \<and> toque_key (ttbl ! i) = flat_toque_key t \<longrightarrow>
      length ttbl' = length ttbl
      \<and> t_enviados (ttbl' ! i) = ft_enviados t
      \<and> t_entregados (ttbl' ! i) = ft_entregados t
      \<and> t_clicks (ttbl' ! i) = ft_clicks t
      \<and> t_abiertos (ttbl' ! i) = ft_abiertos t
      \<and> t_chunks (ttbl' ! i) = t_chunks (ttbl ! i)
      \<and> t_usuarios_unicos (ttbl' ! i) = t_usuarios_unicos (ttbl ! i)
      \<and> t_rebotes (ttbl' ! i) = t_rebotes (ttbl ! i)
      \<and> t_bloqueados (ttbl' ! i) = t_bloqueados (ttbl ! i)
      \<and> t_spam (ttbl' ! i) = t_spam (ttbl ! i)
      \<and> t_desuscritos (ttbl' ! i) = t_desuscritos (ttbl ! i)
      \<and> t_conversiones (ttbl' ! i) = t_conversiones (ttbl ! i)
      \<and> (\<forall>j<length ttbl. toque_key (ttbl ! j) \<noteq> flat_toque_key t \<longrightarrow> ttbl' ! j = ttbl ! j))
   \<and> (campaigns_row srv c ctbl = Inr ctbl' \<and> i < length ctbl \<and> campaign_key (ctbl ! i) = flat_campaign_key c \<longrightarrow>
      length ctbl' = length ctbl
      \<and> m_total_enviados (ctbl' ! i) = fm_total_enviados c
      \<and> m_total_entregados (ctbl' ! i) = fm_total_entregados c
      \<and> m_total_clicks (ctbl' ! i) = fm_total_clicks c
      \<and> m_total_abiertos (ctbl' ! i) = fm_total_abiertos c
      \<and> m_total_rebotes (ctbl' ! i) = fm_total_rebotes c
      \<and> m_total_bloqueados (ctbl' ! i) = fm_total_bloqueados c
      \<and> m_total_spam (ctbl' ! i) = fm_total_spam c
      \<and> m_total_desuscritos (ctbl' ! i) = fm_total_desuscritos c
      \<and> m_total_conversiones (ctbl' ! i) = fm_total_conversiones c
      \<and> m_total_chunks (ctbl' ! i) = m_total_chunks (ctbl ! i)
      \<and> (\<forall>j<length ctbl. campaign_key (ctbl ! j) \<noteq> flat_campaign_key c \<longrightarrow> ctbl' ! j = ctbl ! j))"
proof -
  have A: "length tbl' = length tbl
      \<and> c_first_contact (tbl' ! i) = sql_least (c_first_contact (tbl ! i)) (fc_first_contact r)
      \<and> c_last_contact (tbl' ! i) = sql_greatest (c_last_contact (tbl ! i)) (fc_last_contact r)
      \<and> c_contact_name (tbl' ! i) = fc_contact_name r
      \<and> c_total_messages (tbl' ! i) = c_total_messages (tbl ! i)
      \<and> c_total_conversations (tbl' ! i) = c_total_conversations (tbl ! i)
      \<and> (\<forall>j<length tbl. contact_key (tbl ! j) \<noteq> flat_contact_key r \<longrightarrow> tbl' ! j = tbl ! j)"
    if h: "CONTACTS_UPSERT srv r tbl = Inr tbl'" "i < length tbl" "contact_key (tbl ! i) = flat_contact_key r"
  proof -
    from h(2) have m: "tbl ! i \<in> set tbl" by simp
    have e: "tbl' = map (\<lambda>x. if contact_key x = flat_contact_key r
                          then contact_set x (contact_values r) else x) tbl"
      by (rule contacts_upsert_in_place[OF h(1) m h(3)])
    show ?thesis using h(2,3) unfolding e by (simp add: contact_set_def contact_values_def)
  qed
  have B: "length ttbl' = length ttbl
      \<and> t_enviados (ttbl' ! i) = ft_enviados t
      \<and> t_entregados (ttbl' ! i) = ft_entregados t
      \<and> t_clicks (ttbl' ! i) = ft_clicks t
      \<and> t_abiertos (ttbl' ! i) = ft_abiertos t
      \<and> t_chunks (ttbl' ! i) = t_chunks (ttbl ! i)
      \<and> t_usuarios_unicos (ttbl' ! i) = t_usuarios_unicos (ttbl ! i)
      \<and> t_rebotes (ttbl' ! i) = t_rebotes (ttbl ! i)
      \<and> t_bloqueados (ttbl' ! i) = t_bloqueados (ttbl ! i)
      \<and> t_spam (ttbl' ! i) = t_spam (ttbl ! i)
      \<and> t_desuscritos (ttbl' ! i) = t_desuscritos (ttbl ! i)
      \<and> t_conversiones (ttbl' ! i) = t_conversiones (ttbl ! i)
      \<and> (\<forall>j<length ttbl. toque_key (ttbl ! j) \<noteq> flat_toque_key t \<longrightarrow> ttbl' ! j = ttbl ! j)"
    if h: "toques_daily_row srv t ttbl = Inr ttbl'" "i < length ttbl" "toque_key (ttbl ! i) = flat_toque_key t"
  proof -
    from h(2) have m: "ttbl ! i \<in> set ttbl" by simp
    note e = toques_upsert_in_place[OF h(1) m h(3)]
    show ?thesis using h(2,3) unfolding e by (simp add: toque_set_def toque_values_def)
  qed
  have C: "length ctbl' = length ctbl
      \<and> m_total_enviados (ctbl' ! i) = fm_total_enviados c
      \<and> m_total_entregados (ctbl' ! i) = fm_total_entregados c
      \<and> m_total_clicks (ctbl' ! i) = fm_total_clicks c
      \<and> m_total_abiertos (ctbl' ! i) = fm_total_abiertos c
      \<and> m_total_rebotes (ctbl' ! i) = fm_total_rebotes c
      \<and> m_total_bloqueados (ctbl' ! i) = fm_total_bloqueados c
      \<and> m_total_spam (ctbl' ! i) = fm_total_spam c
      \<and> m_total_desuscritos (ctbl' ! i) = fm_total_desuscritos c
      \<and> m_total_conversiones (ctbl' ! i) = fm_total_conversiones c
      \<and> m_total_chunks (ctbl' ! i) = m_total_chunks (ctbl ! i)
      \<and> (\<forall>j<length ctbl. campaign_key (ctbl ! j) \<noteq> flat_campaign_key c \<longrightarrow> ctbl' ! j = ctbl ! j)"
    if h: "campaigns_row srv c ctbl = Inr ctbl'" "i < length ctbl" "campaign_key (ctbl ! i) = flat_campaign_key c"
  proof -
    from h(2) have m: "ctbl ! i \<in> set ctbl" by simp
    note e = campaigns_upsert_in_place[OF h(1) m h(3)]
    show ?thesis using h(2,3) unfolding e by (simp add: campaign_set_def campaign_values_def)
  qed
  have D: "sql_least (Some a) (Some b) = Some (min a b)
   \<and> sql_greatest (Some a) (Some b) = Some (max a b)
   \<and> sql_least None (Some b) = Some b \<and> sql_least (Some a) None = Some a
   \<and> sql_greatest None (Some b) = Some b \<and> sql_greatest (Some a) None = Some a"
    by (simp add: sql_least_def sql_greatest_def)
  show ?thesis using A B C D by blast
qed

text \<open>
  The claim as stated has every campaign total overwritten. \<^verbatim>\<open>CAMPAIGNS_UPSERT\<close> proposes
  \<^verbatim>\<open>total_chunks = 0\<close> and does not name the column in \<^verbatim>\<open>DO UPDATE SET\<close>: a row that had 7
  chunks still has 7 after the upsert, not the 0 that was proposed.
\<close>

theorem field_merge_policy_counterexample:
  "campaigns_row example_server (example_flat_campaign 4 4 2 2 0 2)
        [(campaign_values (example_flat_campaign 10 10 5 5 1 1) 50 100 50 20)\<lparr>m_total_chunks := 7\<rparr>]
      = Inr [(campaign_values (example_flat_campaign 4 4 2 2 0 1) 50 100 50 0)\<lparr>m_total_chunks := 7\<rparr>]
   \<and> m_total_chunks (campaign_proposed (example_flat_campaign 4 4 2 2 0 2)) = 0
   \<and> m_total_chunks ((campaign_values (example_flat_campaign 4 4 2 2 0 1) 50 100 50 0)\<lparr>m_total_chunks := 7\<rparr>) = 7"
  by code_simp

theorem field_merge_policy_witness:
  "CONTACTS_UPSERT example_server (example_flat_contact (Some ''Gisela'') (Some 19844) (Some 19846) 2)
       [contact_values (example_flat_contact (Some ''Gise'') (Some 19845) (Some 19845) 1)]
     = Inr [\<lparr>c_tenant_id = ''visionamos'', c_contact_id = ''573054821614'',
              c_contact_name = Some ''Gisela'', c_total_messages = 0,
              c_first_contact = Some 19844, c_last_contact = Some 19846,
              c_total_conversations = 0\<rparr>]
   \<and> sql_least (Some (19845::int)) (Some 19844) = Some 19844
   \<and> sql_greatest (Some (19845::int)) (Some 19846) = Some 19846
   \<and> toques_daily_row example_server (example_flat_toque 4 4 2 2 2)
        [toque_values (example_flat_toque 10 10 5 5 1) 50 100 50]
      = Inr [toque_values (example_flat_toque 4 4 2 2 1) 50 100 50]
   \<and> t_enviados (toque_values (example_flat_toque 4 4 2 2 1) 50 100 50) = 4
   \<and> campaigns_row example_server (example_flat_campaign 4 4 2 2 0 2)
        [(campaign_values (example_flat_campaign 10 10 5 5 1 1) 50 100 50 20)\<lparr>m_total_chunks := 7\<rparr>]
      = Inr [(campaign_values (example_flat_campaign 4 4 2 2 0 1) 50 100 50 0)\<lparr>m_total_chunks := 7\<rparr>]
   \<and> m_total_enviados (campaign_values (example_flat_campaign 4 4 2 2 0 1) 50 100 50 0) = 4
   \<and> m_total_chunks ((campaign_values (example_flat_campaign 4 4 2 2 0 1) 50 100 50 0)\<lparr>m_total_chunks := 7\<rparr>) = 7"
proof -
  let ?r = "example_flat_contact (Some ''Gisela'') (Some 19844) (Some 19846) 2"
  let ?tbl = "[contact_values (example_flat_contact (Some ''Gise'') (Some 19845) (Some 19845) 1)]"
  let ?tbl' = "[\<lparr>c_tenant_id = ''visionamos'', c_contact_id = ''573054821614'',
              c_contact_name = Some ''Gisela'', c_total_messages = 0,
              c_first_contact = Some 19844, c_last_contact = Some 19846,
              c_total_conversations = 0\<rparr>]"
  let ?t = "example_flat_toque 4 4 2 2 2"
  let ?ttbl = "[toque_values (example_flat_toque 10 10 5 5 1) 50 100 50]"
  let ?ttbl' = "[toque_values (example_flat_toque 4 4 2 2 1) 50 100 50]"
  let ?c = "example_flat_campaign 4 4 2 2 0 2"
  let ?ctbl = "[(campaign_values (example_flat_campaign 10 10 5 5 1 1) 50 100 50 20)\<lparr>m_total_chunks := 7\<rparr>]"
  let ?ctbl' = "[(campaign_values (example_flat_campaign 4 4 2 2 0 1) 50 100 50 0)\<lparr>m_total_chunks := 7\<rparr>]"
  have h1: "CONTACTS_UPSERT example_server ?r ?tbl = Inr ?tbl'" by code_simp
  have h2: "toques_daily_row example_server ?t ?ttbl = Inr ?ttbl'" by code_simp
  have h3: "campaigns_row example_server ?c ?ctbl = Inr ?ctbl'" by code_simp
  have k1: "contact_key (?tbl ! 0) = flat_contact_key ?r" by code_simp
  have k2: "toque_key (?ttbl ! 0) = flat_toque_key ?t" by code_simp
  have k3: "campaign_key (?ctbl ! 0) = flat_campaign_key ?c" by code_simp
  note g = field_merge_policy[where srv=example_server and r="?r" and tbl="?tbl" and tbl'="?tbl'"
     and i=0 and t="?t" and ttbl="?ttbl" and ttbl'="?ttbl'" and c="?c" and ctbl="?ctbl"
     and ctbl'="?ctbl'" and a="19845::int" and b="19844::int"]
  note g' = field_merge_policy[where srv=example_server and r="?r" and tbl="?tbl" and tbl'="?tbl'"
     and i=0 and t="?t" and ttbl="?ttbl" and ttbl'="?ttbl'" and c="?c" and ctbl="?ctbl"
     and ctbl'="?ctbl'" and a="19845::int" and b="19846::int"]
  have l: "(0::nat) < length ?tbl" "(0::nat) < length ?ttbl" "(0::nat) < length ?ctbl" by simp_all
  from g h2 k2 l(2) have e1: "t_enviados (?ttbl' ! 0) = ft_enviados ?t" by blast
  from g h3 k3 l(3) have e2: "m_total_enviados (?ctbl' ! 0) = fm_total_enviados ?c" by blast
  from g have e3: "sql_least (Some (19845::int)) (Some 19844) = Some (min 19845 19844)" by blast
  from g' have e4: "sql_greatest (Some (19845::int)) (Some 19846) = Some (max 19845 19846)" by blast
  have f1: "t_enviados (toque_values (example_flat_toque 4 4 2 2 1) 50 100 50) = 4"
    using e1 by (simp add: example_flat_toque_def)
  have f2: "m_total_enviados (campaign_values (example_flat_campaign 4 4 2 2 0 1) 50 100 50 0) = 4"
    using e2 by (simp add: example_flat_campaign_def campaign_values_def)
  from g h3 k3 l(3) have e5: "m_total_chunks (?ctbl' ! 0) = m_total_chunks (?ctbl ! 0)" by blast
  have f5: "m_total_chunks ((campaign_values (example_flat_campaign 4 4 2 2 0 1) 50 100 50 0)\<lparr>m_total_chunks := 7\<rparr>) = 7"
    using e5 by simp
  have f3: "sql_least (Some (19845::int)) (Some 19844) = Some 19844" using e3 by simp
  have f4: "sql_greatest (Some (19845::int)) (Some 19846) = Some 19846" using e4 by simp
  show ?thesis using h1 h2 h3 f1 f2 f3 f4 f5 by blast
qed

section \<open>Properties of the extractors\<close>

subsection \<open>The events of a pagination loop\<close>

lemma calls_append [simp]: "calls (a @ b) = calls a @ calls b"
  by (simp add: calls_def)

lemma snapshots_append [simp]: "snapshots (a @ b) = snapshots a @ snapshots b"
  by (simp add: snapshots_def)

lemma stored_pages_append [simp]: "stored_pages (a @ b) = stored_pages a @ stored_pages b"
  by (induction a rule: stored_pages.induct) simp_all

lemma returned_pages_append [simp]: "returned_pages (a @ b) = returned_pages a @ returned_pages b"
  by (induction a rule: returned_pages.induct) simp_all

lemma calls_Nil [simp]: "calls [] = []"
  by (simp add: calls_def)

lemma snapshots_Nil [simp]: "snapshots [] = []"
  by (simp add: snapshots_def)

lemma calls_page_block [simp]: "calls (page_block self app_id k r out) = [Called r]"
  by (simp add: page_block_def calls_def split: sum.splits)

lemma snapshots_page_block:
  "length (snapshots (page_block self app_id k r out))
     = (case out of Inl exc \<Rightarrow> 0 | Inr d \<Rightarrow> if has_items d then 1 else 0)"
  by (simp add: page_block_def snapshots_def split: sum.splits)

lemma stored_pages_page_block:
  "stored_pages (page_block self app_id k r out) = pages_with_items [out]"
  by (simp add: page_block_def pages_with_items_def split: sum.splits)


lemma not_ends_has_items:
  "\<not> ends_loop ps out \<Longrightarrow> \<exists>d. out = Inr d \<and> has_items d"
  by (auto simp: ends_loop_def split: sum.splits)

lemma fetch_page_block:
  "\<exists>n'. fetch_page self app_id ep ps cursor (tr, n)
     = (ends_loop ps (client self (length (calls tr)) (page_request ep app_id ps cursor)),
        (tr @ page_block self app_id (length (snapshots tr)) (page_request ep app_id ps cursor)
                (client self (length (calls tr)) (page_request ep app_id ps cursor)), n'))"
  by (auto simp: fetch_page_def client_get_def store_raw_def Let_def page_block_def ends_loop_def
        has_items_def page_request_def snapshots_def
      split: sum.splits)

lemma for_pages_events:
  "fst (for_pages (\<lambda>p. fetch_page self app_id ep ps (cur p)) pgs (tr, n))
     = tr @ loop_events self app_id ps (length (calls tr)) (length (snapshots tr))
              (map (\<lambda>p. page_request ep app_id ps (cur p)) pgs)"
proof (induction pgs arbitrary: tr n)
  case Nil
  then show ?case by simp
next
  case (Cons p pgs)
  let ?r = "page_request ep app_id ps (cur p)"
  let ?out = "client self (length (calls tr)) ?r"
  let ?blk = "page_block self app_id (length (snapshots tr)) ?r ?out"
  from fetch_page_block[of self app_id ep ps "cur p" tr n] obtain n' where
    st: "fetch_page self app_id ep ps (cur p) (tr, n) = (ends_loop ps ?out, (tr @ ?blk, n'))" by blast
  show ?case
  proof (cases "ends_loop ps ?out")
    case True
    with st show ?thesis by simp
  next
    case False
    from not_ends_has_items[OF False] obtain d where d: "?out = Inr d" "has_items d" by blast
    have c: "length (calls (tr @ ?blk)) = Suc (length (calls tr))" by simp
    have s: "length (snapshots ?blk) = 1"
      using d by (simp add: snapshots_page_block)
    from Cons.IH[of "tr @ ?blk" n'] False st show ?thesis by (simp add: c s)
  qed
qed

lemma map_upt_shift:
  "map f [0..<Suc m] = f 0 # map (\<lambda>j. f (Suc j)) [0..<m]"
  by (simp add: upt_conv_Cons map_Suc_upt[symmetric] del: upt_Suc)

lemma chat_pages_events:
  "fst (fst (for_pages (chat_page self app_id ps) pgs ((tr, n), off)))
     = tr @ loop_events self app_id ps (length (calls tr)) (length (snapshots tr))
              (map (\<lambda>j. page_request ''/v1/chat/contacts'' app_id ps (''offset'', PInt (off + int j * ps)))
                 [0..<length pgs])"
proof (induction pgs arbitrary: tr n off)
  case Nil
  then show ?case by simp
next
  case (Cons p pgs)
  let ?r = "page_request ''/v1/chat/contacts'' app_id ps (''offset'', PInt off)"
  let ?out = "client self (length (calls tr)) ?r"
  let ?blk = "page_block self app_id (length (snapshots tr)) ?r ?out"
  from fetch_page_block[of self app_id "''/v1/chat/contacts''" ps "(''offset'', PInt off)" tr n]
  obtain n' where
    st: "fetch_page self app_id ''/v1/chat/contacts'' ps (''offset'', PInt off) (tr, n)
           = (ends_loop ps ?out, (tr @ ?blk, n'))" by blast
  have cp: "chat_page self app_id ps p ((tr, n), off)
      = (ends_loop ps ?out, ((tr @ ?blk, n'), if ends_loop ps ?out then off else off + ps))"
    using st by (cases "ends_loop ps ?out") (simp_all add: chat_page_def)
  have reqs: "map (\<lambda>j. page_request ''/v1/chat/contacts'' app_id ps (''offset'', PInt (off + int j * ps)))
                 [0..<length (p # pgs)]
     = ?r # map (\<lambda>j. page_request ''/v1/chat/contacts'' app_id ps (''offset'', PInt (off + ps + int j * ps)))
                 [0..<length pgs]"
    using map_upt_shift[of "\<lambda>j. page_request ''/v1/chat/contacts'' app_id ps (''offset'', PInt (off + int j * ps))"
        "length pgs"]
    by (simp add: algebra_simps)
  show ?case
  proof (cases "ends_loop ps ?out")
    case True
    with cp show ?thesis unfolding reqs by simp
  next
    case False
    from not_ends_has_items[OF False] obtain d where d: "?out = Inr d" "has_items d" by blast
    have c: "length (calls (tr @ ?blk)) = Suc (length (calls tr))" by simp
    have s: "length (snapshots ?blk) = 1"
      using d by (simp add: snapshots_page_block)
    from Cons.IH[of "tr @ ?blk" n' "off + ps"] False cp show ?thesis unfolding reqs
      by (simp add: c s)
  qed
qed

lemma contacts_pages_events:
  "fst (contacts_pages self app_id ps tr)
     = tr @ loop_events self app_id ps (length (calls tr)) (length (snapshots tr))
              (contacts_requests app_id ps)"
  unfolding contacts_pages_def contacts_requests_def
  by (rule for_pages_events[of self app_id "''/v1/chat/contacts''" ps "\<lambda>p. (''page'', PInt (int p))"])

lemma campaigns_pages_events:
  "fst (campaigns_pages self app_id ps tr)
     = tr @ loop_events self app_id ps (length (calls tr)) (length (snapshots tr))
              (campaigns_requests app_id ps)"
  unfolding campaigns_pages_def campaigns_requests_def
  by (rule for_pages_events[of self app_id "''/v1/campaign''" ps "\<lambda>p. (''page'', PInt (int p))"])

lemma chat_pages_loop_events:
  "fst (fst (chat_pages self app_id ps tr))
     = tr @ loop_events self app_id ps (length (calls tr)) (length (snapshots tr))
              (chat_requests app_id ps)"
  unfolding chat_pages_def chat_requests_def
  using chat_pages_events[of self app_id ps "[0..<MAX_PAGES]" tr 0 0] by simp


lemma answers_Nil [simp]: "answers self c [] = []"
  by (simp add: answers_def)

lemma answers_Cons [simp]: "answers self c (r # rs) = client self c r # answers self (Suc c) rs"
  by (simp add: answers_def)

lemma length_answers [simp]: "length (answers self c reqs) = length reqs"
  by (simp add: answers_def)

lemma requests_made_Nil [simp]: "requests_made ps [] = 0"
  by (simp add: requests_made_def)

lemma requests_made_Cons [simp]:
  "requests_made ps (out # outs) = (if ends_loop ps out then 1 else Suc (requests_made ps outs))"
  by (simp add: requests_made_def)

lemma requests_made_bounds:
  "requests_made ps outs \<le> length outs \<and> (outs \<noteq> [] \<longrightarrow> 1 \<le> requests_made ps outs)"
  by (cases outs) (simp_all add: requests_made_def)

lemma requests_made_range:
  "length outs = n \<Longrightarrow> 0 < n \<Longrightarrow> 1 \<le> requests_made ps outs \<and> requests_made ps outs \<le> n"
  by (cases outs) (auto simp: requests_made_def)

lemma pages_with_items_Cons:
  "pages_with_items (out # outs) = pages_with_items [out] @ pages_with_items outs"
  by (simp add: pages_with_items_def)

lemma loop_events_calls:
  "calls (loop_events self app_id ps c k reqs)
     = map Called (take (requests_made ps (answers self c reqs)) reqs)"
  by (induction reqs arbitrary: c k) simp_all

lemma loop_events_stored:
  "stored_pages (loop_events self app_id ps c k reqs)
     = pages_with_items (take (requests_made ps (answers self c reqs)) (answers self c reqs))"
proof (induction reqs arbitrary: c k)
  case Nil
  then show ?case by (simp add: pages_with_items_def)
next
  case (Cons r rs)
  show ?case
    using Cons.IH[of "Suc c" "Suc k"]
    by (simp add: stored_pages_page_block pages_with_items_Cons[of _ "take _ _"])
qed


lemma snapshots_stored_pages: "length (snapshots tr) = length (stored_pages tr)"
  by (induction tr rule: stored_pages.induct) (simp_all add: snapshots_def)









subsection \<open>Each page is stored before the next request\<close>




subsection \<open>When the pagination loop stops\<close>

lemma loop_counts:
  assumes "tr' = tr @ loop_events self app_id ps (length (calls tr)) (length (snapshots tr)) reqs"
  shows "calls (drop (length tr) tr')
           = map Called (take (requests_made ps (answers self (length (calls tr)) reqs)) reqs)
       \<and> stored_pages (drop (length tr) tr')
           = pages_with_items (take (requests_made ps (answers self (length (calls tr)) reqs))
                                    (answers self (length (calls tr)) reqs))
       \<and> length (calls tr')
           = length (calls tr) + requests_made ps (answers self (length (calls tr)) reqs)
       \<and> length (snapshots tr')
           = length (snapshots tr)
             + length (pages_with_items (take (requests_made ps (answers self (length (calls tr)) reqs))
                                              (answers self (length (calls tr)) reqs)))"
proof -
  let ?n = "requests_made ps (answers self (length (calls tr)) reqs)"
  let ?le = "loop_events self app_id ps (length (calls tr)) (length (snapshots tr)) reqs"
  have n: "?n \<le> length reqs" using requests_made_bounds[of ps "answers self (length (calls tr)) reqs"]
    by simp
  have a: "calls ?le = map Called (take ?n reqs)" by (rule loop_events_calls)
  have b: "stored_pages ?le = pages_with_items (take ?n (answers self (length (calls tr)) reqs))"
    by (rule loop_events_stored)
  have c: "length (calls ?le) = ?n" unfolding a using n by simp
  have d: "length (snapshots ?le)
      = length (pages_with_items (take ?n (answers self (length (calls tr)) reqs)))"
  proof -
    have "length (snapshots ?le) = length (stored_pages ?le)" by (rule snapshots_stored_pages)
    then show ?thesis by (simp only: b)
  qed
  show ?thesis unfolding assms using a b c d by simp
qed

text \<open>
  Claim C5, as the code has it. With any client, each of the three loops sends the requests
  for pages 0, 1, 2, ... (offsets 0, \<open>page_size\<close>, ... for chat) up to and including the first
  whose outcome ends the loop, and all \<open>MAX_PAGES = 50\<close> when none does. The outcomes that end
  the loop are: the client raised; it returned \<^verbatim>\<open>None\<close>; the page has no items; the items
  have no length; there are fewer items than the page size. The snapshots stored are the
  pages with items among the answers to the requests sent. So the loop sends between 1 and
  50 requests.
\<close>

theorem pagination_termination:
  "calls (drop (length tr) (fst (contacts_pages self app_id page_size tr)))
     = map Called (take (requests_made page_size
                           (answers self (length (calls tr)) (contacts_requests app_id page_size)))
                        (contacts_requests app_id page_size))
   \<and> stored_pages (drop (length tr) (fst (contacts_pages self app_id page_size tr)))
     = pages_with_items (take (requests_made page_size
                                 (answers self (length (calls tr)) (contacts_requests app_id page_size)))
                              (answers self (length (calls tr)) (contacts_requests app_id page_size)))
   \<and> length (calls (fst (contacts_pages self app_id page_size tr)))
     = length (calls tr)
       + requests_made page_size (answers self (length (calls tr)) (contacts_requests app_id page_size))
   \<and> length (snapshots (fst (contacts_pages self app_id page_size tr)))
     = length (snapshots tr)
       + length (pages_with_items
                   (take (requests_made page_size
                            (answers self (length (calls tr)) (contacts_requests app_id page_size)))
                         (answers self (length (calls tr)) (contacts_requests app_id page_size))))
   \<and> calls (drop (length tr) (fst (campaigns_pages self app_id page_size tr)))
     = map Called (take (requests_made page_size
                           (answers self (length (calls tr)) (campaigns_requests app_id page_size)))
                        (campaigns_requests app_id page_size))
   \<and> stored_pages (drop (length tr) (fst (campaigns_pages self app_id page_size tr)))
     = pages_with_items (take (requests_made page_size
                                 (answers self (length (calls tr)) (campaigns_requests app_id page_size)))
                              (answers self (length (calls tr)) (campaigns_requests app_id page_size)))
   \<and> length (calls (fst (campaigns_pages self app_id page_size tr)))
     = length (calls tr)
       + requests_made page_size (answers self (length (calls tr)) (campaigns_requests app_id page_size))
   \<and> length (snapshots (fst (campaigns_pages self app_id page_size tr)))
     = length (snapshots tr)
       + length (pages_with_items
                   (take (requests_made page_size
                            (answers self (length (calls tr)) (campaigns_requests app_id page_size)))
                         (answers self (length (calls tr)) (campaigns_requests app_id page_size))))
   \<and> calls (drop (length tr) (fst (fst (chat_pages self app_id page_size tr))))
     = map Called (take (requests_made page_size
                           (answers self (length (calls tr)) (chat_requests app_id page_size)))
                        (chat_requests app_id page_size))
   \<and> stored_pages (drop (length tr) (fst (fst (chat_pages self app_id page_size tr))))
     = pages_with_items (take (requests_made page_size
                                 (answers self (length (calls tr)) (chat_requests app_id page_size)))
                              (answers self (length (calls tr)) (chat_requests app_id page_size)))
   \<and> length (calls (fst (fst (chat_pages self app_id page_size tr))))
     = length (calls tr)
       + requests_made page_size (answers self (length (calls tr)) (chat_requests app_id page_size))
   \<and> length (snapshots (fst (fst (chat_pages self app_id page_size tr))))
     = length (snapshots tr)
       + length (pages_with_items
                   (take (requests_made page_size
                            (answers self (length (calls tr)) (chat_requests app_id page_size)))
                         (answers self (length (calls tr)) (chat_requests app_id page_size))))
   \<and> 1 \<le> requests_made page_size (answers self c (contacts_requests app_id page_size))
   \<and> requests_made page_size (answers self c (contacts_requests app_id page_size)) \<le> 50
   \<and> 1 \<le> requests_made page_size (answers self c (campaigns_requests app_id page_size))
   \<and> requests_made page_size (answers self c (campaigns_requests app_id page_size)) \<le> 50
   \<and> 1 \<le> requests_made page_size (answers self c (chat_requests app_id page_size))
   \<and> requests_made page_size (answers self c (chat_requests app_id page_size)) \<le> 50"
proof -
  note a = loop_counts[OF contacts_pages_events[of self app_id page_size tr]]
  note b = loop_counts[OF campaigns_pages_events[of self app_id page_size tr]]
  note c = loop_counts[OF chat_pages_loop_events[of self app_id page_size tr]]
  have l: "length (contacts_requests app_id page_size) = 50"
    "length (campaigns_requests app_id page_size) = 50"
    "length (chat_requests app_id page_size) = 50"
    by (simp_all add: contacts_requests_def campaigns_requests_def chat_requests_def MAX_PAGES_def)
  have d: "1 \<le> requests_made page_size (answers self c (contacts_requests app_id page_size))
   \<and> requests_made page_size (answers self c (contacts_requests app_id page_size)) \<le> 50"
    by (rule requests_made_range) (simp_all add: l)
  have e: "1 \<le> requests_made page_size (answers self c (campaigns_requests app_id page_size))
   \<and> requests_made page_size (answers self c (campaigns_requests app_id page_size)) \<le> 50"
    by (rule requests_made_range) (simp_all add: l)
  have f: "1 \<le> requests_made page_size (answers self c (chat_requests app_id page_size))
   \<and> requests_made page_size (answers self c (chat_requests app_id page_size)) \<le> 50"
    by (rule requests_made_range) (simp_all add: l)
  show ?thesis
    by (intro conjI)
       (rule a[THEN conjunct1], rule a[THEN conjunct2, THEN conjunct1],
        rule a[THEN conjunct2, THEN conjunct2, THEN conjunct1],
        rule a[THEN conjunct2, THEN conjunct2, THEN conjunct2],
        rule b[THEN conjunct1], rule b[THEN conjunct2, THEN conjunct1],
        rule b[THEN conjunct2, THEN conjunct2, THEN conjunct1],
        rule b[THEN conjunct2, THEN conjunct2, THEN conjunct2],
        rule c[THEN conjunct1], rule c[THEN conjunct2, THEN conjunct1],
        rule c[THEN conjunct2, THEN conjunct2, THEN conjunct1],
        rule c[THEN conjunct2, THEN conjunct2, THEN conjunct2],
        rule d[THEN conjunct1], rule d[THEN conjunct2],
        rule e[THEN conjunct1], rule e[THEN conjunct2],
        rule f[THEN conjunct1], rule f[THEN conjunct2])
qed

text \<open>
  The claim as stated has the loop stop only on an empty page, a short page or the bound.
  Here the first answer is a full page of 50 items and the second request raises (or
  returns \<^verbatim>\<open>None\<close>): the loop stops after 2 requests and 1 snapshot, with no empty or short
  page and far from the bound.
\<close>

theorem pagination_termination_counterexample:
  "fst (contacts_pages (flaky_extractor (Inl ''timed out'')) ''100274'' 50 [])
     = [Called (example_request 50 0), Returned (example_page 50), Stored (example_snapshot 0 50),
        Called (example_request 50 1), Raised ''timed out'']
   \<and> py_len (items_of (example_page 50)) = Inr 50
   \<and> length (calls (fst (contacts_pages (flaky_extractor (Inl ''timed out'')) ''100274'' 50 []))) = 2
   \<and> length (snapshots (fst (contacts_pages (flaky_extractor (Inl ''timed out'')) ''100274'' 50 []))) = 1
   \<and> fst (contacts_pages (flaky_extractor (Inr JNull)) ''100274'' 50 [])
     = [Called (example_request 50 0), Returned (example_page 50), Stored (example_snapshot 0 50),
        Called (example_request 50 1), Returned JNull]
   \<and> length (calls (fst (fst (chat_pages (flaky_extractor (Inr JNull)) ''100274'' 50 [])))) = 2
   \<and> (2::nat) < MAX_PAGES"
  by code_simp

theorem pagination_termination_witness:
  "length (calls (fst (contacts_pages (example_extractor [50, 50, 23]) ''100274'' (page_size_of 50) []))) = 3
   \<and> length (snapshots (fst (contacts_pages (example_extractor [50, 50, 23]) ''100274'' (page_size_of 50) []))) = 3
   \<and> length (calls (fst (campaigns_pages (example_extractor [50, 50, 23]) ''100274'' (page_size_of 50) []))) = 3
   \<and> length (snapshots (fst (campaigns_pages (example_extractor [50, 50, 23]) ''100274'' (page_size_of 50) []))) = 3
   \<and> length (calls (fst (fst (chat_pages (example_extractor [50, 50, 23]) ''100274'' (page_size_of 50) [])))) = 3
   \<and> length (snapshots (fst (fst (chat_pages (example_extractor [50, 50, 23]) ''100274'' (page_size_of 50) [])))) = 3
   \<and> map (\<lambda>out. ends_loop 50 out)
       (take 4 (answers (example_extractor [50, 50, 23]) 0 (contacts_requests ''100274'' 50)))
     = [False, False, True, True]"
proof -
  let ?e = "example_extractor [50, 50, 23]"
  have p: "page_size_of 50 = 50" by (simp add: page_size_of_def)
  have n1: "requests_made 50 (answers ?e 0 (contacts_requests ''100274'' 50)) = 3" by code_simp
  have n2: "requests_made 50 (answers ?e 0 (campaigns_requests ''100274'' 50)) = 3" by code_simp
  have n3: "requests_made 50 (answers ?e 0 (chat_requests ''100274'' 50)) = 3" by code_simp
  have m1: "length (pages_with_items (take 3 (answers ?e 0 (contacts_requests ''100274'' 50)))) = 3"
    by code_simp
  have m2: "length (pages_with_items (take 3 (answers ?e 0 (campaigns_requests ''100274'' 50)))) = 3"
    by code_simp
  have m3: "length (pages_with_items (take 3 (answers ?e 0 (chat_requests ''100274'' 50)))) = 3"
    by code_simp
  have e: "map (\<lambda>out. ends_loop 50 out) (take 4 (answers ?e 0 (contacts_requests ''100274'' 50)))
     = [False, False, True, True]" by code_simp
  note g = pagination_termination[of "[]" ?e "''100274''" 50 0]
  from g have c1: "length (calls (fst (contacts_pages ?e ''100274'' 50 [])))
     = length (calls []) + requests_made 50 (answers ?e (length (calls [])) (contacts_requests ''100274'' 50))"
    by blast
  from g have s1: "length (snapshots (fst (contacts_pages ?e ''100274'' 50 [])))
     = length (snapshots [])
       + length (pages_with_items
                   (take (requests_made 50 (answers ?e (length (calls [])) (contacts_requests ''100274'' 50)))
                         (answers ?e (length (calls [])) (contacts_requests ''100274'' 50))))"
    by blast
  from g have c2: "length (calls (fst (campaigns_pages ?e ''100274'' 50 [])))
     = length (calls []) + requests_made 50 (answers ?e (length (calls [])) (campaigns_requests ''100274'' 50))"
    by blast
  from g have s2: "length (snapshots (fst (campaigns_pages ?e ''100274'' 50 [])))
     = length (snapshots [])
       + length (pages_with_items
                   (take (requests_made 50 (answers ?e (length (calls [])) (campaigns_requests ''100274'' 50)))
                         (answers ?e (length (calls [])) (campaigns_requests ''100274'' 50))))"
    by blast
  from g have c3: "length (calls (fst (fst (chat_pages ?e ''100274'' 50 []))))
     = length (calls []) + requests_made 50 (answers ?e (length (calls [])) (chat_requests ''100274'' 50))"
    by blast
  from g have s3: "length (snapshots (fst (fst (chat_pages ?e ''100274'' 50 []))))
     = length (snapshots [])
       + length (pages_with_items
                   (take (requests_made 50 (answers ?e (length (calls [])) (chat_requests ''100274'' 50)))
                         (answers ?e (length (calls [])) (chat_requests ''100274'' 50))))"
    by blast
  show ?thesis unfolding p
    using c1 s1 c2 s2 c3 s3 e by (simp add: n1 n2 n3 m1 m2 m3)
qed

text \<open>
  The endpoint of the spec's scenario through the whole of \<^verbatim>\<open>_extract_for_app\<close>: three
  requests and three snapshots for \<^verbatim>\<open>/v1/chat/contacts\<close>; the contacts extractor then makes a
  fourth request, for the agent status.
\<close>

lemma contacts_extractor_scenario:
  "calls_to ''/v1/chat/contacts''
     (ContactsExtractor_extract_for_app (example_extractor [50, 50, 23]) 50 ''100274'' []) = 3
   \<and> snapshots_of ''/v1/chat/contacts''
     (ContactsExtractor_extract_for_app (example_extractor [50, 50, 23]) 50 ''100274'' []) = 3
   \<and> length (calls (ContactsExtractor_extract_for_app (example_extractor [50, 50, 23]) 50 ''100274'' [])) = 4
   \<and> calls_to ''/v1/chat/contacts''
     (ChatExtractor_extract_for_app (example_extractor [0, 50, 50, 23]) 50 ''100274'' []) = 3
   \<and> snapshots_of ''/v1/chat/contacts''
     (ChatExtractor_extract_for_app (example_extractor [0, 50, 50, 23]) 50 ''100274'' []) = 3"
  by code_simp

section \<open>Properties of the transforms\<close>

subsection \<open>Runs of upserts\<close>

lemma upserted_eq:
  "upserted key upd x tbl =
     (if key x \<in> key ` set tbl
      then map (\<lambda>r. if key r = key x then upd r x else r) tbl else tbl @ [x])"
proof -
  have "list_ex (\<lambda>r. key r = key x) tbl \<longleftrightarrow> key x \<in> key ` set tbl"
    unfolding list_ex_iff by (metis imageE imageI)
  then show ?thesis by (simp add: upserted_def)
qed

lemma upserted_keys:
  assumes "\<And>old v. key (upd old v) = key old"
  shows "map key (upserted key upd x tbl) =
     (if key x \<in> key ` set tbl then map key tbl else map key tbl @ [key x])"
proof -
  have "map key (map (\<lambda>r. if key r = key x then upd r x else r) tbl) = map key tbl"
    by (rule map_key_update) (rule assms)
  then show ?thesis by (simp add: upserted_eq)
qed

lemma upserted_key_set:
  assumes "\<And>old v. key (upd old v) = key old"
  shows "key ` set (upserted key upd x tbl) = insert (key x) (key ` set tbl)"
proof -
  have "set (map key (upserted key upd x tbl)) = insert (key x) (key ` set tbl)"
    unfolding upserted_keys[of key upd, OF assms] by auto
  then show ?thesis by simp
qed

lemma upserted_distinct:
  assumes "\<And>old v. key (upd old v) = key old" "distinct (map key tbl)"
  shows "distinct (map key (upserted key upd x tbl))"
  unfolding upserted_keys[of key upd, OF assms(1)] using assms(2) by auto

lemma upserted_other:
  assumes "\<And>old v. key (upd old v) = key old" "k \<noteq> key x"
  shows "filter (\<lambda>r. key r = k) (upserted key upd x tbl) = filter (\<lambda>r. key r = k) tbl"
proof -
  have "filter (\<lambda>r. key r = k) (map (\<lambda>r. if key r = key x then upd r x else r) tbl)
        = filter (\<lambda>r. key r = k) tbl"
    using assms by (induction tbl) auto
  with assms(2) show ?thesis by (auto simp: upserted_eq)
qed

lemma upserted_hit:
  assumes "\<And>old v. key (upd old v) = key old"
  shows "filter (\<lambda>r. key r = key x) (upserted key upd x tbl) =
           (if key x \<in> key ` set tbl then map (\<lambda>r. upd r x) (filter (\<lambda>r. key r = key x) tbl) else [x])"
proof -
  have "filter (\<lambda>r. key r = key x) (map (\<lambda>r. if key r = key x then upd r x else r) tbl)
        = map (\<lambda>r. upd r x) (filter (\<lambda>r. key r = key x) tbl)"
    using assms by (induction tbl) auto
  moreover have "key x \<notin> key ` set tbl \<Longrightarrow> filter (\<lambda>r. key r = key x) tbl = []"
    by (induction tbl) auto
  ultimately show ?thesis by (simp add: upserted_eq)
qed

lemma upsert_all_Nil [simp]: "upsert_all key upd [] tbl = tbl"
  by (simp add: upsert_all_def)

lemma upsert_all_Cons [simp]:
  "upsert_all key upd (x # xs) tbl = upsert_all key upd xs (upserted key upd x tbl)"
  by (simp add: upsert_all_def)

lemma upsert_all_snoc:
  "upsert_all key upd (xs @ [x]) tbl = upserted key upd x (upsert_all key upd xs tbl)"
  by (simp add: upsert_all_def)

lemma upsert_all_key_set:
  assumes "\<And>old v. key (upd old v) = key old"
  shows "key ` set (upsert_all key upd xs tbl) = key ` set tbl \<union> key ` set xs"
proof (induction xs arbitrary: tbl)
  case Nil
  then show ?case by simp
next
  case (Cons x xs)
  show ?case
    unfolding upsert_all_Cons Cons.IH upserted_key_set[of key upd, OF assms] by auto
qed

lemma upsert_all_distinct:
  assumes "\<And>old v. key (upd old v) = key old" "distinct (map key tbl)"
  shows "distinct (map key (upsert_all key upd xs tbl))"
  using assms(2)
proof (induction xs arbitrary: tbl)
  case Nil
  then show ?case by simp
next
  case (Cons x xs)
  have "distinct (map key (upserted key upd x tbl))"
    by (rule upserted_distinct[of key upd]) (rule assms(1), rule Cons.prems)
  then show ?case unfolding upsert_all_Cons by (rule Cons.IH)
qed

lemma upsert_all_other:
  assumes "\<And>old v. key (upd old v) = key old" "k \<notin> key ` set xs"
  shows "filter (\<lambda>r. key r = k) (upsert_all key upd xs tbl) = filter (\<lambda>r. key r = k) tbl"
  using assms(2)
proof (induction xs arbitrary: tbl)
  case Nil
  then show ?case by simp
next
  case (Cons x xs)
  from Cons.prems have n: "k \<noteq> key x" and r: "k \<notin> key ` set xs" by auto
  have "filter (\<lambda>r. key r = k) (upserted key upd x tbl) = filter (\<lambda>r. key r = k) tbl"
    by (rule upserted_other[of key upd]) (rule assms(1), rule n)
  with Cons.IH[OF r] show ?case by simp
qed

lemma upsert_all_hit:
  assumes "\<And>old v. key (upd old v) = key old" "distinct (map key xs)" "x \<in> set xs"
  shows "filter (\<lambda>r. key r = key x) (upsert_all key upd xs tbl) =
           (if key x \<in> key ` set tbl then map (\<lambda>r. upd r x) (filter (\<lambda>r. key r = key x) tbl) else [x])"
  using assms(2,3)
proof (induction xs arbitrary: tbl)
  case Nil
  then show ?case by simp
next
  case (Cons y xs)
  show ?case
  proof (cases "x = y")
    case True
    with Cons.prems have "key x \<notin> key ` set xs" by auto
    then have "filter (\<lambda>r. key r = key x) (upsert_all key upd xs (upserted key upd y tbl))
        = filter (\<lambda>r. key r = key x) (upserted key upd y tbl)"
      by (rule upsert_all_other[of key upd, OF assms(1)])
    also have "\<dots> = (if key x \<in> key ` set tbl
         then map (\<lambda>r. upd r x) (filter (\<lambda>r. key r = key x) tbl) else [x])"
      unfolding True by (rule upserted_hit[of key upd, OF assms(1)])
    finally show ?thesis by simp
  next
    case False
    with Cons.prems have x: "x \<in> set xs" and d: "distinct (map key xs)"
      and ny: "key y \<notin> key ` set xs" by auto
    from x ny have n: "key x \<noteq> key y" by (metis imageI)
    have o: "filter (\<lambda>r. key r = key x) (upserted key upd y tbl) = filter (\<lambda>r. key r = key x) tbl"
      by (rule upserted_other[of key upd]) (rule assms(1), rule n)
    have ks: "key x \<in> key ` set (upserted key upd y tbl) \<longleftrightarrow> key x \<in> key ` set tbl"
      unfolding upserted_key_set[of key upd, OF assms(1)] using n by auto
    from Cons.IH[OF d x, of "upserted key upd y tbl"] show ?thesis
      unfolding upsert_all_Cons o ks .
  qed
qed

lemma for_rows_Inr:
  "for_rows (\<lambda>r. insert_on_conflict rej key upd (vals r)) rows tbl c = (tbl', Inr c') \<longleftrightarrow>
     (\<forall>r\<in>set rows. rej (vals r) = None)
     \<and> tbl' = upsert_all key upd (map vals rows) tbl \<and> c' = c + int (length rows)"
proof (induction rows arbitrary: tbl c)
  case Nil
  then show ?case by auto
next
  case (Cons r rows)
  show ?case
  proof (cases "rej (vals r)")
    case None
    then have "insert_on_conflict rej key upd (vals r) tbl = Inr (upserted key upd (vals r) tbl)"
      by (simp add: insert_on_conflict_def)
    then show ?thesis using None Cons.IH[of "upserted key upd (vals r) tbl" "c + 1"] by auto
  next
    case (Some msg)
    then have "insert_on_conflict rej key upd (vals r) tbl = Inl msg"
      by (simp add: insert_on_conflict_def)
    then show ?thesis using Some by auto
  qed
qed

lemma for_rows_Inl:
  "for_rows (\<lambda>r. insert_on_conflict rej key upd (vals r)) rows tbl c = (tbl', Inl exc) \<Longrightarrow>
     \<exists>r\<in>set rows. rej (vals r) = Some exc"
proof (induction rows arbitrary: tbl c)
  case Nil
  then show ?case by auto
next
  case (Cons r rows)
  show ?case
  proof (cases "rej (vals r)")
    case None
    then have "insert_on_conflict rej key upd (vals r) tbl = Inr (upserted key upd (vals r) tbl)"
      by (simp add: insert_on_conflict_def)
    with Cons.prems have "for_rows (\<lambda>r. insert_on_conflict rej key upd (vals r)) rows
        (upserted key upd (vals r) tbl) (c + 1) = (tbl', Inl exc)" by simp
    from Cons.IH[OF this] show ?thesis by auto
  next
    case (Some msg)
    then have "insert_on_conflict rej key upd (vals r) tbl = Inl msg"
      by (simp add: insert_on_conflict_def)
    with Cons.prems Some show ?thesis by auto
  qed
qed

subsection \<open>Deduplication\<close>

text \<open>row_number_1\<close>

lemma first_by_mem: "first_by before best rs \<in> insert best (set rs)"
  by (induction rs arbitrary: best) auto

lemma first_by_top:
  assumes tr: "\<And>a b c. before a b \<Longrightarrow> before b c \<Longrightarrow> before a c"
      and irr: "\<And>a. \<not> before a a"
  shows "(\<forall>x\<in>S. \<not> before x best) \<Longrightarrow> \<not> before best best \<Longrightarrow>
         \<forall>x\<in>S \<union> insert best (set rs). \<not> before x (first_by before best rs)"
proof (induction rs arbitrary: best S)
  case Nil
  then show ?case by simp
next
  case (Cons r rs)
  show ?case
  proof (cases "before r best")
    case True
    have a: "\<forall>x\<in>insert best S. \<not> before x r"
    proof
      fix x assume "x \<in> insert best S"
      then show "\<not> before x r"
      proof
        assume "x = best"
        show "\<not> before x r"
        proof
          assume "before x r"
          with True \<open>x = best\<close> have "before best best" using tr by blast
          with irr show False by blast
        qed
      next
        assume xs: "x \<in> S"
        show "\<not> before x r"
        proof
          assume "before x r"
          with True have "before x best" using tr by blast
          with Cons.prems(1) xs show False by blast
        qed
      qed
    qed
    from Cons.IH[of "insert best S" r, OF a irr] True show ?thesis by auto
  next
    case False
    with Cons.prems have a: "\<forall>x\<in>insert r S. \<not> before x best" by auto
    from Cons.IH[of "insert r S" best, OF a Cons.prems(2)] False show ?thesis by auto
  qed
qed

lemma pick_singleton:
  assumes "k \<in> key ` set rows"
  shows "\<exists>w. (case filter (\<lambda>r. key r = k) rows of [] \<Rightarrow> [] | r # rs \<Rightarrow> [first_by before r rs]) = [w]
             \<and> w \<in> set rows \<and> key w = k"
proof -
  from assms have "filter (\<lambda>r. key r = k) rows \<noteq> []" by (auto simp: filter_empty_conv)
  then obtain r rs where f: "filter (\<lambda>r. key r = k) rows = r # rs" by (cases "filter (\<lambda>r. key r = k) rows") auto
  have "first_by before r rs \<in> insert r (set rs)" by (rule first_by_mem)
  then have "first_by before r rs \<in> set (filter (\<lambda>r. key r = k) rows)" unfolding f by simp
  then have "first_by before r rs \<in> set rows \<and> key (first_by before r rs) = k" by simp
  with f show ?thesis by simp
qed

lemma pick_top:
  assumes tr: "\<And>a b c. before a b \<Longrightarrow> before b c \<Longrightarrow> before a c"
      and irr: "\<And>a. \<not> before a a"
      and "(case filter (\<lambda>r. key r = k) rows of [] \<Rightarrow> [] | r # rs \<Rightarrow> [first_by before r rs]) = [w]"
      and "x \<in> set rows" "key x = k"
  shows "\<not> before x w"
proof -
  from assms(3) obtain r rs where f: "filter (\<lambda>r. key r = k) rows = r # rs" and w: "w = first_by before r rs"
    by (cases "filter (\<lambda>r. key r = k) rows") auto
  have "\<forall>x\<in>{} \<union> insert r (set rs). \<not> before x (first_by before r rs)"
    by (rule first_by_top[of before "{}" r rs]) (use tr irr in auto)
  moreover from assms(4,5) have "x \<in> set (filter (\<lambda>r. key r = k) rows)" by simp
  then have "x \<in> insert r (set rs)" unfolding f by simp
  ultimately show ?thesis unfolding w by blast
qed

lemma concat_singletons_keys:
  assumes "\<forall>k\<in>set ks. \<exists>w. pick k = [w] \<and> key w = k"
  shows "map key (concat (map pick ks)) = ks"
  using assms
proof (induction ks)
  case Nil
  then show ?case by simp
next
  case (Cons k ks)
  then obtain w where "pick k = [w]" "key w = k" by auto
  with Cons show ?case by simp
qed

lemma row_number_1_keys:
  "map key (row_number_1 key before rows) = remdups (map key rows)"
proof -
  have "\<forall>k\<in>set (remdups (map key rows)).
      \<exists>w. (case filter (\<lambda>r. key r = k) rows of [] \<Rightarrow> [] | r # rs \<Rightarrow> [first_by before r rs]) = [w] \<and> key w = k"
    using pick_singleton[of _ key rows before] by auto
  then show ?thesis unfolding row_number_1_def by (rule concat_singletons_keys)
qed

lemma row_number_1_distinct: "distinct (map key (row_number_1 key before rows))"
  by (simp add: row_number_1_keys)

lemma row_number_1_key_set: "key ` set (row_number_1 key before rows) = key ` set rows"
proof -
  have "set (map key (row_number_1 key before rows)) = set (map key rows)"
    by (simp add: row_number_1_keys)
  then show ?thesis by simp
qed

lemma row_number_1_mem:
  assumes "w \<in> set (row_number_1 key before rows)"
  shows "w \<in> set rows
       \<and> (case filter (\<lambda>r. key r = key w) rows of [] \<Rightarrow> [] | r # rs \<Rightarrow> [first_by before r rs]) = [w]"
proof -
  from assms obtain k where k: "k \<in> key ` set rows"
    and w: "w \<in> set (case filter (\<lambda>r. key r = k) rows of [] \<Rightarrow> [] | r # rs \<Rightarrow> [first_by before r rs])"
    unfolding row_number_1_def by auto
  from pick_singleton[OF k, of before] obtain w' where
    p: "(case filter (\<lambda>r. key r = k) rows of [] \<Rightarrow> [] | r # rs \<Rightarrow> [first_by before r rs]) = [w']"
    and m: "w' \<in> set rows" "key w' = k" by blast
  from w p have "w = w'" by simp
  with p m show ?thesis by simp
qed

lemma row_number_1_top:
  assumes tr: "\<And>a b c. before a b \<Longrightarrow> before b c \<Longrightarrow> before a c"
      and irr: "\<And>a. \<not> before a a"
      and "w \<in> set (row_number_1 key before rows)" "x \<in> set rows" "key x = key w"
  shows "\<not> before x w"
proof -
  from row_number_1_mem[OF assms(3)] have
    "(case filter (\<lambda>r. key r = key w) rows of [] \<Rightarrow> [] | r # rs \<Rightarrow> [first_by before r rs]) = [w]" by blast
  from pick_top[of before key "key w" rows w x, OF tr irr this assms(4,5)] show ?thesis .
qed

lemma contacts_before_trans: "contacts_before a b \<Longrightarrow> contacts_before b c \<Longrightarrow> contacts_before a c"
  by (auto simp: contacts_before_def desc_nulls_last_def split: option.splits)

lemma contacts_before_irrefl: "\<not> contacts_before a a"
  by (auto simp: contacts_before_def desc_nulls_last_def split: option.splits)

lemma not_contacts_before:
  "\<not> contacts_before r w \<longleftrightarrow>
     (case fc_last_contact w of
        None \<Rightarrow> fc_last_contact r = None \<and> fc_loaded_at r \<le> fc_loaded_at w
      | Some x \<Rightarrow> (case fc_last_contact r of
                     None \<Rightarrow> True
                   | Some y \<Rightarrow> y < x \<or> (y = x \<and> fc_loaded_at r \<le> fc_loaded_at w)))"
  by (auto simp: contacts_before_def desc_nulls_last_def split: option.splits)

lemma and_then_Inr: "and_then x f = Inr y \<longleftrightarrow> (\<exists>v. x = Inr v \<and> f v = Inr y)"
  by (cases x) (simp_all add: and_then_def)

lemma and_then_Inl: "and_then x f = Inl e \<longleftrightarrow> (x = Inl e \<or> (\<exists>v. x = Inr v \<and> f v = Inl e))"
  by (cases x) (simp_all add: and_then_def)

lemma toques_before_trans: "toques_before a b \<Longrightarrow> toques_before b c \<Longrightarrow> toques_before a c"
  by (simp add: toques_before_def)

lemma campaigns_before_trans: "campaigns_before a b \<Longrightarrow> campaigns_before b c \<Longrightarrow> campaigns_before a c"
  by (simp add: campaigns_before_def)

lemma contacts_dedup:
  assumes "CONTACTS_SQL srv tid raw = Inr out"
  shows "\<exists>flattened. contacts_flattened srv tid raw = Inr flattened
     \<and> distinct (map flat_contact_key out)
     \<and> flat_contact_key ` set out = flat_contact_key ` set flattened
     \<and> (\<forall>w\<in>set out. w \<in> set flattened
          \<and> (\<forall>r\<in>set flattened. flat_contact_key r = flat_contact_key w \<longrightarrow>
               (case fc_last_contact w of
                  None \<Rightarrow> fc_last_contact r = None \<and> fc_loaded_at r \<le> fc_loaded_at w
                | Some x \<Rightarrow> (case fc_last_contact r of
                               None \<Rightarrow> True
                             | Some y \<Rightarrow> y < x \<or> (y = x \<and> fc_loaded_at r \<le> fc_loaded_at w)))))"
proof -
  from assms obtain flattened where f: "contacts_flattened srv tid raw = Inr flattened"
    and o: "out = row_number_1 flat_contact_key contacts_before flattened"
    by (auto simp: CONTACTS_SQL_def and_then_Inr)
  have t: "\<forall>w\<in>set out. w \<in> set flattened
          \<and> (\<forall>r\<in>set flattened. flat_contact_key r = flat_contact_key w \<longrightarrow> \<not> contacts_before r w)"
  proof (intro ballI conjI impI)
    fix w assume w: "w \<in> set out"
    then show "w \<in> set flattened" unfolding o using row_number_1_mem by fastforce
    fix r assume "r \<in> set flattened" "flat_contact_key r = flat_contact_key w"
    with w show "\<not> contacts_before r w" unfolding o
      using row_number_1_top[of contacts_before w flat_contact_key flattened r]
        contacts_before_trans contacts_before_irrefl by blast
  qed
  show ?thesis
    using f t unfolding not_contacts_before
    by (auto simp: o row_number_1_distinct row_number_1_key_set)
qed

lemma toques_dedup:
  assumes "TOQUES_DAILY_SQL srv tid app_id raw = Inr out"
  shows "\<exists>flattened. toques_flattened srv tid app_id raw = Inr flattened
     \<and> distinct (map flat_toque_key out)
     \<and> flat_toque_key ` set out = flat_toque_key ` set flattened
     \<and> (\<forall>w\<in>set out. w \<in> set flattened
          \<and> (\<forall>r\<in>set flattened. flat_toque_key r = flat_toque_key w \<longrightarrow> ft_loaded_at r \<le> ft_loaded_at w))"
proof -
  from assms obtain flattened where f: "toques_flattened srv tid app_id raw = Inr flattened"
    and o: "out = row_number_1 flat_toque_key toques_before flattened"
    by (auto simp: TOQUES_DAILY_SQL_def and_then_Inr)
  have t: "\<forall>w\<in>set out. w \<in> set flattened
          \<and> (\<forall>r\<in>set flattened. flat_toque_key r = flat_toque_key w \<longrightarrow> ft_loaded_at r \<le> ft_loaded_at w)"
  proof (intro ballI conjI impI)
    fix w assume w: "w \<in> set out"
    then show "w \<in> set flattened" unfolding o using row_number_1_mem by fastforce
    fix r assume "r \<in> set flattened" "flat_toque_key r = flat_toque_key w"
    with w have "\<not> toques_before r w" unfolding o
      using row_number_1_top[of toques_before w flat_toque_key flattened r]
        toques_before_trans by (auto simp: toques_before_def)
    then show "ft_loaded_at r \<le> ft_loaded_at w" by (simp add: toques_before_def)
  qed
  show ?thesis
    using f t by (auto simp: o row_number_1_distinct row_number_1_key_set toques_before_def)
qed

lemma campaigns_dedup:
  assumes "CAMPAIGNS_SQL srv tid app_id raw = Inr out"
  shows "\<exists>flattened. campaigns_flattened srv tid app_id raw = Inr flattened
     \<and> distinct (map flat_campaign_key out)
     \<and> flat_campaign_key ` set out = flat_campaign_key ` set flattened
     \<and> (\<forall>w\<in>set out. w \<in> set flattened
          \<and> (\<forall>r\<in>set flattened. flat_campaign_key r = flat_campaign_key w \<longrightarrow> fm_loaded_at r \<le> fm_loaded_at w))"
proof -
  from assms obtain flattened where f: "campaigns_flattened srv tid app_id raw = Inr flattened"
    and o: "out = row_number_1 flat_campaign_key campaigns_before flattened"
    by (auto simp: CAMPAIGNS_SQL_def and_then_Inr)
  have t: "\<forall>w\<in>set out. w \<in> set flattened
          \<and> (\<forall>r\<in>set flattened. flat_campaign_key r = flat_campaign_key w \<longrightarrow> fm_loaded_at r \<le> fm_loaded_at w)"
  proof (intro ballI conjI impI)
    fix w assume w: "w \<in> set out"
    then show "w \<in> set flattened" unfolding o using row_number_1_mem by fastforce
    fix r assume "r \<in> set flattened" "flat_campaign_key r = flat_campaign_key w"
    with w have "\<not> campaigns_before r w" unfolding o
      using row_number_1_top[of campaigns_before w flat_campaign_key flattened r]
        campaigns_before_trans by (auto simp: campaigns_before_def)
    then show "fm_loaded_at r \<le> fm_loaded_at w" by (simp add: campaigns_before_def)
  qed
  show ?thesis
    using f t by (auto simp: o row_number_1_distinct row_number_1_key_set campaigns_before_def)
qed

lemma transform_contacts_Inr:
  assumes "transform_contacts srv conn = (conn', Inr count)"
  shows "\<exists>rows. CONTACTS_SQL srv TENANT_ID (raw_contacts_api conn) = Inr rows
     \<and> (\<forall>r\<in>set rows. rejects_contact srv (contact_values r) = None)
     \<and> conn' = conn\<lparr>contacts := upsert_all contact_key contact_set (map contact_values rows) (contacts conn)\<rparr>
     \<and> count = int (length rows)"
proof -
  from assms obtain rows where s: "CONTACTS_SQL srv TENANT_ID (raw_contacts_api conn) = Inr rows"
    by (auto simp: transform_contacts_def split: sum.splits)
  with assms obtain tbl where fr: "for_rows (CONTACTS_UPSERT srv) rows (contacts conn) 0 = (tbl, Inr count)"
    and c: "conn' = conn\<lparr>contacts := tbl\<rparr>"
    by (auto simp: transform_contacts_def split: prod.splits)
  have "CONTACTS_UPSERT srv = (\<lambda>r. insert_on_conflict (rejects_contact srv) contact_key contact_set (contact_values r))"
    by (intro ext) (simp add: CONTACTS_UPSERT_def)
  with fr have "for_rows (\<lambda>r. insert_on_conflict (rejects_contact srv) contact_key contact_set (contact_values r))
      rows (contacts conn) 0 = (tbl, Inr count)" by simp
  then have "(\<forall>r\<in>set rows. rejects_contact srv (contact_values r) = None)
     \<and> tbl = upsert_all contact_key contact_set (map contact_values rows) (contacts conn)
     \<and> count = 0 + int (length rows)"
    using for_rows_Inr[of "rejects_contact srv" contact_key contact_set contact_values rows
        "contacts conn" 0 tbl count] by blast
  with s c show ?thesis by auto
qed

lemma contacts_after_transform:
  assumes "transform_contacts srv conn = (conn', Inr count)"
      and "distinct (map contact_key (contacts conn))"
  shows "\<exists>rows. CONTACTS_SQL srv TENANT_ID (raw_contacts_api conn) = Inr rows
       \<and> count = int (length rows)
       \<and> distinct (map contact_key (contacts conn'))
       \<and> (\<forall>w\<in>set rows. \<exists>x. filter (\<lambda>x. contact_key x = flat_contact_key w) (contacts conn') = [x]
                              \<and> c_contact_name x = fc_contact_name w)"
proof -
  from transform_contacts_Inr[OF assms(1)] obtain rows where
    s: "CONTACTS_SQL srv TENANT_ID (raw_contacts_api conn) = Inr rows"
    and c: "conn' = conn\<lparr>contacts := upsert_all contact_key contact_set (map contact_values rows) (contacts conn)\<rparr>"
    and n: "count = int (length rows)" by blast
  let ?vs = "map contact_values rows"
  let ?t = "upsert_all contact_key contact_set ?vs (contacts conn)"
  from contacts_dedup[OF s] have dk: "distinct (map flat_contact_key rows)" by blast
  have "contact_key \<circ> contact_values = flat_contact_key"
    by (intro ext) (simp add: contact_values_key)
  with dk have dv: "distinct (map contact_key ?vs)" by simp
  have d: "distinct (map contact_key ?t)"
    by (rule upsert_all_distinct[of contact_key contact_set]) (rule contact_set_key, rule assms(2))
  have "\<exists>x. filter (\<lambda>x. contact_key x = flat_contact_key w) ?t = [x] \<and> c_contact_name x = fc_contact_name w"
    if w: "w \<in> set rows" for w
  proof -
    from w have m: "contact_values w \<in> set ?vs" by simp
    have h: "filter (\<lambda>r. contact_key r = contact_key (contact_values w)) ?t =
           (if contact_key (contact_values w) \<in> contact_key ` set (contacts conn)
            then map (\<lambda>r. contact_set r (contact_values w))
                   (filter (\<lambda>r. contact_key r = contact_key (contact_values w)) (contacts conn))
            else [contact_values w])"
      by (rule upsert_all_hit[of contact_key contact_set]) (rule contact_set_key, rule dv, rule m)
    show ?thesis
    proof (cases "contact_key (contact_values w) \<in> contact_key ` set (contacts conn)")
      case True
      from distinct_key_filter[where key=contact_key and tbl="contacts conn", OF assms(2) True]
      obtain old where "filter (\<lambda>r. contact_key r = contact_key (contact_values w)) (contacts conn) = [old]"
        by blast
      with h True have "filter (\<lambda>r. contact_key r = contact_key (contact_values w)) ?t
          = [contact_set old (contact_values w)]" by simp
      then show ?thesis by (simp add: contact_values_key) (simp add: contact_set_def contact_values_def)
    next
      case False
      with h have "filter (\<lambda>r. contact_key r = contact_key (contact_values w)) ?t = [contact_values w]"
        by simp
      then show ?thesis by (simp add: contact_values_key) (simp add: contact_values_def)
    qed
  qed
  with s n d show ?thesis unfolding c by auto
qed


text \<open>
  Claim C2, as the code has it. Each staging query keeps exactly one row of every group of
  flattened rows that share \<open>(tenant_id, natural key)\<close>: a row of the group that no other
  row of the group sorts before. For contacts the order is \<^verbatim>\<open>last_contact\<close> (the date of
  \<^verbatim>\<open>updatedAt\<close>) descending with NULL last, and \<^verbatim>\<open>loaded_at\<close> descending breaks ties, so
  the row kept is the most recently updated one and, among those, the most recently
  loaded; for \<^verbatim>\<open>toques_daily\<close> and campaigns the order is \<^verbatim>\<open>loaded_at\<close> descending alone.
  After a contacts transform that returns, on a table with one row per key, every selected
  key has exactly one row in \<^verbatim>\<open>public.contacts\<close> and it carries the name of the row kept.
  The witness is the scenario of the two snapshots with the same \<^verbatim>\<open>updatedAt\<close>: the table
  ends with one row, named Gisela.
\<close>

theorem dedup_keeps_first_ranked:
  "(CONTACTS_SQL srv tid raw = Inr out \<longrightarrow>
      (\<exists>flattened. contacts_flattened srv tid raw = Inr flattened
         \<and> distinct (map flat_contact_key out)
         \<and> flat_contact_key ` set out = flat_contact_key ` set flattened
         \<and> (\<forall>w\<in>set out. w \<in> set flattened
              \<and> (\<forall>r\<in>set flattened. flat_contact_key r = flat_contact_key w \<longrightarrow>
                   (case fc_last_contact w of
                      None \<Rightarrow> fc_last_contact r = None \<and> fc_loaded_at r \<le> fc_loaded_at w
                    | Some x \<Rightarrow> (case fc_last_contact r of
                                   None \<Rightarrow> True
                                 | Some y \<Rightarrow> y < x \<or> (y = x \<and> fc_loaded_at r \<le> fc_loaded_at w)))))))
   \<and> (TOQUES_DAILY_SQL srv tid app_id traw = Inr tout \<longrightarrow>
      (\<exists>flattened. toques_flattened srv tid app_id traw = Inr flattened
         \<and> distinct (map flat_toque_key tout)
         \<and> flat_toque_key ` set tout = flat_toque_key ` set flattened
         \<and> (\<forall>w\<in>set tout. w \<in> set flattened
              \<and> (\<forall>r\<in>set flattened. flat_toque_key r = flat_toque_key w \<longrightarrow>
                    ft_loaded_at r \<le> ft_loaded_at w))))
   \<and> (CAMPAIGNS_SQL srv tid app_id craw = Inr cout \<longrightarrow>
      (\<exists>flattened. campaigns_flattened srv tid app_id craw = Inr flattened
         \<and> distinct (map flat_campaign_key cout)
         \<and> flat_campaign_key ` set cout = flat_campaign_key ` set flattened
         \<and> (\<forall>w\<in>set cout. w \<in> set flattened
              \<and> (\<forall>r\<in>set flattened. flat_campaign_key r = flat_campaign_key w \<longrightarrow>
                    fm_loaded_at r \<le> fm_loaded_at w))))
   \<and> (transform_contacts srv conn = (conn', Inr count) \<and> distinct (map contact_key (contacts conn)) \<longrightarrow>
      (\<exists>rows. CONTACTS_SQL srv TENANT_ID (raw_contacts_api conn) = Inr rows
         \<and> count = int (length rows)
         \<and> distinct (map contact_key (contacts conn'))
         \<and> (\<forall>w\<in>set rows. \<exists>x. filter (\<lambda>x. contact_key x = flat_contact_key w) (contacts conn') = [x]
                                \<and> c_contact_name x = fc_contact_name w)))"
  using contacts_dedup[of srv tid raw out] toques_dedup[of srv tid app_id traw tout]
    campaigns_dedup[of srv tid app_id craw cout] contacts_after_transform[of srv conn conn' count]
  by blast

text \<open>
  The claim as stated ranks by \<^verbatim>\<open>loaded_at\<close> first. With the snapshot loaded at 1 carrying
  "Gise" and \<^verbatim>\<open>updatedAt\<close> 2 May, and the snapshot loaded at 2 carrying "Gisela" and
  \<^verbatim>\<open>updatedAt\<close> 1 May (or no \<^verbatim>\<open>updatedAt\<close>), the table ends with the one row named "Gise".
\<close>

theorem dedup_keeps_first_ranked_counterexample:
  "contacts (fst (transform_contacts example_server
       (empty_db\<lparr>raw_contacts_api :=
          [contact_snapshot 1 ''Gise'' (Some ''2024-05-02T10:00:00Z''),
           contact_snapshot 2 ''Gisela'' (Some ''2024-05-01T10:00:00Z'')]\<rparr>)))
     = [\<lparr>c_tenant_id = ''visionamos'', c_contact_id = ''573054821614'',
         c_contact_name = Some ''Gise'', c_total_messages = 0, c_first_contact = None,
         c_last_contact = Some 19845, c_total_conversations = 0\<rparr>]
   \<and> contacts (fst (transform_contacts example_server
       (empty_db\<lparr>raw_contacts_api :=
          [contact_snapshot 1 ''Gise'' (Some ''2024-05-02T10:00:00Z''),
           contact_snapshot 2 ''Gisela'' None]\<rparr>)))
     = [\<lparr>c_tenant_id = ''visionamos'', c_contact_id = ''573054821614'',
         c_contact_name = Some ''Gise'', c_total_messages = 0, c_first_contact = None,
         c_last_contact = Some 19845, c_total_conversations = 0\<rparr>]
   \<and> CONTACTS_SQL example_server TENANT_ID
          [contact_snapshot 1 ''Gise'' (Some ''2024-05-02T10:00:00Z''),
           contact_snapshot 2 ''Gisela'' (Some ''2024-05-01T10:00:00Z'')]
     = Inr [\<lparr>fc_tenant_id = ''visionamos'', fc_contact_id = ''573054821614'',
             fc_contact_name = Some ''Gise'', fc_first_contact = None,
             fc_last_contact = Some 19845, fc_loaded_at = 1\<rparr>]"
  by code_simp

theorem dedup_keeps_first_ranked_witness:
  "transform_contacts example_server
       (empty_db\<lparr>raw_contacts_api :=
          [contact_snapshot 1 ''Gise'' (Some ''2024-05-02T10:00:00Z''),
           contact_snapshot 2 ''Gisela'' (Some ''2024-05-02T10:00:00Z'')]\<rparr>)
     = (empty_db\<lparr>raw_contacts_api :=
          [contact_snapshot 1 ''Gise'' (Some ''2024-05-02T10:00:00Z''),
           contact_snapshot 2 ''Gisela'' (Some ''2024-05-02T10:00:00Z'')],
          contacts := [\<lparr>c_tenant_id = ''visionamos'', c_contact_id = ''573054821614'',
             c_contact_name = Some ''Gisela'', c_total_messages = 0, c_first_contact = None,
             c_last_contact = Some 19845, c_total_conversations = 0\<rparr>]\<rparr>, Inr 1)
   \<and> CONTACTS_SQL example_server TENANT_ID
          [contact_snapshot 1 ''Gise'' (Some ''2024-05-02T10:00:00Z''),
           contact_snapshot 2 ''Gisela'' (Some ''2024-05-02T10:00:00Z'')]
     = Inr [example_flat_contact (Some ''Gisela'') None (Some 19845) 2]
   \<and> TOQUES_DAILY_SQL example_server TENANT_ID APP_ID [stats_snapshot 1 10, stats_snapshot 2 40]
     = Inr [example_flat_toque 40 4 2 1 2]
   \<and> CAMPAIGNS_SQL example_server TENANT_ID APP_ID
          [campaign_snapshot 1 (JNum 10), campaign_snapshot 2 (JNum 40)]
     = Inr [\<lparr>fm_tenant_id = ''visionamos'', fm_campana_id = ''c-1'', fm_campana_nombre = ''Mayo'',
             fm_canal = ''push'', fm_proyecto_cuenta = ''100274'', fm_tipo_campana = None,
             fm_total_enviados = 40, fm_total_entregados = 4, fm_total_clicks = 0,
             fm_fecha_inicio = None, fm_fecha_fin = None, fm_total_abiertos = 0,
             fm_total_rebotes = 0, fm_total_bloqueados = 0, fm_total_spam = 0,
             fm_total_desuscritos = 0, fm_total_conversiones = 0, fm_loaded_at = 2\<rparr>]
   \<and> distinct (map flat_contact_key [example_flat_contact (Some ''Gisela'') None (Some 19845) 2])
   \<and> distinct (map flat_toque_key [example_flat_toque 40 4 2 1 2])"
proof -
  let ?raw = "[contact_snapshot 1 ''Gise'' (Some ''2024-05-02T10:00:00Z''),
           contact_snapshot 2 ''Gisela'' (Some ''2024-05-02T10:00:00Z'')]"
  let ?conn = "empty_db\<lparr>raw_contacts_api := ?raw\<rparr>"
  let ?conn' = "empty_db\<lparr>raw_contacts_api := ?raw,
          contacts := [\<lparr>c_tenant_id = ''visionamos'', c_contact_id = ''573054821614'',
             c_contact_name = Some ''Gisela'', c_total_messages = 0, c_first_contact = None,
             c_last_contact = Some 19845, c_total_conversations = 0\<rparr>]\<rparr>"
  let ?out = "[example_flat_contact (Some ''Gisela'') None (Some 19845) 2]"
  let ?traw = "[stats_snapshot 1 10, stats_snapshot 2 40]"
  let ?tout = "[example_flat_toque 40 4 2 1 2]"
  let ?craw = "[campaign_snapshot 1 (JNum 10), campaign_snapshot 2 (JNum 40)]"
  let ?cout = "[\<lparr>fm_tenant_id = ''visionamos'', fm_campana_id = ''c-1'', fm_campana_nombre = ''Mayo'',
             fm_canal = ''push'', fm_proyecto_cuenta = ''100274'', fm_tipo_campana = None,
             fm_total_enviados = 40, fm_total_entregados = 4, fm_total_clicks = 0,
             fm_fecha_inicio = None, fm_fecha_fin = None, fm_total_abiertos = 0,
             fm_total_rebotes = 0, fm_total_bloqueados = 0, fm_total_spam = 0,
             fm_total_desuscritos = 0, fm_total_conversiones = 0, fm_loaded_at = 2\<rparr>]"
  have h1: "CONTACTS_SQL example_server TENANT_ID ?raw = Inr ?out" by code_simp
  have h2: "TOQUES_DAILY_SQL example_server TENANT_ID APP_ID ?traw = Inr ?tout" by code_simp
  have h3: "CAMPAIGNS_SQL example_server TENANT_ID APP_ID ?craw = Inr ?cout" by code_simp
  have h4: "transform_contacts example_server ?conn = (?conn', Inr 1)" by code_simp
  have h5: "distinct (map contact_key (contacts ?conn))" by (simp add: empty_db_def)
  note g = dedup_keeps_first_ranked[where srv=example_server and tid=TENANT_ID and raw="?raw"
      and out="?out" and app_id=APP_ID and traw="?traw" and tout="?tout" and craw="?craw"
      and cout="?cout" and conn="?conn" and conn'="?conn'" and count=1]
  from g h1 have d1: "distinct (map flat_contact_key ?out)" by blast
  from g h2 have d2: "distinct (map flat_toque_key ?tout)" by blast
  show ?thesis using h1 h2 h3 h4 d1 d2 by blast
qed

subsection \<open>The heatmap reads the latest snapshot only\<close>

lemma row_number_1_of_distinct:
  assumes "distinct (map key rows)"
  shows "row_number_1 key before rows = rows"
proof -
  have p: "(case filter (\<lambda>r. key r = key x) rows of [] \<Rightarrow> [] | r # rs \<Rightarrow> [first_by before r rs]) = [x]"
    if "x \<in> set rows" for x
  proof -
    from that have "key x \<in> key ` set rows" by simp
    from distinct_key_filter[where key=key and tbl=rows, OF assms this]
    obtain r where f: "filter (\<lambda>r. key r = key x) rows = [r]" by blast
    from that have "x \<in> set (filter (\<lambda>r. key r = key x) rows)" by simp
    with f have "r = x" by simp
    with f show ?thesis by simp
  qed
  have "concat (map (\<lambda>k. case filter (\<lambda>r. key r = k) rows of [] \<Rightarrow> [] | r # rs \<Rightarrow> [first_by before r rs])
           (map key rows)) = concat (map (\<lambda>x. [x]) rows)"
    unfolding map_map comp_def
    by (rule arg_cong[where f=concat], rule map_cong) (simp_all add: p)
  also have "\<dots> = rows" by (induction rows) auto
  finally show ?thesis using assms by (simp add: row_number_1_def distinct_remdups_id)
qed

lemma heatmap_latest_props:
  "distinct (map (\<lambda>r. coalesce (tenant_id r) tid) (heatmap_latest tid raw))
   \<and> (\<lambda>r. coalesce (tenant_id r) tid) ` set (heatmap_latest tid raw)
       = (\<lambda>r. coalesce (tenant_id r) tid) ` set (heatmap_raw_rows raw)
   \<and> (\<forall>l\<in>set (heatmap_latest tid raw). l \<in> set (heatmap_raw_rows raw)
        \<and> (\<forall>r\<in>set (heatmap_raw_rows raw).
              coalesce (tenant_id r) tid = coalesce (tenant_id l) tid \<longrightarrow> loaded_at r \<le> loaded_at l))"
proof -
  let ?key = "\<lambda>r. coalesce (tenant_id r) tid"
  let ?bef = "\<lambda>a b. loaded_at b < loaded_at a"
  have t: "\<forall>l\<in>set (heatmap_latest tid raw). l \<in> set (heatmap_raw_rows raw)
        \<and> (\<forall>r\<in>set (heatmap_raw_rows raw). ?key r = ?key l \<longrightarrow> loaded_at r \<le> loaded_at l)"
  proof (intro ballI conjI impI)
    fix l assume l: "l \<in> set (heatmap_latest tid raw)"
    then show "l \<in> set (heatmap_raw_rows raw)"
      unfolding heatmap_latest_def using row_number_1_mem by fastforce
    fix r assume "r \<in> set (heatmap_raw_rows raw)" "?key r = ?key l"
    with l have "\<not> ?bef r l" unfolding heatmap_latest_def
      using row_number_1_top[of ?bef l ?key "heatmap_raw_rows raw" r] by auto
    then show "loaded_at r \<le> loaded_at l" by simp
  qed
  show ?thesis using t
    by (simp add: heatmap_latest_def row_number_1_distinct row_number_1_key_set)
qed

lemma heatmap_latest_idem: "heatmap_latest tid (heatmap_latest tid raw) = heatmap_latest tid raw"
proof -
  let ?l = "heatmap_latest tid raw"
  have "\<forall>l\<in>set ?l. l \<in> set (heatmap_raw_rows raw)" using heatmap_latest_props by blast
  then have "\<forall>l\<in>set ?l. like_contains ''/pushHeatmap'' (endpoint l) \<and> has_object_data l"
    by (simp add: heatmap_raw_rows_def)
  then have f: "heatmap_raw_rows ?l = ?l" by (simp add: heatmap_raw_rows_def)
  have d: "distinct (map (\<lambda>r. coalesce (tenant_id r) tid) ?l)" using heatmap_latest_props by blast
  have "row_number_1 (\<lambda>r. coalesce (tenant_id r) tid) (\<lambda>a b. loaded_at b < loaded_at a) ?l = ?l"
    by (rule row_number_1_of_distinct) (rule d)
  then show ?thesis using f by (simp add: heatmap_latest_def[of tid ?l])
qed

lemma heatmap_sql_latest: "HEATMAP_SQL srv tid (heatmap_latest tid raw) = HEATMAP_SQL srv tid raw"
  by (simp add: HEATMAP_SQL_def heatmap_latest_idem)

lemma traverse_Inr:
  "traverse f xs = Inr ys \<longleftrightarrow> length ys = length xs \<and> (\<forall>i<length xs. f (xs ! i) = Inr (ys ! i))"
proof (induction xs arbitrary: ys)
  case Nil
  then show ?case by auto
next
  case (Cons x xs)
  show ?case
  proof
    assume "traverse f (x # xs) = Inr ys"
    then obtain y ys' where y: "f x = Inr y" and t: "traverse f xs = Inr ys'" and e: "ys = y # ys'"
      by (auto simp: and_then_Inr)
    from t Cons.IH have "length ys' = length xs \<and> (\<forall>i<length xs. f (xs ! i) = Inr (ys' ! i))" by blast
    with y e show "length ys = length (x # xs) \<and> (\<forall>i<length (x # xs). f ((x # xs) ! i) = Inr (ys ! i))"
      by (auto simp: nth_Cons split: nat.splits)
  next
    assume a: "length ys = length (x # xs) \<and> (\<forall>i<length (x # xs). f ((x # xs) ! i) = Inr (ys ! i))"
    then obtain y ys' where e: "ys = y # ys'" by (cases ys) auto
    from a e have y: "f x = Inr y" by auto
    from a e have "length ys' = length xs \<and> (\<forall>i<length xs. f (xs ! i) = Inr (ys' ! i))" by auto
    with Cons.IH have "traverse f xs = Inr ys'" by blast
    with y e show "traverse f (x # xs) = Inr ys" by (simp add: and_then_def)
  qed
qed

lemma heatmap_cells_from_latest:
  assumes "HEATMAP_SQL srv tid raw = Inr cells"
  shows "\<exists>per. length per = length (heatmap_latest tid raw)
      \<and> (\<forall>i<length per. snapshot_cells srv tid (heatmap_latest tid raw ! i) = Inr (per ! i))
      \<and> cells = concat per"
proof -
  from assms obtain per where t: "traverse (snapshot_cells srv tid) (heatmap_latest tid raw) = Inr per"
    and c: "cells = concat per" by (auto simp: HEATMAP_SQL_def and_then_Inr)
  from t have "length per = length (heatmap_latest tid raw)
      \<and> (\<forall>i<length (heatmap_latest tid raw). snapshot_cells srv tid (heatmap_latest tid raw ! i) = Inr (per ! i))"
    using traverse_Inr[of "snapshot_cells srv tid" "heatmap_latest tid raw" per] by blast
  with c show ?thesis by auto
qed

lemma upsert_all_length: "length tbl \<le> length (upsert_all key upd xs tbl)"
proof (induction xs arbitrary: tbl)
  case Nil
  then show ?case by simp
next
  case (Cons x xs)
  have "length tbl \<le> length (upserted key upd x tbl)" by (simp add: upserted_eq)
  also have "\<dots> \<le> length (upsert_all key upd xs (upserted key upd x tbl))" by (rule Cons.IH)
  finally show ?case by simp
qed

lemma cell_set_key: "cell_key (cell_set old x) = cell_key old"
  by (simp add: cell_key_def cell_set_def)

lemma transform_heatmap_Inr:
  assumes "transform_heatmap srv conn = (conn', Inr count)"
  shows "\<exists>rows. HEATMAP_SQL srv TENANT_ID (raw_push_stats conn) = Inr rows
     \<and> (\<forall>r\<in>set rows. rejects_cell srv (cell_values r) = None)
     \<and> conn' = conn\<lparr>toques_heatmap := upsert_all cell_key cell_set (map cell_values rows) (toques_heatmap conn)\<rparr>
     \<and> count = int (length rows)"
proof -
  from assms obtain rows where s: "HEATMAP_SQL srv TENANT_ID (raw_push_stats conn) = Inr rows"
    by (auto simp: transform_heatmap_def split: sum.splits)
  with assms obtain tbl where fr: "for_rows (HEATMAP_UPSERT srv) rows (toques_heatmap conn) 0 = (tbl, Inr count)"
    and c: "conn' = conn\<lparr>toques_heatmap := tbl\<rparr>"
    by (auto simp: transform_heatmap_def split: prod.splits)
  have "HEATMAP_UPSERT srv = (\<lambda>r. insert_on_conflict (rejects_cell srv) cell_key cell_set (cell_values r))"
    by (intro ext) (simp add: HEATMAP_UPSERT_def)
  with fr have "for_rows (\<lambda>r. insert_on_conflict (rejects_cell srv) cell_key cell_set (cell_values r))
      rows (toques_heatmap conn) 0 = (tbl, Inr count)" by simp
  then have "(\<forall>r\<in>set rows. rejects_cell srv (cell_values r) = None)
     \<and> tbl = upsert_all cell_key cell_set (map cell_values rows) (toques_heatmap conn)
     \<and> count = 0 + int (length rows)"
    using for_rows_Inr[of "rejects_cell srv" cell_key cell_set cell_values rows
        "toques_heatmap conn" 0 tbl count] by blast
  with s c show ?thesis by auto
qed

lemma heatmap_untouched:
  assumes "transform_heatmap srv conn = (conn', Inr count)"
  shows "\<exists>cells. HEATMAP_SQL srv TENANT_ID (raw_push_stats conn) = Inr cells
      \<and> count = int (length cells)
      \<and> (\<forall>k. k \<notin> cell_key ` cell_values ` set cells \<longrightarrow>
            filter (\<lambda>x. cell_key x = k) (toques_heatmap conn')
              = filter (\<lambda>x. cell_key x = k) (toques_heatmap conn))
      \<and> cell_key ` set (toques_heatmap conn) \<subseteq> cell_key ` set (toques_heatmap conn')
      \<and> length (toques_heatmap conn) \<le> length (toques_heatmap conn')"
proof -
  from transform_heatmap_Inr[OF assms] obtain cells where
    s: "HEATMAP_SQL srv TENANT_ID (raw_push_stats conn) = Inr cells"
    and c: "conn' = conn\<lparr>toques_heatmap := upsert_all cell_key cell_set (map cell_values cells) (toques_heatmap conn)\<rparr>"
    and n: "count = int (length cells)" by blast
  let ?t = "upsert_all cell_key cell_set (map cell_values cells) (toques_heatmap conn)"
  have o: "filter (\<lambda>x. cell_key x = k) ?t = filter (\<lambda>x. cell_key x = k) (toques_heatmap conn)"
    if "k \<notin> cell_key ` cell_values ` set cells" for k
  proof -
    from that have "k \<notin> cell_key ` set (map cell_values cells)" by simp
    then show ?thesis by (rule upsert_all_other[of cell_key cell_set, OF cell_set_key])
  qed
  have ks: "cell_key ` set ?t = cell_key ` set (toques_heatmap conn) \<union> cell_key ` set (map cell_values cells)"
    by (rule upsert_all_key_set[of cell_key cell_set, OF cell_set_key])
  have l: "length (toques_heatmap conn) \<le> length ?t" by (rule upsert_all_length)
  show ?thesis using s n o ks l unfolding c by auto
qed

lemma has_object_data_iff:
  "has_object_data r \<longleftrightarrow> (\<exists>kvs. arrow (source_data r) ''data'' = Some (JObj kvs))"
  by (auto simp: has_object_data_def split: option.splits json.splits)

lemma heatmap_raw_rows_iff:
  "r \<in> set (heatmap_raw_rows raw) \<longleftrightarrow>
     r \<in> set raw \<and> like_contains ''/pushHeatmap'' (endpoint r)
     \<and> (\<exists>kvs. arrow (source_data r) ''data'' = Some (JObj kvs))"
  by (simp add: heatmap_raw_rows_def has_object_data_iff)

lemma heatmap_latest_explicit:
  "distinct (map (\<lambda>r. coalesce (tenant_id r) tid) (heatmap_latest tid raw))
   \<and> (\<forall>l\<in>set (heatmap_latest tid raw).
        l \<in> set raw \<and> like_contains ''/pushHeatmap'' (endpoint l)
        \<and> (\<exists>kvs. arrow (source_data l) ''data'' = Some (JObj kvs))
        \<and> (\<forall>r\<in>set raw.
              like_contains ''/pushHeatmap'' (endpoint r)
              \<and> (\<exists>kvs. arrow (source_data r) ''data'' = Some (JObj kvs))
              \<and> coalesce (tenant_id r) tid = coalesce (tenant_id l) tid \<longrightarrow>
              loaded_at r \<le> loaded_at l))
   \<and> (\<forall>r\<in>set raw.
        like_contains ''/pushHeatmap'' (endpoint r)
        \<and> (\<exists>kvs. arrow (source_data r) ''data'' = Some (JObj kvs)) \<longrightarrow>
        (\<exists>l\<in>set (heatmap_latest tid raw). coalesce (tenant_id l) tid = coalesce (tenant_id r) tid))"
proof -
  note p = heatmap_latest_props[of tid raw]
  from p have d: "distinct (map (\<lambda>r. coalesce (tenant_id r) tid) (heatmap_latest tid raw))" by blast
  from p have ks: "(\<lambda>r. coalesce (tenant_id r) tid) ` set (heatmap_latest tid raw)
       = (\<lambda>r. coalesce (tenant_id r) tid) ` set (heatmap_raw_rows raw)" by blast
  from p have t: "\<forall>l\<in>set (heatmap_latest tid raw). l \<in> set (heatmap_raw_rows raw)
        \<and> (\<forall>r\<in>set (heatmap_raw_rows raw).
              coalesce (tenant_id r) tid = coalesce (tenant_id l) tid \<longrightarrow> loaded_at r \<le> loaded_at l)"
    by blast
  have a: "\<forall>l\<in>set (heatmap_latest tid raw).
        l \<in> set raw \<and> like_contains ''/pushHeatmap'' (endpoint l)
        \<and> (\<exists>kvs. arrow (source_data l) ''data'' = Some (JObj kvs))
        \<and> (\<forall>r\<in>set raw.
              like_contains ''/pushHeatmap'' (endpoint r)
              \<and> (\<exists>kvs. arrow (source_data r) ''data'' = Some (JObj kvs))
              \<and> coalesce (tenant_id r) tid = coalesce (tenant_id l) tid \<longrightarrow>
              loaded_at r \<le> loaded_at l)"
  proof (intro ballI)
    fix l assume l: "l \<in> set (heatmap_latest tid raw)"
    from t l have m: "l \<in> set (heatmap_raw_rows raw)"
      and top: "\<forall>r\<in>set (heatmap_raw_rows raw).
              coalesce (tenant_id r) tid = coalesce (tenant_id l) tid \<longrightarrow> loaded_at r \<le> loaded_at l"
      by blast+
    from m have m': "l \<in> set raw \<and> like_contains ''/pushHeatmap'' (endpoint l)
        \<and> (\<exists>kvs. arrow (source_data l) ''data'' = Some (JObj kvs))"
      by (simp only: heatmap_raw_rows_iff)
    have "\<forall>r\<in>set raw.
              like_contains ''/pushHeatmap'' (endpoint r)
              \<and> (\<exists>kvs. arrow (source_data r) ''data'' = Some (JObj kvs))
              \<and> coalesce (tenant_id r) tid = coalesce (tenant_id l) tid \<longrightarrow>
              loaded_at r \<le> loaded_at l"
    proof (intro ballI impI)
      fix r assume r: "r \<in> set raw" and c: "like_contains ''/pushHeatmap'' (endpoint r)
              \<and> (\<exists>kvs. arrow (source_data r) ''data'' = Some (JObj kvs))
              \<and> coalesce (tenant_id r) tid = coalesce (tenant_id l) tid"
      from r c have "r \<in> set (heatmap_raw_rows raw)" by (simp only: heatmap_raw_rows_iff)
      with top c show "loaded_at r \<le> loaded_at l" by blast
    qed
    with m' show "l \<in> set raw \<and> like_contains ''/pushHeatmap'' (endpoint l)
        \<and> (\<exists>kvs. arrow (source_data l) ''data'' = Some (JObj kvs))
        \<and> (\<forall>r\<in>set raw.
              like_contains ''/pushHeatmap'' (endpoint r)
              \<and> (\<exists>kvs. arrow (source_data r) ''data'' = Some (JObj kvs))
              \<and> coalesce (tenant_id r) tid = coalesce (tenant_id l) tid \<longrightarrow>
              loaded_at r \<le> loaded_at l)" by blast
  qed
  have b: "\<forall>r\<in>set raw.
        like_contains ''/pushHeatmap'' (endpoint r)
        \<and> (\<exists>kvs. arrow (source_data r) ''data'' = Some (JObj kvs)) \<longrightarrow>
        (\<exists>l\<in>set (heatmap_latest tid raw). coalesce (tenant_id l) tid = coalesce (tenant_id r) tid)"
  proof (intro ballI impI)
    fix r assume "r \<in> set raw" and "like_contains ''/pushHeatmap'' (endpoint r)
        \<and> (\<exists>kvs. arrow (source_data r) ''data'' = Some (JObj kvs))"
    then have "r \<in> set (heatmap_raw_rows raw)" by (simp only: heatmap_raw_rows_iff)
    then have "coalesce (tenant_id r) tid \<in> (\<lambda>r. coalesce (tenant_id r) tid) ` set (heatmap_raw_rows raw)"
      by (rule imageI)
    with ks have "coalesce (tenant_id r) tid \<in> (\<lambda>r. coalesce (tenant_id r) tid) ` set (heatmap_latest tid raw)"
      by simp
    then show "\<exists>l\<in>set (heatmap_latest tid raw). coalesce (tenant_id l) tid = coalesce (tenant_id r) tid"
      by auto
  qed
  from d a b show ?thesis by blast
qed

lemma heatmap_sql_of_latest:
  assumes "heatmap_latest tid raw' = heatmap_latest tid raw"
  shows "HEATMAP_SQL srv tid raw' = HEATMAP_SQL srv tid raw"
  using assms by (simp add: HEATMAP_SQL_def)

text \<open>
  Claim C9, as the code has it. The heatmap query ranks only the \<^verbatim>\<open>pushHeatmap\<close> snapshots whose
  \<^verbatim>\<open>data\<close> is a JSON object: of these it keeps one per tenant, with the greatest
  \<^verbatim>\<open>loaded_at\<close>, and every tenant that has such a snapshot has one kept. It flattens the
  weekday and hour cells of the kept snapshots only: the query gives the same result on
  the kept snapshots alone as on all of them, and the same on any other raw table with the
  same kept snapshots, so no other snapshot contributes a row. A transform that returns
  leaves every cell whose key is not among the new cells as it was, and deletes none.
\<close>

theorem heatmap_latest_only:
  "distinct (map (\<lambda>r. coalesce (tenant_id r) tid) (heatmap_latest tid raw))
   \<and> (\<forall>l\<in>set (heatmap_latest tid raw).
        l \<in> set raw \<and> like_contains ''/pushHeatmap'' (endpoint l)
        \<and> (\<exists>kvs. arrow (source_data l) ''data'' = Some (JObj kvs))
        \<and> (\<forall>r\<in>set raw.
              like_contains ''/pushHeatmap'' (endpoint r)
              \<and> (\<exists>kvs. arrow (source_data r) ''data'' = Some (JObj kvs))
              \<and> coalesce (tenant_id r) tid = coalesce (tenant_id l) tid \<longrightarrow>
              loaded_at r \<le> loaded_at l))
   \<and> (\<forall>r\<in>set raw.
        like_contains ''/pushHeatmap'' (endpoint r)
        \<and> (\<exists>kvs. arrow (source_data r) ''data'' = Some (JObj kvs)) \<longrightarrow>
        (\<exists>l\<in>set (heatmap_latest tid raw). coalesce (tenant_id l) tid = coalesce (tenant_id r) tid))
   \<and> HEATMAP_SQL srv tid (heatmap_latest tid raw) = HEATMAP_SQL srv tid raw
   \<and> (heatmap_latest tid raw' = heatmap_latest tid raw \<longrightarrow>
        HEATMAP_SQL srv tid raw' = HEATMAP_SQL srv tid raw)
   \<and> (HEATMAP_SQL srv tid raw = Inr cells \<longrightarrow>
        (\<exists>per. length per = length (heatmap_latest tid raw)
           \<and> (\<forall>i<length per. snapshot_cells srv tid (heatmap_latest tid raw ! i) = Inr (per ! i))
           \<and> cells = concat per))
   \<and> (transform_heatmap srv conn = (conn', Inr count) \<longrightarrow>
        (\<exists>new. HEATMAP_SQL srv TENANT_ID (raw_push_stats conn) = Inr new
           \<and> count = int (length new)
           \<and> (\<forall>k. k \<notin> cell_key ` cell_values ` set new \<longrightarrow>
                 filter (\<lambda>x. cell_key x = k) (toques_heatmap conn')
                   = filter (\<lambda>x. cell_key x = k) (toques_heatmap conn))
           \<and> cell_key ` set (toques_heatmap conn) \<subseteq> cell_key ` set (toques_heatmap conn')
           \<and> length (toques_heatmap conn) \<le> length (toques_heatmap conn')))"
proof -
  note a = heatmap_latest_explicit[of tid raw]
  note b = heatmap_sql_latest[of srv tid raw]
  have c: "heatmap_latest tid raw' = heatmap_latest tid raw \<longrightarrow>
        HEATMAP_SQL srv tid raw' = HEATMAP_SQL srv tid raw"
    using heatmap_sql_of_latest[of tid raw' raw srv] by blast
  have d: "HEATMAP_SQL srv tid raw = Inr cells \<longrightarrow>
        (\<exists>per. length per = length (heatmap_latest tid raw)
           \<and> (\<forall>i<length per. snapshot_cells srv tid (heatmap_latest tid raw ! i) = Inr (per ! i))
           \<and> cells = concat per)"
    using heatmap_cells_from_latest[of srv tid raw cells] by blast
  have e: "transform_heatmap srv conn = (conn', Inr count) \<longrightarrow>
        (\<exists>new. HEATMAP_SQL srv TENANT_ID (raw_push_stats conn) = Inr new
           \<and> count = int (length new)
           \<and> (\<forall>k. k \<notin> cell_key ` cell_values ` set new \<longrightarrow>
                 filter (\<lambda>x. cell_key x = k) (toques_heatmap conn')
                   = filter (\<lambda>x. cell_key x = k) (toques_heatmap conn))
           \<and> cell_key ` set (toques_heatmap conn) \<subseteq> cell_key ` set (toques_heatmap conn')
           \<and> length (toques_heatmap conn) \<le> length (toques_heatmap conn'))"
    using heatmap_untouched[of srv conn conn' count] by blast
  show ?thesis
    by (intro conjI) (rule a[THEN conjunct1], rule a[THEN conjunct2, THEN conjunct1],
        rule a[THEN conjunct2, THEN conjunct2], rule b, rule c, rule d, rule e)
qed

text \<open>
  The claim as stated has the cells come from the \<^verbatim>\<open>pushHeatmap\<close> snapshot with the greatest
  \<^verbatim>\<open>loaded_at\<close>. Here that snapshot, loaded at 2, has an empty array as \<^verbatim>\<open>data\<close>: the query
  passes it over and flattens the snapshot loaded at 1, whose cell is written.
\<close>

theorem heatmap_latest_only_counterexample:
  "heatmap_latest TENANT_ID heatmap_then_empty
     = [heatmap_snapshot 1 [(''monday'', JObj [(''10'', JNum (1 / 8))])]]
   \<and> HEATMAP_SQL example_server TENANT_ID heatmap_then_empty = Inr [example_flat_cell 10 (25 / 2)]
   \<and> map loaded_at (filter (\<lambda>r. like_contains ''/pushHeatmap'' (endpoint r)) heatmap_then_empty) = [1, 2]
   \<and> map (\<lambda>r. arrow (source_data r) ''data'') heatmap_then_empty
       = [Some (JObj [(''weekday-hour'', JObj [(''monday'', JObj [(''10'', JNum (1 / 8))])])]),
          Some (JArr [])]
   \<and> transform_heatmap example_server (empty_db\<lparr>raw_push_stats := heatmap_then_empty\<rparr>)
       = (empty_db\<lparr>raw_push_stats := heatmap_then_empty,
                   toques_heatmap := [cell_values (example_flat_cell 10 (25 / 2))]\<rparr>, Inr 1)"
  by code_simp

theorem heatmap_latest_only_witness:
  "heatmap_latest TENANT_ID heatmaps_and_stats
     = [heatmap_snapshot 2 [(''monday'', JObj [(''10'', JNum (1 / 4))])]]
   \<and> HEATMAP_SQL example_server TENANT_ID heatmaps_and_stats = Inr [example_flat_cell 10 25]
   \<and> HEATMAP_SQL example_server TENANT_ID
         [heatmap_snapshot 2 [(''monday'', JObj [(''10'', JNum (1 / 4))])]]
       = Inr [example_flat_cell 10 25]
   \<and> loaded_at (heatmaps_and_stats ! 0) \<le> loaded_at (heatmap_snapshot 2 [(''monday'', JObj [(''10'', JNum (1 / 4))])])
   \<and> transform_heatmap example_server
        (empty_db\<lparr>raw_push_stats := heatmaps_and_stats,
                  toques_heatmap := [cell_values (example_flat_cell 10 (25 / 2)),
                                     cell_values (example_flat_cell 11 25)]\<rparr>)
       = (empty_db\<lparr>raw_push_stats := heatmaps_and_stats,
                  toques_heatmap := [cell_values (example_flat_cell 10 25),
                                     cell_values (example_flat_cell 11 25)]\<rparr>, Inr 1)
   \<and> filter (\<lambda>x. cell_key x = cell_key (cell_values (example_flat_cell 11 25)))
        [cell_values (example_flat_cell 10 25), cell_values (example_flat_cell 11 25)]
       = [cell_values (example_flat_cell 11 25)]"
proof -
  let ?conn = "empty_db\<lparr>raw_push_stats := heatmaps_and_stats,
                  toques_heatmap := [cell_values (example_flat_cell 10 (25 / 2)),
                                     cell_values (example_flat_cell 11 25)]\<rparr>"
  let ?conn' = "empty_db\<lparr>raw_push_stats := heatmaps_and_stats,
                  toques_heatmap := [cell_values (example_flat_cell 10 25),
                                     cell_values (example_flat_cell 11 25)]\<rparr>"
  let ?k = "cell_key (cell_values (example_flat_cell 11 25))"
  let ?l = "heatmap_snapshot 2 [(''monday'', JObj [(''10'', JNum (1 / 4))])]"
  have l: "heatmap_latest TENANT_ID heatmaps_and_stats = [?l]" by code_simp
  have h1: "HEATMAP_SQL example_server TENANT_ID heatmaps_and_stats = Inr [example_flat_cell 10 25]"
    by code_simp
  have h2: "transform_heatmap example_server ?conn = (?conn', Inr 1)" by code_simp
  have r: "raw_push_stats ?conn = heatmaps_and_stats" by (simp add: empty_db_def)
  note g = heatmap_latest_only[where tid=TENANT_ID and raw=heatmaps_and_stats and srv=example_server
      and cells="[example_flat_cell 10 25]" and conn="?conn" and conn'="?conn'" and count=1
      and raw'="[?l]"]
  note g2 = g[THEN conjunct2, THEN conjunct1]
  note g4 = g[THEN conjunct2, THEN conjunct2, THEN conjunct2, THEN conjunct1]
  note g7 = g[THEN conjunct2, THEN conjunct2, THEN conjunct2, THEN conjunct2, THEN conjunct2,
              THEN conjunct2]
  from g4 l h1 have a: "HEATMAP_SQL example_server TENANT_ID [?l] = Inr [example_flat_cell 10 25]"
    by simp
  have m: "?l \<in> set (heatmap_latest TENANT_ID heatmaps_and_stats)" unfolding l by simp
  have r0: "heatmaps_and_stats ! 0 \<in> set heatmaps_and_stats"
    by (simp add: heatmaps_and_stats_def example_heatmaps_def)
  have c0: "like_contains ''/pushHeatmap'' (endpoint (heatmaps_and_stats ! 0))
              \<and> (\<exists>kvs. arrow (source_data (heatmaps_and_stats ! 0)) ''data'' = Some (JObj kvs))
              \<and> coalesce (tenant_id (heatmaps_and_stats ! 0)) TENANT_ID = coalesce (tenant_id ?l) TENANT_ID"
    by (simp add: heatmaps_and_stats_def example_heatmaps_def heatmap_snapshot_def arrow_def
          coalesce_def)
  from g2[rule_format, OF m] have
    "\<forall>r\<in>set heatmaps_and_stats.
              like_contains ''/pushHeatmap'' (endpoint r)
              \<and> (\<exists>kvs. arrow (source_data r) ''data'' = Some (JObj kvs))
              \<and> coalesce (tenant_id r) TENANT_ID = coalesce (tenant_id ?l) TENANT_ID \<longrightarrow>
              loaded_at r \<le> loaded_at ?l" by (elim conjE)
  from this[rule_format, OF r0 c0] have o: "loaded_at (heatmaps_and_stats ! 0) \<le> loaded_at ?l" .
  from mp[OF g7 h2] obtain new where n: "HEATMAP_SQL example_server TENANT_ID (raw_push_stats ?conn) = Inr new"
    and u: "\<forall>k. k \<notin> cell_key ` cell_values ` set new \<longrightarrow>
                 filter (\<lambda>x. cell_key x = k) (toques_heatmap ?conn')
                   = filter (\<lambda>x. cell_key x = k) (toques_heatmap ?conn)"
    by (elim exE conjE)
  from n h1 have new: "new = [example_flat_cell 10 25]" by (simp only: r) simp
  have nk: "?k \<notin> cell_key ` cell_values ` set new"
    unfolding new by (simp add: cell_key_def cell_values_def example_flat_cell_def)
  from u[rule_format, OF nk] have "filter (\<lambda>x. cell_key x = ?k) (toques_heatmap ?conn')
                   = filter (\<lambda>x. cell_key x = ?k) (toques_heatmap ?conn)" .
  also have "\<dots> = [cell_values (example_flat_cell 11 25)]"
    by (simp add: empty_db_def cell_key_def cell_values_def example_flat_cell_def)
  finally have b: "filter (\<lambda>x. cell_key x = ?k)
        [cell_values (example_flat_cell 10 25), cell_values (example_flat_cell 11 25)]
       = [cell_values (example_flat_cell 11 25)]" by (simp add: empty_db_def)
  show ?thesis by (intro conjI) (rule l, rule h1, rule a, rule o, rule h2, rule b)
qed

section \<open>Properties of main\<close>

subsection \<open>Recording an error\<close>

lemma update_sync_state_eq:
  "update_sync_state srv ts entity records status conn =
     (case rejects_sync_row srv \<lparr>ss_tenant_id = TENANT_ID, ss_entity = entity, ss_last_sync_at = ts,
                                ss_records_synced = records, ss_status = status\<rparr> of
        Some msg \<Rightarrow> Inl msg
      | None \<Rightarrow> Inr (conn\<lparr>sync_state := upserted sync_key sync_set
                   \<lparr>ss_tenant_id = TENANT_ID, ss_entity = entity, ss_last_sync_at = ts,
                    ss_records_synced = records, ss_status = status\<rparr> (sync_state conn)\<rparr>))"
  by (simp add: update_sync_state_def insert_on_conflict_def and_then_def split: option.splits)

lemma record_error_eq:
  "engine_begin (record_error srv now entity exc) d tick =
     (case rejects_sync_row srv (error_row (now tick) entity exc) of
        Some msg \<Rightarrow> ((d, Suc tick), Inl msg)
      | None \<Rightarrow> ((d\<lparr>sync_state := upserted sync_key sync_set (error_row (now tick) entity exc)
                                     (sync_state d)\<rparr>, Suc tick), Inr ()))"
  by (simp add: engine_begin_def record_error_def update_sync_state_eq error_row_def
           split: option.splits)

lemma engine_begin_Inl:
  "engine_begin body d tick = ((d1, tick1), Inl exc) \<longleftrightarrow>
     d1 = d \<and> (\<exists>conn. body d tick = ((conn, tick1), Inl exc))"
  by (auto simp: engine_begin_def split: prod.splits sum.splits)

lemma engine_begin_Inr:
  "engine_begin body d tick = ((d1, tick1), Inr v) \<longleftrightarrow> body d tick = ((d1, tick1), Inr v)"
  by (auto simp: engine_begin_def split: prod.splits sum.splits)

lemma run_entity_failed:
  assumes "engine_begin (transform_and_record srv now entity transform_fn) d tick = ((d1, tick1), Inl exc)"
  shows "run_entity srv now ((d, tick), results) (entity, transform_fn) =
     (case rejects_sync_row srv (error_row (now tick1) entity exc) of
        Some msg \<Rightarrow> ((d, Suc tick1), AList.update entity (- 1) results)
      | None \<Rightarrow> ((d\<lparr>sync_state := upserted sync_key sync_set (error_row (now tick1) entity exc)
                                     (sync_state d)\<rparr>, Suc tick1),
                 AList.update entity (- 1) results))"
proof -
  from assms have d1: "d1 = d" by (simp add: engine_begin_Inl)
  show ?thesis
    using assms unfolding run_entity_def d1
    by (simp add: record_error_eq split: option.splits)
qed

lemma upserted_sync_hit:
  assumes "distinct (map sync_key tbl)"
  shows "\<exists>r. filter (\<lambda>r. sync_key r = sync_key x) (upserted sync_key sync_set x tbl) = [r]
        \<and> ss_last_sync_at r = ss_last_sync_at x \<and> ss_records_synced r = ss_records_synced x
        \<and> ss_status r = ss_status x"
proof (cases "sync_key x \<in> sync_key ` set tbl")
  case True
  from distinct_key_filter[where key=sync_key and tbl=tbl, OF assms True] obtain old where
    "filter (\<lambda>r. sync_key r = sync_key x) tbl = [old]" by blast
  with upserted_hit[of sync_key sync_set x tbl, OF sync_set_key] True
  have "filter (\<lambda>r. sync_key r = sync_key x) (upserted sync_key sync_set x tbl) = [sync_set old x]"
    by simp
  then show ?thesis by (simp add: sync_set_def)
next
  case False
  with upserted_hit[of sync_key sync_set x tbl, OF sync_set_key]
  have "filter (\<lambda>r. sync_key r = sync_key x) (upserted sync_key sync_set x tbl) = [x]" by simp
  then show ?thesis by simp
qed

text \<open>
  Claim C10, as the code has it. When the transaction of an entity raises \<open>exc\<close>, nothing it
  wrote stays (\<open>d1 = d\<close>), the entity's result is \<open>- 1\<close>, and \<^verbatim>\<open>main\<close> opens a second
  transaction that writes the error row. If the table accepts that row, the one
  \<^verbatim>\<open>sync_state\<close> row of \<open>(visionamos, entity)\<close> then has \<^verbatim>\<open>records_synced = 0\<close> and the status
  "error: " followed by the first 200 characters of the message, whatever count a previous
  run had left, and nothing else has changed. If writing the error row raises as well,
  \<^verbatim>\<open>main\<close> swallows that exception (\<^verbatim>\<open>except Exception: pass\<close>) and the database is as it was,
  the previous count included.
\<close>

theorem error_recording_overwrites:
  assumes "engine_begin (transform_and_record srv now entity transform_fn) d tick = ((d1, tick1), Inl exc)"
      and "distinct (map sync_key (sync_state d))"
      and "run_entity srv now ((d, tick), results) (entity, transform_fn) = ((d2, tick2), results2)"
  shows "d1 = d \<and> results2 = AList.update entity (- 1) results
     \<and> (rejects_sync_row srv (error_row (now tick1) entity exc) = None \<longrightarrow>
          (\<exists>r. sync_rows d2 entity = [r] \<and> ss_records_synced r = 0
               \<and> ss_status r = ''error: '' @ take 200 exc \<and> ss_last_sync_at r = now tick1)
          \<and> d2\<lparr>sync_state := sync_state d\<rparr> = d)
     \<and> (rejects_sync_row srv (error_row (now tick1) entity exc) \<noteq> None \<longrightarrow> d2 = d)"
proof -
  from assms(1) have d1: "d1 = d" by (simp add: engine_begin_Inl)
  note re = run_entity_failed[OF assms(1), of results]
  let ?x = "error_row (now tick1) entity exc"
  have kx: "sync_key ?x = (TENANT_ID, entity)" by (simp add: sync_key_def error_row_def)
  show ?thesis
  proof (cases "rejects_sync_row srv ?x")
    case None
    with re assms(3) have d2: "d2 = d\<lparr>sync_state := upserted sync_key sync_set ?x (sync_state d)\<rparr>"
      and r2: "results2 = AList.update entity (- 1) results" by simp_all
    from upserted_sync_hit[OF assms(2), of ?x] obtain r where
      "filter (\<lambda>r. sync_key r = sync_key ?x) (upserted sync_key sync_set ?x (sync_state d)) = [r]"
      "ss_last_sync_at r = ss_last_sync_at ?x" "ss_records_synced r = ss_records_synced ?x"
      "ss_status r = ss_status ?x" by blast
    then have "sync_rows d2 entity = [r] \<and> ss_records_synced r = 0
               \<and> ss_status r = ''error: '' @ take 200 exc \<and> ss_last_sync_at r = now tick1"
      unfolding kx by (simp add: sync_rows_def d2) (simp add: error_row_def)
    with None d1 r2 d2 show ?thesis by auto
  next
    case (Some msg)
    with re assms(3) have "d2 = d" and "results2 = AList.update entity (- 1) results" by simp_all
    with Some d1 show ?thesis by simp
  qed
qed

text \<open>
  The claim as stated has the row overwritten whenever a transform fails. On a server
  whose \<^verbatim>\<open>status\<close> column holds twenty characters, the contacts transform raises on a
  malformed \<^verbatim>\<open>updatedAt\<close>, the error row is refused, and the row of the previous run stays:
  \<^verbatim>\<open>records_synced = 5\<close>, status "success".
\<close>

theorem error_recording_overwrites_counterexample:
  "engine_begin (transform_and_record narrow_server (\<lambda>n. 7) ''contacts'' (transform_contacts narrow_server))
      bad_contacts_db 0
     = ((bad_contacts_db, 0), Inl ''invalid input syntax for type date: n/a'')
   \<and> run_entity narrow_server (\<lambda>n. 7) ((bad_contacts_db, 0), []) (''contacts'', transform_contacts narrow_server)
     = ((bad_contacts_db, 1), [(''contacts'', - 1)])
   \<and> sync_rows bad_contacts_db ''contacts'' = [example_sync_row]
   \<and> ss_records_synced example_sync_row = 5 \<and> ss_status example_sync_row = ''success''"
  by code_simp

theorem error_recording_overwrites_witness:
  "engine_begin (transform_and_record example_server (\<lambda>n. 7) ''contacts'' (transform_contacts example_server))
      bad_contacts_db 0
     = ((bad_contacts_db, 0), Inl ''invalid input syntax for type date: n/a'')
   \<and> run_entity example_server (\<lambda>n. 7) ((bad_contacts_db, 0), []) (''contacts'', transform_contacts example_server)
     = ((bad_contacts_db\<lparr>sync_state :=
           [error_row 7 ''contacts'' ''invalid input syntax for type date: n/a'']\<rparr>, 1),
        [(''contacts'', - 1)])
   \<and> sync_rows (bad_contacts_db\<lparr>sync_state :=
           [error_row 7 ''contacts'' ''invalid input syntax for type date: n/a'']\<rparr>) ''contacts''
     = [error_row 7 ''contacts'' ''invalid input syntax for type date: n/a'']
   \<and> ss_records_synced (error_row 7 ''contacts'' ''invalid input syntax for type date: n/a'') = 0"
proof -
  let ?e = "''invalid input syntax for type date: n/a''"
  let ?d2 = "bad_contacts_db\<lparr>sync_state := [error_row 7 ''contacts'' ?e]\<rparr>"
  have h1: "engine_begin (transform_and_record example_server (\<lambda>n. 7) ''contacts''
       (transform_contacts example_server)) bad_contacts_db 0 = ((bad_contacts_db, 0), Inl ?e)"
    by code_simp
  have h2: "distinct (map sync_key (sync_state bad_contacts_db))"
    by (simp add: bad_contacts_db_def empty_db_def)
  have h3: "run_entity example_server (\<lambda>n. 7) ((bad_contacts_db, 0), [])
      (''contacts'', transform_contacts example_server) = ((?d2, 1), [(''contacts'', - 1)])"
    by code_simp
  have acc: "rejects_sync_row example_server (error_row ((\<lambda>n. 7) 0) ''contacts'' ?e) = None"
    by (simp add: example_server_def)
  note g = error_recording_overwrites[OF h1 h2 h3]
  note g3 = g[THEN conjunct2, THEN conjunct2, THEN conjunct1]
  from mp[OF g3 acc] obtain r where r: "sync_rows ?d2 ''contacts'' = [r]" "ss_records_synced r = 0"
    by (elim exE conjE)
  have s: "sync_rows ?d2 ''contacts'' = [error_row 7 ''contacts'' ?e]"
    by (simp add: sync_rows_def sync_key_def error_row_def TENANT_ID_def)
  with r have "ss_records_synced (error_row 7 ''contacts'' ?e) = 0" by simp
  with h1 h3 s show ?thesis by (intro conjI)
qed

subsection \<open>A second run of the same upserts\<close>

lemma upserted_present:
  assumes "key x \<in> key ` set t"
  shows "upserted key upd x t = map (\<lambda>r. if key r = key x then upd r x else r) t"
  using assms by (simp add: upserted_eq)

lemma upsert_all_as_map:
  assumes kp: "\<And>old v. key (upd old v) = key old"
  shows "(\<forall>x\<in>set xs. key x \<in> key ` set t) \<Longrightarrow>
         upsert_all key upd xs t = map (\<lambda>r. foldl (\<lambda>y x. if key y = key x then upd y x else y) r xs) t"
proof (induction xs arbitrary: t)
  case Nil
  then show ?case by simp
next
  case (Cons x xs)
  let ?c = "\<lambda>r. if key r = key x then upd r x else r"
  from Cons.prems have p: "key x \<in> key ` set t" by simp
  have u: "upserted key upd x t = map ?c t" by (rule upserted_present[OF p])
  have "map key (map ?c t) = map key t" by (rule map_key_update) (rule kp)
  then have "set (map key (map ?c t)) = set (map key t)" by (rule arg_cong)
  then have ks: "key ` set (map ?c t) = key ` set t" unfolding set_map .
  from Cons.prems have "\<forall>y\<in>set xs. key y \<in> key ` set (map ?c t)" unfolding ks by simp
  from Cons.IH[OF this] show ?case unfolding upsert_all_Cons u by (simp add: comp_def)
qed

lemma fold_cond_key:
  assumes kp: "\<And>old v. key (upd old v) = key old"
  shows "key (foldl (\<lambda>y x. if key y = key x then upd y x else y) r xs) = key r"
  by (induction xs arbitrary: r) (simp_all add: kp)

lemma fold_cond_last:
  assumes kp: "\<And>old v. key (upd old v) = key old"
      and A: "\<forall>a\<in>set xs. \<forall>b\<in>set xs. key a = key b \<longrightarrow> (\<forall>old. upd (upd old a) b = upd old b)"
  shows "foldl (\<lambda>y x. if key y = key x then upd y x else y) r xs =
           (if filter (\<lambda>x. key x = key r) xs = [] then r
            else upd r (last (filter (\<lambda>x. key x = key r) xs)))"
  using A
proof (induction xs rule: rev_induct)
  case Nil
  then show ?case by simp
next
  case (snoc z ys)
  let ?G = "\<lambda>xs. foldl (\<lambda>y x. if key y = key x then upd y x else y) r xs"
  from snoc.prems have A': "\<forall>a\<in>set ys. \<forall>b\<in>set ys. key a = key b \<longrightarrow> (\<forall>old. upd (upd old a) b = upd old b)"
    by simp
  note ih = snoc.IH[OF A']
  have kg: "key (?G ys) = key r" by (rule fold_cond_key) (rule kp)
  show ?case
  proof (cases "key z = key r")
    case False
    with ih kg show ?thesis by simp
  next
    case True
    show ?thesis
    proof (cases "filter (\<lambda>x. key x = key r) ys = []")
      case e: True
      with ih True kg show ?thesis by simp
    next
      case ne: False
      let ?l = "last (filter (\<lambda>x. key x = key r) ys)"
      from ne have "?l \<in> set (filter (\<lambda>x. key x = key r) ys)" by (rule last_in_set)
      then have l: "?l \<in> set ys" "key ?l = key r" by simp_all
      from snoc.prems l True have "upd (upd r ?l) z = upd r z" by simp
      with ih ne True kg show ?thesis by simp
    qed
  qed
qed

lemma upsert_all_final_rows:
  assumes kp: "\<And>old v. key (upd old v) = key old"
  shows "r \<in> set (upsert_all key upd xs tbl) \<Longrightarrow> filter (\<lambda>x. key x = key r) xs \<noteq> [] \<Longrightarrow>
         r = last (filter (\<lambda>x. key x = key r) xs)
         \<or> (\<exists>old. r = upd old (last (filter (\<lambda>x. key x = key r) xs)))"
proof (induction xs arbitrary: r rule: rev_induct)
  case Nil
  then show ?case by simp
next
  case (snoc z ys)
  let ?t = "upsert_all key upd ys tbl"
  from snoc.prems(1) have m: "r \<in> set (upserted key upd z ?t)" by (simp add: upsert_all_snoc)
  show ?case
  proof (cases "key r = key z")
    case True
    have "r = z \<or> (\<exists>old. r = upd old z)"
    proof (cases "key z \<in> key ` set ?t")
      case p: True
      with m obtain r' where "r' \<in> set ?t" "r = (if key r' = key z then upd r' z else r')"
        by (auto simp: upserted_eq)
      with True show ?thesis by (cases "key r' = key z") auto
    next
      case np: False
      with m have "r \<in> set ?t \<or> r = z" by (auto simp: upserted_eq)
      moreover from np True have "r \<notin> set ?t" by (metis imageI)
      ultimately show ?thesis by blast
    qed
    with True show ?thesis by simp
  next
    case False
    from m False have "r \<in> set ?t"
      by (auto simp: upserted_eq kp split: if_splits)
    moreover from snoc.prems(2) False have "filter (\<lambda>x. key x = key r) ys \<noteq> []" by auto
    ultimately have "r = last (filter (\<lambda>x. key x = key r) ys)
         \<or> (\<exists>old. r = upd old (last (filter (\<lambda>x. key x = key r) ys)))" by (rule snoc.IH)
    with False show ?thesis by auto
  qed
qed

lemma upsert_all_idem:
  assumes kp: "\<And>old v. key (upd old v) = key old"
      and A: "\<forall>a\<in>set xs. \<forall>b\<in>set xs. key a = key b \<longrightarrow> (\<forall>old. upd (upd old a) b = upd old b)"
      and I2: "\<forall>v\<in>set xs. upd v v = v"
  shows "upsert_all key upd xs (upsert_all key upd xs tbl) = upsert_all key upd xs tbl"
proof -
  let ?t = "upsert_all key upd xs tbl"
  let ?G = "\<lambda>r. foldl (\<lambda>y x. if key y = key x then upd y x else y) r xs"
  have ks: "key ` set ?t = key ` set tbl \<union> key ` set xs"
    by (rule upsert_all_key_set[of key upd]) (rule kp)
  then have "\<forall>x\<in>set xs. key x \<in> key ` set ?t" by auto
  then have "upsert_all key upd xs ?t = map ?G ?t"
    by (rule upsert_all_as_map[of key upd, OF kp])
  also have "\<dots> = ?t"
  proof (rule map_idI)
    fix r assume r: "r \<in> set ?t"
    have g: "?G r = (if filter (\<lambda>x. key x = key r) xs = [] then r
            else upd r (last (filter (\<lambda>x. key x = key r) xs)))"
      by (rule fold_cond_last[of key upd, OF kp A])
    show "?G r = r"
    proof (cases "filter (\<lambda>x. key x = key r) xs = []")
      case True
      with g show ?thesis by simp
    next
      case False
      let ?l = "last (filter (\<lambda>x. key x = key r) xs)"
      from False have "?l \<in> set (filter (\<lambda>x. key x = key r) xs)" by (rule last_in_set)
      then have l: "?l \<in> set xs" by simp
      from upsert_all_final_rows[of key upd r xs tbl, OF kp r False]
      have "r = ?l \<or> (\<exists>old. r = upd old ?l)" .
      then have "upd r ?l = r"
      proof
        assume "r = ?l"
        with I2 l show ?thesis by metis
      next
        assume "\<exists>old. r = upd old ?l"
        then obtain old where o: "r = upd old ?l" by blast
        from A l have "upd (upd old ?l) ?l = upd old ?l" by blast
        with o show ?thesis by simp
      qed
      with g False show ?thesis by simp
    qed
  qed
  finally show ?thesis .
qed

subsection \<open>One turn of the loop of main\<close>

lemma run_entity_eq:
  "run_entity srv now ((d, tick), results) (entity, f) =
   (case f d of
      (d1, Inr count) \<Rightarrow>
        (case rejects_sync_row srv (success_row (now tick) entity count) of
           None \<Rightarrow> ((d1\<lparr>sync_state := upserted sync_key sync_set (success_row (now tick) entity count)
                                         (sync_state d1)\<rparr>, Suc tick),
                     AList.update entity count results)
         | Some msg \<Rightarrow>
            (case rejects_sync_row srv (error_row (now (Suc tick)) entity msg) of
               None \<Rightarrow> ((d\<lparr>sync_state := upserted sync_key sync_set (error_row (now (Suc tick)) entity msg)
                                            (sync_state d)\<rparr>, Suc (Suc tick)),
                         AList.update entity (- 1) results)
             | Some msg' \<Rightarrow> ((d, Suc (Suc tick)), AList.update entity (- 1) results)))
    | (d1, Inl exc) \<Rightarrow>
        (case rejects_sync_row srv (error_row (now tick) entity exc) of
           None \<Rightarrow> ((d\<lparr>sync_state := upserted sync_key sync_set (error_row (now tick) entity exc)
                                        (sync_state d)\<rparr>, Suc tick),
                     AList.update entity (- 1) results)
         | Some msg' \<Rightarrow> ((d, Suc tick), AList.update entity (- 1) results)))"
  by (simp add: run_entity_def engine_begin_def transform_and_record_def record_error_def
        update_sync_state_eq success_row_def error_row_def
      split: prod.splits sum.splits option.splits)

lemma for_rows_accepted:
  assumes "\<forall>r\<in>set rows. rej (vals r) = None"
  shows "for_rows (\<lambda>r. insert_on_conflict rej key upd (vals r)) rows tbl 0
           = (upsert_all key upd (map vals rows) tbl, Inr (int (length rows)))"
  using for_rows_Inr[of rej key upd vals rows tbl 0 "upsert_all key upd (map vals rows) tbl"
      "int (length rows)"] assms by simp

lemma for_rows_refused:
  assumes "\<not> (\<forall>r\<in>set rows. rej (vals r) = None)"
  shows "\<exists>tbl' exc. for_rows (\<lambda>r. insert_on_conflict rej key upd (vals r)) rows tbl 0 = (tbl', Inl exc)"
proof -
  obtain tbl' out where f: "for_rows (\<lambda>r. insert_on_conflict rej key upd (vals r)) rows tbl 0 = (tbl', out)"
    by (metis prod.exhaust)
  show ?thesis
  proof (cases out)
    case (Inl exc)
    with f show ?thesis by blast
  next
    case (Inr c)
    with f for_rows_Inr[of rej key upd vals rows tbl 0 tbl' c] assms show ?thesis by blast
  qed
qed

lemma table_transform_Inl:
  assumes "snd (table_transform sql (\<lambda>r. insert_on_conflict rej key upd (vals r)) get put d) = Inl exc"
  shows "sql d = Inl exc \<or> (\<exists>rows. sql d = Inr rows \<and> \<not> (\<forall>r\<in>set rows. rej (vals r) = None))"
proof (cases "sql d")
  case (Inl e)
  with assms show ?thesis by (simp add: table_transform_def)
next
  case (Inr rows)
  show ?thesis
  proof (cases "\<forall>r\<in>set rows. rej (vals r) = None")
    case True
    from for_rows_accepted[of rows rej vals key upd "get d", OF True] Inr assms
    show ?thesis by (simp add: table_transform_def)
  next
    case False
    with Inr show ?thesis by simp
  qed
qed

lemma table_transform_Inr:
  assumes "snd (table_transform sql (\<lambda>r. insert_on_conflict rej key upd (vals r)) get put d) = Inr n"
  shows "\<exists>rows. sql d = Inr rows \<and> (\<forall>r\<in>set rows. rej (vals r) = None) \<and> n = int (length rows)"
proof (cases "sql d")
  case (Inl e)
  with assms show ?thesis by (simp add: table_transform_def)
next
  case (Inr rows)
  show ?thesis
  proof (cases "\<forall>r\<in>set rows. rej (vals r) = None")
    case True
    from for_rows_accepted[of rows rej vals key upd "get d", OF True] Inr assms True
    show ?thesis by (simp add: table_transform_def)
  next
    case False
    from for_rows_refused[of rows rej vals key upd "get d", OF False] Inr assms
    show ?thesis by (auto simp: table_transform_def)
  qed
qed

lemma table_transform_reads:
  assumes "sql a = sql b" and "get a = get b"
  shows "snd (table_transform sql stmt get put a) = snd (table_transform sql stmt get put b)"
  using assms by (simp add: table_transform_def split: sum.splits prod.splits)

lemma turn_failed:
  assumes L4: "\<And>c. put (get c) c = c"
      and st: "(case rejects_sync_row srv (error_row ts entity exc) of
           None \<Rightarrow> ((d\<lparr>sync_state := upserted sync_key sync_set (error_row ts entity exc)
                                        (sync_state d)\<rparr>, t2),
                     AList.update entity (- 1) results)
         | Some msg' \<Rightarrow> ((d, t2), AList.update entity (- 1) results)) = ((d', tick'), results')"
      and c: "\<forall>rows. sel = Inr rows \<longrightarrow> (\<forall>r\<in>set rows. rej (vals r) = None) \<longrightarrow>
            \<not> (\<forall>ts. rejects_sync_row srv (success_row ts entity (int (length rows))) = None)"
  shows "\<exists>c T S. results' = AList.update entity c results \<and> d' = (put T d)\<lparr>sync_state := S\<rparr>
     \<and> turn_outcome srv entity sel rej vals key upd (get d) (sync_state d) c T S"
proof (cases "rejects_sync_row srv (error_row ts entity exc)")
  case None
  with st have r: "results' = AList.update entity (- 1) results"
    and d': "d' = (put (get d) d)\<lparr>sync_state := upserted sync_key sync_set (error_row ts entity exc)
                                        (sync_state d)\<rparr>"
    by (simp_all add: L4)
  have "turn_outcome srv entity sel rej vals key upd (get d) (sync_state d) (- 1) (get d)
          (upserted sync_key sync_set (error_row ts entity exc) (sync_state d))"
    unfolding turn_outcome_def using None c by auto
  with r d' show ?thesis by blast
next
  case (Some m)
  with st have r: "results' = AList.update entity (- 1) results"
    and d': "d' = (put (get d) d)\<lparr>sync_state := sync_state d\<rparr>"
    by (simp_all add: L4)
  have "turn_outcome srv entity sel rej vals key upd (get d) (sync_state d) (- 1) (get d) (sync_state d)"
    unfolding turn_outcome_def using Some c by auto
  with r d' show ?thesis by blast
qed

lemma turn_table:
  assumes L2: "\<And>t c. sync_state (put t c) = sync_state c"
      and L4: "\<And>c. put (get c) c = c"
      and run: "run_entity srv now ((d, tick), results)
                  (entity, table_transform sql (\<lambda>r. insert_on_conflict rej key upd (vals r)) get put)
                = ((d', tick'), results')"
  shows "\<exists>c T S. results' = AList.update entity c results \<and> d' = (put T d)\<lparr>sync_state := S\<rparr>
     \<and> turn_outcome srv entity (sql d) rej vals key upd (get d) (sync_state d) c T S"
proof -
  let ?f = "table_transform sql (\<lambda>r. insert_on_conflict rej key upd (vals r)) get put"
  note re = run[unfolded run_entity_eq]
  show ?thesis
  proof (cases "sql d")
    case (Inl exc)
    then have f: "?f d = (d, Inl exc)" by (simp add: table_transform_def)
    show ?thesis
      by (rule turn_failed[where put=put and get=get and srv=srv and entity=entity and d=d
            and results=results and d'=d' and tick'=tick' and results'=results' and sel="sql d"
            and rej=rej and vals=vals and key=key and upd=upd and ts="now tick" and exc=exc and ?t2.0="Suc tick", OF L4])
         (use re f Inl in simp_all)
  next
    case (Inr rows)
    show ?thesis
    proof (cases "\<forall>r\<in>set rows. rej (vals r) = None")
      case acc: True
      let ?tbl = "upsert_all key upd (map vals rows) (get d)"
      let ?c = "int (length rows)"
      have f: "?f d = (put ?tbl d, Inr ?c)"
        using Inr for_rows_accepted[of rows rej vals key upd "get d", OF acc]
        by (simp add: table_transform_def)
      show ?thesis
      proof (cases "rejects_sync_row srv (success_row (now tick) entity ?c)")
        case None
        with re f have r: "results' = AList.update entity ?c results"
          and d': "d' = (put ?tbl d)\<lparr>sync_state := upserted sync_key sync_set
                           (success_row (now tick) entity ?c) (sync_state d)\<rparr>"
          by (simp_all add: L2)
        have "turn_outcome srv entity (sql d) rej vals key upd (get d) (sync_state d) ?c ?tbl
               (upserted sync_key sync_set (success_row (now tick) entity ?c) (sync_state d))"
          unfolding turn_outcome_def using Inr acc None by auto
        with r d' show ?thesis by blast
      next
        case (Some msg)
        show ?thesis
          by (rule turn_failed[where put=put and get=get and srv=srv and entity=entity and d=d
            and results=results and d'=d' and tick'=tick' and results'=results' and sel="sql d"
            and rej=rej and vals=vals and key=key and upd=upd and ts="now (Suc tick)" and exc=msg and ?t2.0="Suc (Suc tick)", OF L4])
             (use re f Inr Some in auto)
      qed
    next
      case rej: False
      from for_rows_refused[of rows rej vals key upd "get d", OF rej] obtain tbl' exc where
        "for_rows (\<lambda>r. insert_on_conflict rej key upd (vals r)) rows (get d) 0 = (tbl', Inl exc)"
        by blast
      then have f: "?f d = (put tbl' d, Inl exc)" using Inr by (simp add: table_transform_def)
      show ?thesis
        by (rule turn_failed[where put=put and get=get and srv=srv and entity=entity and d=d
            and results=results and d'=d' and tick'=tick' and results'=results' and sel="sql d"
            and rej=rej and vals=vals and key=key and upd=upd and ts="now tick" and exc=exc and ?t2.0="Suc tick", OF L4])
           (use re f Inr rej in auto)
    qed
  qed
qed

lemma CONTACTS_UPSERT_eta:
  "CONTACTS_UPSERT srv =
     (\<lambda>r. insert_on_conflict (rejects_contact srv) contact_key contact_set (contact_values r))"
  by (intro ext) (simp add: CONTACTS_UPSERT_def)

lemma toques_daily_row_eta:
  "toques_daily_row srv =
     (\<lambda>r. insert_on_conflict (rejects_toque srv) toque_key toque_set (toque_proposed r))"
  by (intro ext) (simp add: toques_daily_row_def TOQUES_DAILY_UPSERT_def toque_proposed_def Let_def)

lemma HEATMAP_UPSERT_eta:
  "HEATMAP_UPSERT srv =
     (\<lambda>r. insert_on_conflict (rejects_cell srv) cell_key cell_set (cell_values r))"
  by (intro ext) (simp add: HEATMAP_UPSERT_def)

lemma campaigns_row_eta:
  "campaigns_row srv =
     (\<lambda>r. insert_on_conflict (rejects_campaign srv) campaign_key campaign_set (campaign_proposed r))"
  by (intro ext) (simp add: campaigns_row_def CAMPAIGNS_UPSERT_def campaign_proposed_def Let_def)

lemma DAILY_STATS_UPSERT_eta:
  "DAILY_STATS_UPSERT srv =
     (\<lambda>r. insert_on_conflict (rejects_daily_stat srv) daily_stat_key daily_stat_set r)"
  by (intro ext) (simp add: DAILY_STATS_UPSERT_def)

lemma transform_contacts_table:
  "transform_contacts srv =
     table_transform (\<lambda>c. CONTACTS_SQL srv TENANT_ID (raw_contacts_api c))
       (\<lambda>r. insert_on_conflict (rejects_contact srv) contact_key contact_set (contact_values r))
       contacts (\<lambda>t c. c\<lparr>contacts := t\<rparr>)"
  by (rule ext) (unfold transform_contacts_def table_transform_def CONTACTS_UPSERT_eta, rule refl)

lemma transform_toques_daily_table:
  "transform_toques_daily srv =
     table_transform (\<lambda>c. TOQUES_DAILY_SQL srv TENANT_ID APP_ID (raw_push_stats c))
       (\<lambda>r. insert_on_conflict (rejects_toque srv) toque_key toque_set (toque_proposed r))
       toques_daily (\<lambda>t c. c\<lparr>toques_daily := t\<rparr>)"
  by (rule ext) (unfold transform_toques_daily_def table_transform_def toques_daily_row_eta, rule refl)

lemma transform_heatmap_table:
  "transform_heatmap srv =
     table_transform (\<lambda>c. HEATMAP_SQL srv TENANT_ID (raw_push_stats c))
       (\<lambda>r. insert_on_conflict (rejects_cell srv) cell_key cell_set (cell_values r))
       toques_heatmap (\<lambda>t c. c\<lparr>toques_heatmap := t\<rparr>)"
  by (rule ext) (unfold transform_heatmap_def table_transform_def HEATMAP_UPSERT_eta, rule refl)

lemma transform_campaigns_table:
  "transform_campaigns srv =
     table_transform (\<lambda>c. CAMPAIGNS_SQL srv TENANT_ID APP_ID (raw_campaigns_api c))
       (\<lambda>r. insert_on_conflict (rejects_campaign srv) campaign_key campaign_set (campaign_proposed r))
       campaigns (\<lambda>t c. c\<lparr>campaigns := t\<rparr>)"
  by (rule ext) (unfold transform_campaigns_def table_transform_def campaigns_row_eta, rule refl)

lemma transform_daily_stats_table:
  "transform_daily_stats srv =
     table_transform (\<lambda>c. Inr (DAILY_STATS_SQL TENANT_ID (toques_daily c)))
       (\<lambda>r. insert_on_conflict (rejects_daily_stat srv) daily_stat_key daily_stat_set r)
       daily_stats (\<lambda>t c. c\<lparr>daily_stats := t\<rparr>)"
  by (rule ext) (simp add: transform_daily_stats_def table_transform_def DAILY_STATS_UPSERT_eta)


lemma main_turns:
  assumes "main srv now d = (d', results, code)"
  shows "\<exists>c1 c2 c3 c4 c5 C T H M D S1 S2 S3 S4 S5.
      results = [(''contacts'', c1), (''toques_daily'', c2), (''toques_heatmap'', c3),
                 (''campaigns'', c4), (''daily_stats'', c5)]
    \<and> d' = d\<lparr>contacts := C, toques_daily := T, toques_heatmap := H, campaigns := M,
              daily_stats := D, sync_state := S5\<rparr>
    \<and> code = (if c1 < 0 \<or> c2 < 0 \<or> c3 < 0 \<or> c4 < 0 \<or> c5 < 0 then 1 else 0)
    \<and> turn_outcome srv ''contacts'' (CONTACTS_SQL srv TENANT_ID (raw_contacts_api d))
          (rejects_contact srv) contact_values contact_key contact_set
          (contacts d) (sync_state d) c1 C S1
    \<and> turn_outcome srv ''toques_daily'' (TOQUES_DAILY_SQL srv TENANT_ID APP_ID (raw_push_stats d))
          (rejects_toque srv) toque_proposed toque_key toque_set
          (toques_daily d) S1 c2 T S2
    \<and> turn_outcome srv ''toques_heatmap'' (HEATMAP_SQL srv TENANT_ID (raw_push_stats d))
          (rejects_cell srv) cell_values cell_key cell_set
          (toques_heatmap d) S2 c3 H S3
    \<and> turn_outcome srv ''campaigns'' (CAMPAIGNS_SQL srv TENANT_ID APP_ID (raw_campaigns_api d))
          (rejects_campaign srv) campaign_proposed campaign_key campaign_set
          (campaigns d) S3 c4 M S4
    \<and> turn_outcome srv ''daily_stats'' (Inr (DAILY_STATS_SQL TENANT_ID T))
          (rejects_daily_stat srv) (\<lambda>r. r) daily_stat_key daily_stat_set
          (daily_stats d) S4 c5 D S5"
proof -
  obtain d1 t1 r1 where s1: "run_entity srv now ((d, 0), []) (''contacts'', transform_contacts srv)
      = ((d1, t1), r1)" by (metis prod.exhaust)
  obtain d2 t2 r2 where s2: "run_entity srv now ((d1, t1), r1) (''toques_daily'', transform_toques_daily srv)
      = ((d2, t2), r2)" by (metis prod.exhaust)
  obtain d3 t3 r3 where s3: "run_entity srv now ((d2, t2), r2) (''toques_heatmap'', transform_heatmap srv)
      = ((d3, t3), r3)" by (metis prod.exhaust)
  obtain d4 t4 r4 where s4: "run_entity srv now ((d3, t3), r3) (''campaigns'', transform_campaigns srv)
      = ((d4, t4), r4)" by (metis prod.exhaust)
  obtain d5 t5 r5 where s5: "run_entity srv now ((d4, t4), r4) (''daily_stats'', transform_daily_stats srv)
      = ((d5, t5), r5)" by (metis prod.exhaust)
  have run: "run_all srv now (TRANSFORMS srv) ((d, 0), []) = ((d5, t5), r5)"
    by (simp add: run_all_def TRANSFORMS_def s1 s2 s3 s4 s5)
  from assms have d': "d' = d5" and res: "results = r5"
    and code: "code = (if length (filter (\<lambda>(entity, v). v < 0) r5) = 0 then 0 else 1)"
    by (auto simp: main_def run Let_def)
  from turn_table[where put="\<lambda>t c. c\<lparr>contacts := t\<rparr>" and get=contacts and srv=srv and now=now
      and d=d and tick=0 and results="[]" and entity="''contacts''"
      and sql="\<lambda>c. CONTACTS_SQL srv TENANT_ID (raw_contacts_api c)" and rej="rejects_contact srv"
      and key=contact_key and upd=contact_set and vals=contact_values
      and d'=d1 and tick'=t1 and results'=r1] s1
  obtain c1 C S1 where a1: "r1 = AList.update ''contacts'' c1 []"
    and b1: "d1 = d\<lparr>contacts := C, sync_state := S1\<rparr>"
    and o1: "turn_outcome srv ''contacts'' (CONTACTS_SQL srv TENANT_ID (raw_contacts_api d))
          (rejects_contact srv) contact_values contact_key contact_set
          (contacts d) (sync_state d) c1 C S1"
    unfolding transform_contacts_table by auto
  from turn_table[where put="\<lambda>t c. c\<lparr>toques_daily := t\<rparr>" and get=toques_daily and srv=srv and now=now
      and d=d1 and tick=t1 and results=r1 and entity="''toques_daily''"
      and sql="\<lambda>c. TOQUES_DAILY_SQL srv TENANT_ID APP_ID (raw_push_stats c)" and rej="rejects_toque srv"
      and key=toque_key and upd=toque_set and vals=toque_proposed
      and d'=d2 and tick'=t2 and results'=r2] s2
  obtain c2 T S2 where a2: "r2 = AList.update ''toques_daily'' c2 r1"
    and b2: "d2 = d1\<lparr>toques_daily := T, sync_state := S2\<rparr>"
    and o2: "turn_outcome srv ''toques_daily'' (TOQUES_DAILY_SQL srv TENANT_ID APP_ID (raw_push_stats d1))
          (rejects_toque srv) toque_proposed toque_key toque_set
          (toques_daily d1) (sync_state d1) c2 T S2"
    unfolding transform_toques_daily_table by auto
  from turn_table[where put="\<lambda>t c. c\<lparr>toques_heatmap := t\<rparr>" and get=toques_heatmap and srv=srv and now=now
      and d=d2 and tick=t2 and results=r2 and entity="''toques_heatmap''"
      and sql="\<lambda>c. HEATMAP_SQL srv TENANT_ID (raw_push_stats c)" and rej="rejects_cell srv"
      and key=cell_key and upd=cell_set and vals=cell_values
      and d'=d3 and tick'=t3 and results'=r3] s3
  obtain c3 H S3 where a3: "r3 = AList.update ''toques_heatmap'' c3 r2"
    and b3: "d3 = d2\<lparr>toques_heatmap := H, sync_state := S3\<rparr>"
    and o3: "turn_outcome srv ''toques_heatmap'' (HEATMAP_SQL srv TENANT_ID (raw_push_stats d2))
          (rejects_cell srv) cell_values cell_key cell_set
          (toques_heatmap d2) (sync_state d2) c3 H S3"
    unfolding transform_heatmap_table by auto
  from turn_table[where put="\<lambda>t c. c\<lparr>campaigns := t\<rparr>" and get=campaigns and srv=srv and now=now
      and d=d3 and tick=t3 and results=r3 and entity="''campaigns''"
      and sql="\<lambda>c. CAMPAIGNS_SQL srv TENANT_ID APP_ID (raw_campaigns_api c)" and rej="rejects_campaign srv"
      and key=campaign_key and upd=campaign_set and vals=campaign_proposed
      and d'=d4 and tick'=t4 and results'=r4] s4
  obtain c4 M S4 where a4: "r4 = AList.update ''campaigns'' c4 r3"
    and b4: "d4 = d3\<lparr>campaigns := M, sync_state := S4\<rparr>"
    and o4: "turn_outcome srv ''campaigns'' (CAMPAIGNS_SQL srv TENANT_ID APP_ID (raw_campaigns_api d3))
          (rejects_campaign srv) campaign_proposed campaign_key campaign_set
          (campaigns d3) (sync_state d3) c4 M S4"
    unfolding transform_campaigns_table by auto
  from turn_table[where put="\<lambda>t c. c\<lparr>daily_stats := t\<rparr>" and get=daily_stats and srv=srv and now=now
      and d=d4 and tick=t4 and results=r4 and entity="''daily_stats''"
      and sql="\<lambda>c. Inr (DAILY_STATS_SQL TENANT_ID (toques_daily c))" and rej="rejects_daily_stat srv"
      and key=daily_stat_key and upd=daily_stat_set and vals="\<lambda>r. r"
      and d'=d5 and tick'=t5 and results'=r5] s5
  obtain c5 D S5 where a5: "r5 = AList.update ''daily_stats'' c5 r4"
    and b5: "d5 = d4\<lparr>daily_stats := D, sync_state := S5\<rparr>"
    and o5: "turn_outcome srv ''daily_stats'' (Inr (DAILY_STATS_SQL TENANT_ID (toques_daily d4)))
          (rejects_daily_stat srv) (\<lambda>r. r) daily_stat_key daily_stat_set
          (daily_stats d4) (sync_state d4) c5 D S5"
    unfolding transform_daily_stats_table by auto
  have R: "results = [(''contacts'', c1), (''toques_daily'', c2), (''toques_heatmap'', c3),
                 (''campaigns'', c4), (''daily_stats'', c5)]"
    unfolding res a5 a4 a3 a2 a1 by simp
  have Dd: "d' = d\<lparr>contacts := C, toques_daily := T, toques_heatmap := H, campaigns := M,
              daily_stats := D, sync_state := S5\<rparr>"
    unfolding d' b5 b4 b3 b2 b1 by simp
  have Cc: "code = (if c1 < 0 \<or> c2 < 0 \<or> c3 < 0 \<or> c4 < 0 \<or> c5 < 0 then 1 else 0)"
    unfolding code R[unfolded res] by auto
  have o2': "turn_outcome srv ''toques_daily'' (TOQUES_DAILY_SQL srv TENANT_ID APP_ID (raw_push_stats d))
          (rejects_toque srv) toque_proposed toque_key toque_set (toques_daily d) S1 c2 T S2"
    using o2 unfolding b1 by simp
  have o3': "turn_outcome srv ''toques_heatmap'' (HEATMAP_SQL srv TENANT_ID (raw_push_stats d))
          (rejects_cell srv) cell_values cell_key cell_set (toques_heatmap d) S2 c3 H S3"
    using o3 unfolding b2 b1 by simp
  have o4': "turn_outcome srv ''campaigns'' (CAMPAIGNS_SQL srv TENANT_ID APP_ID (raw_campaigns_api d))
          (rejects_campaign srv) campaign_proposed campaign_key campaign_set (campaigns d) S3 c4 M S4"
    using o4 unfolding b3 b2 b1 by simp
  have o5': "turn_outcome srv ''daily_stats'' (Inr (DAILY_STATS_SQL TENANT_ID T))
          (rejects_daily_stat srv) (\<lambda>r. r) daily_stat_key daily_stat_set (daily_stats d) S4 c5 D S5"
    using o5 unfolding b4 b3 b2 b1 by simp
  from R Dd Cc o1 o2' o3' o4' o5' show ?thesis by blast
qed

subsection \<open>sync\_state along a run of main\<close>

text \<open>
  Every turn of the loop of \<^verbatim>\<open>main\<close> ends with one call of
  \<^verbatim>\<open>update_sync_state\<close>: with the count after a success, with the error text after a
  failure, and in that second case inside a \<^verbatim>\<open>try\<close> whose \<^verbatim>\<open>except\<close> is
  \<^verbatim>\<open>pass\<close>. The lemmas below follow the table \<^verbatim>\<open>sync_state\<close> through the five
  turns.
\<close>

lemma success_row_key [simp]: "sync_key (success_row ts entity c) = (TENANT_ID, entity)"
  by (simp add: sync_key_def success_row_def)

lemma error_row_key [simp]: "sync_key (error_row ts entity exc) = (TENANT_ID, entity)"
  by (simp add: sync_key_def error_row_def)

lemma turn_sync:
  assumes "turn_outcome srv entity sel rej vals key upd tbl0 S0 c tbl S"
  shows "(S = S0 \<and> c = - 1 \<and> (\<exists>ts exc. rejects_sync_row srv (error_row ts entity exc) \<noteq> None))
       \<or> (\<exists>x. S = upserted sync_key sync_set x S0 \<and> sync_key x = (TENANT_ID, entity)
              \<and> rejects_sync_row srv x = None
              \<and> ((\<exists>ts. x = success_row ts entity c \<and> 0 \<le> c)
                  \<or> (c = - 1 \<and> (\<exists>ts exc. x = error_row ts entity exc))))"
proof -
  from assms have "(c = - 1 \<and> tbl = tbl0
        \<and> ((S = S0 \<and> (\<exists>ts exc. rejects_sync_row srv (error_row ts entity exc) \<noteq> None))
            \<or> (\<exists>ts exc. rejects_sync_row srv (error_row ts entity exc) = None
                  \<and> S = upserted sync_key sync_set (error_row ts entity exc) S0)))
       \<or> (\<exists>rows ts. sel = Inr rows \<and> (\<forall>r\<in>set rows. rej (vals r) = None)
              \<and> c = int (length rows)
              \<and> tbl = upsert_all key upd (map vals rows) tbl0
              \<and> rejects_sync_row srv (success_row ts entity c) = None
              \<and> S = upserted sync_key sync_set (success_row ts entity c) S0)"
    unfolding turn_outcome_def by (rule conjunct1)
  then show ?thesis
  proof
    assume f: "c = - 1 \<and> tbl = tbl0
        \<and> ((S = S0 \<and> (\<exists>ts exc. rejects_sync_row srv (error_row ts entity exc) \<noteq> None))
            \<or> (\<exists>ts exc. rejects_sync_row srv (error_row ts entity exc) = None
                  \<and> S = upserted sync_key sync_set (error_row ts entity exc) S0))"
    then have c: "c = - 1" by blast
    from f have "(S = S0 \<and> (\<exists>ts exc. rejects_sync_row srv (error_row ts entity exc) \<noteq> None))
            \<or> (\<exists>ts exc. rejects_sync_row srv (error_row ts entity exc) = None
                  \<and> S = upserted sync_key sync_set (error_row ts entity exc) S0)" by blast
    then show ?thesis
    proof
      assume "S = S0 \<and> (\<exists>ts exc. rejects_sync_row srv (error_row ts entity exc) \<noteq> None)"
      with c show ?thesis by blast
    next
      assume "\<exists>ts exc. rejects_sync_row srv (error_row ts entity exc) = None
                  \<and> S = upserted sync_key sync_set (error_row ts entity exc) S0"
      then obtain ts exc where a: "rejects_sync_row srv (error_row ts entity exc) = None"
        and s: "S = upserted sync_key sync_set (error_row ts entity exc) S0" by blast
      have "S = upserted sync_key sync_set (error_row ts entity exc) S0
        \<and> sync_key (error_row ts entity exc) = (TENANT_ID, entity)
        \<and> rejects_sync_row srv (error_row ts entity exc) = None
        \<and> ((\<exists>ts'. error_row ts entity exc = success_row ts' entity c \<and> 0 \<le> c)
            \<or> (c = - 1 \<and> (\<exists>ts' exc'. error_row ts entity exc = error_row ts' entity exc')))"
        using c a s by auto
      then show ?thesis by blast
    qed
  next
    assume "\<exists>rows ts. sel = Inr rows \<and> (\<forall>r\<in>set rows. rej (vals r) = None)
              \<and> c = int (length rows)
              \<and> tbl = upsert_all key upd (map vals rows) tbl0
              \<and> rejects_sync_row srv (success_row ts entity c) = None
              \<and> S = upserted sync_key sync_set (success_row ts entity c) S0"
    then obtain ts where c: "0 \<le> c"
      and a: "rejects_sync_row srv (success_row ts entity c) = None"
      and s: "S = upserted sync_key sync_set (success_row ts entity c) S0" by auto
    have "S = upserted sync_key sync_set (success_row ts entity c) S0
        \<and> sync_key (success_row ts entity c) = (TENANT_ID, entity)
        \<and> rejects_sync_row srv (success_row ts entity c) = None
        \<and> ((\<exists>ts'. success_row ts entity c = success_row ts' entity c \<and> 0 \<le> c)
            \<or> (c = - 1 \<and> (\<exists>ts' exc'. success_row ts entity c = error_row ts' entity exc')))"
      using c a s by auto
    then show ?thesis by blast
  qed
qed

lemma sync_step_props:
  assumes "S = S0 \<or> (\<exists>x. sync_key x = k0 \<and> S = upserted sync_key sync_set x S0)"
  shows "(distinct (map sync_key S0) \<longrightarrow> distinct (map sync_key S))
       \<and> sync_key ` set S0 \<subseteq> sync_key ` set S
       \<and> sync_key ` set S \<subseteq> insert k0 (sync_key ` set S0)
       \<and> length S0 \<le> length S
       \<and> (\<forall>k. k \<noteq> k0 \<longrightarrow> filter (\<lambda>r. sync_key r = k) S = filter (\<lambda>r. sync_key r = k) S0)"
  using assms
proof
  assume "S = S0"
  then show ?thesis by auto
next
  assume "\<exists>x. sync_key x = k0 \<and> S = upserted sync_key sync_set x S0"
  then obtain x where k: "sync_key x = k0" and S: "S = upserted sync_key sync_set x S0" by blast
  have a: "distinct (map sync_key S0) \<longrightarrow> distinct (map sync_key S)"
    unfolding S using upserted_distinct[of sync_key sync_set S0 x, OF sync_set_key] by blast
  have ks: "sync_key ` set S = insert k0 (sync_key ` set S0)"
    unfolding S k[symmetric] by (rule upserted_key_set[of sync_key sync_set, OF sync_set_key])
  have l: "length S0 \<le> length S" unfolding S by (simp add: upserted_eq)
  have o: "\<forall>k. k \<noteq> k0 \<longrightarrow> filter (\<lambda>r. sync_key r = k) S = filter (\<lambda>r. sync_key r = k) S0"
    unfolding S k[symmetric]
    using upserted_other[of sync_key sync_set _ x S0, OF sync_set_key] by blast
  from a ks l o show ?thesis by auto
qed

lemma turn_rows:
  assumes step: "(S = S0 \<and> c = - 1 \<and> (\<exists>ts exc. rejects_sync_row srv (error_row ts entity exc) \<noteq> None))
       \<or> (\<exists>x. S = upserted sync_key sync_set x S0 \<and> sync_key x = (TENANT_ID, entity)
              \<and> rejects_sync_row srv x = None
              \<and> ((\<exists>ts. x = success_row ts entity c \<and> 0 \<le> c)
                  \<or> (c = - 1 \<and> (\<exists>ts exc. x = error_row ts entity exc))))"
      and dist: "distinct (map sync_key S0)"
      and before: "filter (\<lambda>r. sync_key r = (TENANT_ID, entity)) S0 = sync_rows d entity"
      and after: "sync_rows d' entity = filter (\<lambda>r. sync_key r = (TENANT_ID, entity)) S"
  shows "(sync_rows d' entity = sync_rows d entity \<and> c = - 1
          \<and> (\<exists>ts exc. rejects_sync_row srv (error_row ts entity exc) \<noteq> None))
       \<or> (\<exists>x r. sync_rows d' entity = [r] \<and> sync_key r = (TENANT_ID, entity)
              \<and> ss_last_sync_at r = ss_last_sync_at x
              \<and> ss_records_synced r = ss_records_synced x
              \<and> ss_status r = ss_status x
              \<and> rejects_sync_row srv x = None
              \<and> ((\<exists>ts. x = success_row ts entity c \<and> 0 \<le> c)
                  \<or> (c = - 1 \<and> (\<exists>ts exc. x = error_row ts entity exc))))"
proof (rule disjE[OF step])
  assume "S = S0 \<and> c = - 1 \<and> (\<exists>ts exc. rejects_sync_row srv (error_row ts entity exc) \<noteq> None)"
  then show ?thesis using before after by auto
next
  assume "\<exists>x. S = upserted sync_key sync_set x S0 \<and> sync_key x = (TENANT_ID, entity)
              \<and> rejects_sync_row srv x = None
              \<and> ((\<exists>ts. x = success_row ts entity c \<and> 0 \<le> c)
                  \<or> (c = - 1 \<and> (\<exists>ts exc. x = error_row ts entity exc)))"
  then obtain x where S: "S = upserted sync_key sync_set x S0" and k: "sync_key x = (TENANT_ID, entity)"
    and a: "rejects_sync_row srv x = None"
    and w: "(\<exists>ts. x = success_row ts entity c \<and> 0 \<le> c)
                  \<or> (c = - 1 \<and> (\<exists>ts exc. x = error_row ts entity exc))" by blast
  from upserted_sync_hit[OF dist, of x] obtain r where
    f: "filter (\<lambda>r. sync_key r = sync_key x) (upserted sync_key sync_set x S0) = [r]"
    and r: "ss_last_sync_at r = ss_last_sync_at x" "ss_records_synced r = ss_records_synced x"
       "ss_status r = ss_status x" by blast
  from f have rows: "sync_rows d' entity = [r]" unfolding after S k .
  have "r \<in> set (filter (\<lambda>r. sync_key r = sync_key x) (upserted sync_key sync_set x S0))"
    unfolding f by simp
  then have kr: "sync_key r = (TENANT_ID, entity)" unfolding k by simp
  from rows kr r a w show ?thesis by blast
qed


lemma main_sync_chain:
  assumes m: "main srv now d = (d', results, code)"
      and d0: "distinct (map sync_key (sync_state d))"
  shows "\<exists>c1 c2 c3 c4 c5.
      results = [(''contacts'', c1), (''toques_daily'', c2), (''toques_heatmap'', c3),
                 (''campaigns'', c4), (''daily_stats'', c5)]
    \<and> distinct (map sync_key (sync_state d'))
    \<and> sync_key ` set (sync_state d) \<subseteq> sync_key ` set (sync_state d')
    \<and> length (sync_state d) \<le> length (sync_state d')
    \<and> (\<forall>k. k \<noteq> (TENANT_ID, ''contacts'') \<and> k \<noteq> (TENANT_ID, ''toques_daily'')
            \<and> k \<noteq> (TENANT_ID, ''toques_heatmap'') \<and> k \<noteq> (TENANT_ID, ''campaigns'')
            \<and> k \<noteq> (TENANT_ID, ''daily_stats'') \<longrightarrow>
            filter (\<lambda>r. sync_key r = k) (sync_state d') = filter (\<lambda>r. sync_key r = k) (sync_state d))
    \<and> (\<forall>(entity, c)\<in>set results.
          (sync_rows d' entity = sync_rows d entity \<and> c = - 1
            \<and> (\<exists>ts exc. rejects_sync_row srv (error_row ts entity exc) \<noteq> None))
        \<or> (\<exists>x r. sync_rows d' entity = [r] \<and> sync_key r = (TENANT_ID, entity)
              \<and> ss_last_sync_at r = ss_last_sync_at x
              \<and> ss_records_synced r = ss_records_synced x
              \<and> ss_status r = ss_status x
              \<and> rejects_sync_row srv x = None
              \<and> ((\<exists>ts. x = success_row ts entity c \<and> 0 \<le> c)
                  \<or> (c = - 1 \<and> (\<exists>ts exc. x = error_row ts entity exc)))))"
proof -
  from main_turns[OF m] obtain c1 c2 c3 c4 c5 C T H M D S1 S2 S3 S4 S5 where
    R: "results = [(''contacts'', c1), (''toques_daily'', c2), (''toques_heatmap'', c3),
                 (''campaigns'', c4), (''daily_stats'', c5)]"
    and Dd: "d' = d\<lparr>contacts := C, toques_daily := T, toques_heatmap := H, campaigns := M,
              daily_stats := D, sync_state := S5\<rparr>"
    and o1: "turn_outcome srv ''contacts'' (CONTACTS_SQL srv TENANT_ID (raw_contacts_api d))
          (rejects_contact srv) contact_values contact_key contact_set
          (contacts d) (sync_state d) c1 C S1"
    and o2: "turn_outcome srv ''toques_daily'' (TOQUES_DAILY_SQL srv TENANT_ID APP_ID (raw_push_stats d))
          (rejects_toque srv) toque_proposed toque_key toque_set (toques_daily d) S1 c2 T S2"
    and o3: "turn_outcome srv ''toques_heatmap'' (HEATMAP_SQL srv TENANT_ID (raw_push_stats d))
          (rejects_cell srv) cell_values cell_key cell_set (toques_heatmap d) S2 c3 H S3"
    and o4: "turn_outcome srv ''campaigns'' (CAMPAIGNS_SQL srv TENANT_ID APP_ID (raw_campaigns_api d))
          (rejects_campaign srv) campaign_proposed campaign_key campaign_set (campaigns d) S3 c4 M S4"
    and o5: "turn_outcome srv ''daily_stats'' (Inr (DAILY_STATS_SQL TENANT_ID T))
          (rejects_daily_stat srv) (\<lambda>r. r) daily_stat_key daily_stat_set (daily_stats d) S4 c5 D S5"
    by blast
  define S0 where "S0 = sync_state d"
  have S': "sync_state d' = S5" by (simp add: Dd)
  note t1 = turn_sync[OF o1, folded S0_def]
  note t2 = turn_sync[OF o2]
  note t3 = turn_sync[OF o3]
  note t4 = turn_sync[OF o4]
  note t5 = turn_sync[OF o5]
  have w1: "S1 = S0 \<or> (\<exists>x. sync_key x = (TENANT_ID, ''contacts'') \<and> S1 = upserted sync_key sync_set x S0)"
    using t1 by blast
  have w2: "S2 = S1 \<or> (\<exists>x. sync_key x = (TENANT_ID, ''toques_daily'') \<and> S2 = upserted sync_key sync_set x S1)"
    using t2 by blast
  have w3: "S3 = S2 \<or> (\<exists>x. sync_key x = (TENANT_ID, ''toques_heatmap'') \<and> S3 = upserted sync_key sync_set x S2)"
    using t3 by blast
  have w4: "S4 = S3 \<or> (\<exists>x. sync_key x = (TENANT_ID, ''campaigns'') \<and> S4 = upserted sync_key sync_set x S3)"
    using t4 by blast
  have w5: "S5 = S4 \<or> (\<exists>x. sync_key x = (TENANT_ID, ''daily_stats'') \<and> S5 = upserted sync_key sync_set x S4)"
    using t5 by blast
  note p1 = sync_step_props[OF w1]
  note p2 = sync_step_props[OF w2]
  note p3 = sync_step_props[OF w3]
  note p4 = sync_step_props[OF w4]
  note p5 = sync_step_props[OF w5]
  have e0: "distinct (map sync_key S0)" using d0 by (simp add: S0_def)
  from p1 e0 have e1: "distinct (map sync_key S1)" by blast
  from p2 e1 have e2: "distinct (map sync_key S2)" by blast
  from p3 e2 have e3: "distinct (map sync_key S3)" by blast
  from p4 e3 have e4: "distinct (map sync_key S4)" by blast
  from p5 e4 have e5: "distinct (map sync_key S5)" by blast
  have ks: "sync_key ` set S0 \<subseteq> sync_key ` set S5"
  proof -
    from p1 have "sync_key ` set S0 \<subseteq> sync_key ` set S1" by blast
    also from p2 have "\<dots> \<subseteq> sync_key ` set S2" by blast
    also from p3 have "\<dots> \<subseteq> sync_key ` set S3" by blast
    also from p4 have "\<dots> \<subseteq> sync_key ` set S4" by blast
    also from p5 have "\<dots> \<subseteq> sync_key ` set S5" by blast
    finally show ?thesis .
  qed
  have ln: "length S0 \<le> length S5"
  proof -
    from p1 have "length S0 \<le> length S1" by blast
    also from p2 have "\<dots> \<le> length S2" by blast
    also from p3 have "\<dots> \<le> length S3" by blast
    also from p4 have "\<dots> \<le> length S4" by blast
    also from p5 have "\<dots> \<le> length S5" by blast
    finally show ?thesis .
  qed
  from p1 have f1: "\<And>k. k \<noteq> (TENANT_ID, ''contacts'') \<Longrightarrow>
      filter (\<lambda>r. sync_key r = k) S1 = filter (\<lambda>r. sync_key r = k) S0" by blast
  from p2 have f2: "\<And>k. k \<noteq> (TENANT_ID, ''toques_daily'') \<Longrightarrow>
      filter (\<lambda>r. sync_key r = k) S2 = filter (\<lambda>r. sync_key r = k) S1" by blast
  from p3 have f3: "\<And>k. k \<noteq> (TENANT_ID, ''toques_heatmap'') \<Longrightarrow>
      filter (\<lambda>r. sync_key r = k) S3 = filter (\<lambda>r. sync_key r = k) S2" by blast
  from p4 have f4: "\<And>k. k \<noteq> (TENANT_ID, ''campaigns'') \<Longrightarrow>
      filter (\<lambda>r. sync_key r = k) S4 = filter (\<lambda>r. sync_key r = k) S3" by blast
  from p5 have f5: "\<And>k. k \<noteq> (TENANT_ID, ''daily_stats'') \<Longrightarrow>
      filter (\<lambda>r. sync_key r = k) S5 = filter (\<lambda>r. sync_key r = k) S4" by blast
  have oth: "\<forall>k. k \<noteq> (TENANT_ID, ''contacts'') \<and> k \<noteq> (TENANT_ID, ''toques_daily'')
            \<and> k \<noteq> (TENANT_ID, ''toques_heatmap'') \<and> k \<noteq> (TENANT_ID, ''campaigns'')
            \<and> k \<noteq> (TENANT_ID, ''daily_stats'') \<longrightarrow>
            filter (\<lambda>r. sync_key r = k) S5 = filter (\<lambda>r. sync_key r = k) S0"
    by (simp add: f1 f2 f3 f4 f5)
  have b1: "filter (\<lambda>r. sync_key r = (TENANT_ID, ''contacts'')) S0 = sync_rows d ''contacts''"
    by (simp add: sync_rows_def S0_def)
  have a1: "sync_rows d' ''contacts'' = filter (\<lambda>r. sync_key r = (TENANT_ID, ''contacts'')) S1"
    by (simp add: sync_rows_def S' f2 f3 f4 f5)
  have b2: "filter (\<lambda>r. sync_key r = (TENANT_ID, ''toques_daily'')) S1 = sync_rows d ''toques_daily''"
    by (simp add: sync_rows_def S0_def f1)
  have a2: "sync_rows d' ''toques_daily'' = filter (\<lambda>r. sync_key r = (TENANT_ID, ''toques_daily'')) S2"
    by (simp add: sync_rows_def S' f3 f4 f5)
  have b3: "filter (\<lambda>r. sync_key r = (TENANT_ID, ''toques_heatmap'')) S2 = sync_rows d ''toques_heatmap''"
    by (simp add: sync_rows_def S0_def f1 f2)
  have a3: "sync_rows d' ''toques_heatmap'' = filter (\<lambda>r. sync_key r = (TENANT_ID, ''toques_heatmap'')) S3"
    by (simp add: sync_rows_def S' f4 f5)
  have b4: "filter (\<lambda>r. sync_key r = (TENANT_ID, ''campaigns'')) S3 = sync_rows d ''campaigns''"
    by (simp add: sync_rows_def S0_def f1 f2 f3)
  have a4: "sync_rows d' ''campaigns'' = filter (\<lambda>r. sync_key r = (TENANT_ID, ''campaigns'')) S4"
    by (simp add: sync_rows_def S' f5)
  have b5: "filter (\<lambda>r. sync_key r = (TENANT_ID, ''daily_stats'')) S4 = sync_rows d ''daily_stats''"
    by (simp add: sync_rows_def S0_def f1 f2 f3 f4)
  have a5: "sync_rows d' ''daily_stats'' = filter (\<lambda>r. sync_key r = (TENANT_ID, ''daily_stats'')) S5"
    by (simp add: sync_rows_def S')
  note q1 = turn_rows[OF t1 e0 b1 a1]
  note q2 = turn_rows[OF t2 e1 b2 a2]
  note q3 = turn_rows[OF t3 e2 b3 a3]
  note q4 = turn_rows[OF t4 e3 b4 a4]
  note q5 = turn_rows[OF t5 e4 b5 a5]
  have Q: "\<forall>(entity, c)\<in>set results.
          (sync_rows d' entity = sync_rows d entity \<and> c = - 1
            \<and> (\<exists>ts exc. rejects_sync_row srv (error_row ts entity exc) \<noteq> None))
        \<or> (\<exists>x r. sync_rows d' entity = [r] \<and> sync_key r = (TENANT_ID, entity)
              \<and> ss_last_sync_at r = ss_last_sync_at x
              \<and> ss_records_synced r = ss_records_synced x
              \<and> ss_status r = ss_status x
              \<and> rejects_sync_row srv x = None
              \<and> ((\<exists>ts. x = success_row ts entity c \<and> 0 \<le> c)
                  \<or> (c = - 1 \<and> (\<exists>ts exc. x = error_row ts entity exc))))"
    unfolding R using q1 q2 q3 q4 q5 by simp
  from R e5 ks ln oth Q show ?thesis unfolding S' S0_def[symmetric] by blast
qed


text \<open>
  Claim C8, as the code has it. A run of \<^verbatim>\<open>main\<close> makes one attempt for each of the five
  entities, in the order of \<^verbatim>\<open>TRANSFORMS\<close>. The table \<^verbatim>\<open>sync_state\<close> keeps at most
  one row for each pair (tenant, entity), no row is ever deleted, and the rows of every other pair
  are left as they were. For each attempt, either the row of (tenant, entity) is the one row
  written by that attempt: created when there was none, overwritten in its time, its count and
  its status otherwise, with the values of a success row or of an error row that the table
  accepts; or the attempt failed, the table refused the error row, \<^verbatim>\<open>main\<close> swallowed that
  second failure, and the rows of (tenant, entity) are those of before the run: none, when
  the attempt was the first one. The last conjunct is the statement of
  \<^verbatim>\<open>update_sync_state\<close> itself: whenever it returns, it has inserted the row or has
  overwritten the three columns of the one row that had the key, and has touched nothing else.
\<close>

theorem sync_state_keyed_upsert:
  assumes "main srv now d = (d', results, code)"
      and "distinct (map sync_key (sync_state d))"
  shows "map fst results = [''contacts'', ''toques_daily'', ''toques_heatmap'', ''campaigns'', ''daily_stats'']
    \<and> distinct (map sync_key (sync_state d'))
    \<and> sync_key ` set (sync_state d) \<subseteq> sync_key ` set (sync_state d')
    \<and> length (sync_state d) \<le> length (sync_state d')
    \<and> (\<forall>k. k \<notin> (\<lambda>entity. (TENANT_ID, entity)) ` fst ` set results \<longrightarrow>
            filter (\<lambda>r. sync_key r = k) (sync_state d') = filter (\<lambda>r. sync_key r = k) (sync_state d))
    \<and> (\<forall>(entity, c)\<in>set results.
          (sync_rows d' entity = sync_rows d entity \<and> c = - 1
            \<and> (\<exists>ts exc. rejects_sync_row srv (error_row ts entity exc) \<noteq> None))
        \<or> (\<exists>x r. sync_rows d' entity = [r] \<and> sync_key r = (TENANT_ID, entity)
              \<and> ss_last_sync_at r = ss_last_sync_at x
              \<and> ss_records_synced r = ss_records_synced x
              \<and> ss_status r = ss_status x
              \<and> rejects_sync_row srv x = None
              \<and> ((\<exists>ts. x = success_row ts entity c \<and> 0 \<le> c)
                  \<or> (c = - 1 \<and> (\<exists>ts exc. x = error_row ts entity exc)))))
    \<and> (distinct (map sync_key (sync_state conn))
         \<and> update_sync_state srv ts entity records status conn = Inr conn' \<longrightarrow>
           distinct (map sync_key (sync_state conn'))
         \<and> sync_key ` set (sync_state conn') = insert (TENANT_ID, entity) (sync_key ` set (sync_state conn))
         \<and> (\<exists>r. filter (\<lambda>r. sync_key r = (TENANT_ID, entity)) (sync_state conn') = [r]
               \<and> ss_last_sync_at r = ts \<and> ss_records_synced r = records \<and> ss_status r = status)
         \<and> filter (\<lambda>r. sync_key r \<noteq> (TENANT_ID, entity)) (sync_state conn')
             = filter (\<lambda>r. sync_key r \<noteq> (TENANT_ID, entity)) (sync_state conn)
         \<and> length (sync_state conn') =
             (if (TENANT_ID, entity) \<in> sync_key ` set (sync_state conn)
              then length (sync_state conn) else Suc (length (sync_state conn)))
         \<and> conn'\<lparr>sync_state := sync_state conn\<rparr> = conn)"
proof -
  from main_sync_chain[OF assms] obtain c1 c2 c3 c4 c5 where
    R: "results = [(''contacts'', c1), (''toques_daily'', c2), (''toques_heatmap'', c3),
                 (''campaigns'', c4), (''daily_stats'', c5)]"
    and a: "distinct (map sync_key (sync_state d'))"
    and b: "sync_key ` set (sync_state d) \<subseteq> sync_key ` set (sync_state d')"
    and c: "length (sync_state d) \<le> length (sync_state d')"
    and o: "\<forall>k. k \<noteq> (TENANT_ID, ''contacts'') \<and> k \<noteq> (TENANT_ID, ''toques_daily'')
            \<and> k \<noteq> (TENANT_ID, ''toques_heatmap'') \<and> k \<noteq> (TENANT_ID, ''campaigns'')
            \<and> k \<noteq> (TENANT_ID, ''daily_stats'') \<longrightarrow>
            filter (\<lambda>r. sync_key r = k) (sync_state d') = filter (\<lambda>r. sync_key r = k) (sync_state d)"
    and q: "\<forall>(entity, c)\<in>set results.
          (sync_rows d' entity = sync_rows d entity \<and> c = - 1
            \<and> (\<exists>ts exc. rejects_sync_row srv (error_row ts entity exc) \<noteq> None))
        \<or> (\<exists>x r. sync_rows d' entity = [r] \<and> sync_key r = (TENANT_ID, entity)
              \<and> ss_last_sync_at r = ss_last_sync_at x
              \<and> ss_records_synced r = ss_records_synced x
              \<and> ss_status r = ss_status x
              \<and> rejects_sync_row srv x = None
              \<and> ((\<exists>ts. x = success_row ts entity c \<and> 0 \<le> c)
                  \<or> (c = - 1 \<and> (\<exists>ts exc. x = error_row ts entity exc))))"
    by (elim exE conjE)
  have n: "map fst results = [''contacts'', ''toques_daily'', ''toques_heatmap'', ''campaigns'', ''daily_stats'']"
    unfolding R by simp
  have o': "\<forall>k. k \<notin> (\<lambda>entity. (TENANT_ID, entity)) ` fst ` set results \<longrightarrow>
            filter (\<lambda>r. sync_key r = k) (sync_state d') = filter (\<lambda>r. sync_key r = k) (sync_state d)"
  proof (intro allI impI)
    fix k assume "k \<notin> (\<lambda>entity. (TENANT_ID, entity)) ` fst ` set results"
    then have "k \<noteq> (TENANT_ID, ''contacts'') \<and> k \<noteq> (TENANT_ID, ''toques_daily'')
            \<and> k \<noteq> (TENANT_ID, ''toques_heatmap'') \<and> k \<noteq> (TENANT_ID, ''campaigns'')
            \<and> k \<noteq> (TENANT_ID, ''daily_stats'')" unfolding R by auto
    with o show "filter (\<lambda>r. sync_key r = k) (sync_state d') = filter (\<lambda>r. sync_key r = k) (sync_state d)"
      by blast
  qed
  have u: "distinct (map sync_key (sync_state conn))
         \<and> update_sync_state srv ts entity records status conn = Inr conn' \<longrightarrow>
           distinct (map sync_key (sync_state conn'))
         \<and> sync_key ` set (sync_state conn') = insert (TENANT_ID, entity) (sync_key ` set (sync_state conn))
         \<and> (\<exists>r. filter (\<lambda>r. sync_key r = (TENANT_ID, entity)) (sync_state conn') = [r]
               \<and> ss_last_sync_at r = ts \<and> ss_records_synced r = records \<and> ss_status r = status)
         \<and> filter (\<lambda>r. sync_key r \<noteq> (TENANT_ID, entity)) (sync_state conn')
             = filter (\<lambda>r. sync_key r \<noteq> (TENANT_ID, entity)) (sync_state conn)
         \<and> length (sync_state conn') =
             (if (TENANT_ID, entity) \<in> sync_key ` set (sync_state conn)
              then length (sync_state conn) else Suc (length (sync_state conn)))
         \<and> conn'\<lparr>sync_state := sync_state conn\<rparr> = conn"
    using update_sync_state_upsert[of conn srv ts entity records status conn'] by blast
  show ?thesis by (intro conjI) (rule n, rule a, rule b, rule c, rule o', rule q, rule u)
qed

text \<open>
  The first attempt for (visionamos, contacts) does not create the row: the transform fails, the
  error text is longer than the column \<^verbatim>\<open>status\<close> of this server allows, the second
  \<^verbatim>\<open>update_sync_state\<close> fails too and \<^verbatim>\<open>main\<close> goes on to the next entity.
\<close>

theorem sync_state_keyed_upsert_counterexample:
  "sync_state (bad_contacts_db\<lparr>sync_state := []\<rparr>) = []
   \<and> fst (snd (main narrow_server example_now (bad_contacts_db\<lparr>sync_state := []\<rparr>)))
       = [(''contacts'', - 1), (''toques_daily'', 0), (''toques_heatmap'', 0), (''campaigns'', 0),
          (''daily_stats'', 0)]
   \<and> sync_rows (fst (main narrow_server example_now (bad_contacts_db\<lparr>sync_state := []\<rparr>))) ''contacts''
       = []
   \<and> map ss_entity (sync_state (fst (main narrow_server example_now (bad_contacts_db\<lparr>sync_state := []\<rparr>))))
       = [''toques_daily'', ''toques_heatmap'', ''campaigns'', ''daily_stats'']"
  by code_simp

text \<open>
  A run over a table that already holds the row of (visionamos, contacts): the row is
  overwritten, the four others are created, and the keys stay distinct.
\<close>

theorem sync_state_keyed_upsert_witness:
  "sync_rows ((run_db (JNum 10))\<lparr>sync_state := [example_sync_row]\<rparr>) ''contacts'' = [example_sync_row]
   \<and> sync_rows (fst (main example_server example_now ((run_db (JNum 10))\<lparr>sync_state := [example_sync_row]\<rparr>)))
        ''contacts''
       = [success_row 100 ''contacts'' 1]
   \<and> sync_rows (fst (main example_server example_now ((run_db (JNum 10))\<lparr>sync_state := [example_sync_row]\<rparr>)))
        ''campaigns''
       = [success_row 103 ''campaigns'' 1]
   \<and> distinct (map sync_key
        (sync_state (fst (main example_server example_now ((run_db (JNum 10))\<lparr>sync_state := [example_sync_row]\<rparr>)))))
   \<and> length (sync_state (fst (main example_server example_now ((run_db (JNum 10))\<lparr>sync_state := [example_sync_row]\<rparr>))))
       = 5"
proof -
  let ?d = "(run_db (JNum 10))\<lparr>sync_state := [example_sync_row]\<rparr>"
  let ?m = "main example_server example_now ?d"
  have h1: "?m = (fst ?m, fst (snd ?m), snd (snd ?m))" by simp
  have h2: "distinct (map sync_key (sync_state ?d))" by simp
  note g = sync_state_keyed_upsert[OF h1 h2]
  have a: "distinct (map sync_key (sync_state (fst ?m)))"
    by (rule g[THEN conjunct2, THEN conjunct1])
  have b: "sync_rows ?d ''contacts'' = [example_sync_row]" by code_simp
  have c: "sync_rows (fst ?m) ''contacts'' = [success_row 100 ''contacts'' 1]" by code_simp
  have e: "sync_rows (fst ?m) ''campaigns'' = [success_row 103 ''campaigns'' 1]" by code_simp
  have f: "length (sync_state (fst ?m)) = 5" by code_simp
  show ?thesis by (intro conjI) (rule b, rule c, rule e, rule a, rule f)
qed

end
